(* ===== verification/Prelude.thy ===== *)
theory Prelude
  imports Main "HOL-Library.Char_ord" "HOL-Library.List_Lexorder"
begin

text \<open>
  Shared vocabulary of the development: Python exceptions as values, the result type
  (\<open>py_error + 'a\<close>, \<open>Inl\<close> for a raised exception), its sequencing combinators, and the
  generic facts on lists, strings and results that the component theories use.

  A Python \<open>str\<close> is represented by its UTF-8 bytes (a \<open>string\<close>, that is a list of 8-bit
  characters); a lone surrogate, which JSON escapes can produce, is represented by its
  three-byte generalised encoding. Byte order on that representation is code point order, so
  sorting keys and comparing strings agree with Python. \<open>bytes\<close> are strings too.
\<close>

type_synonym bytes = string
type_synonym pystr = string

section \<open>Exceptions and results\<close>

text \<open>
  One constructor per exception class that the modelled code raises or lets through; the
  argument is the exception's message (the program uses closed, code-like messages).
  \<open>Outside_model\<close> marks the few inputs whose treatment by the standard library is not
  modelled (UTF-16/32 input to \<open>json.loads\<close>), \<open>OutOfFuel\<close> an exhausted fuel parameter.
\<close>

datatype py_error =
    DeadlineContractError pystr
  | BridgeError pystr
  | AtifError pystr
  | ControlPlaneError pystr
  | RuntimeEntryError pystr
  | ProtectedTargetError pystr
  | ValueError pystr
  | RuntimeError pystr
  | UnicodeEncodeError
  | UnicodeDecodeError
  | JSONDecodeError
  | KeyError
  | TypeError
  | AttributeError
  | IndexError
  | AssertionError
  | OSError
  | FileExistsError
  | TimeoutError
  | CancelledError
  | Outside_model
  | OutOfFuel

type_synonym 'a result = "py_error + 'a"

definition rbind :: "'e + 'a \<Rightarrow> ('a \<Rightarrow> 'e + 'b) \<Rightarrow> 'e + 'b" where
  "rbind m f = (case m of Inl e \<Rightarrow> Inl e | Inr x \<Rightarrow> f x)"

definition ensure :: "bool \<Rightarrow> 'e \<Rightarrow> 'e + 'b \<Rightarrow> 'e + 'b" where
  "ensure c e k = (if c then k else Inl e)"

text \<open>\<open>fold\<close> with early exit: the shape of a \<open>for\<close> loop whose body may raise.\<close>

primrec rfold :: "('s \<Rightarrow> 'a \<Rightarrow> 'e + 's) \<Rightarrow> 's \<Rightarrow> 'a list \<Rightarrow> 'e + 's" where
  "rfold f s [] = Inr s"
| "rfold f s (x # xs) = rbind (f s x) (\<lambda>s'. rfold f s' xs)"

primrec rmap :: "('a \<Rightarrow> 'e + 'b) \<Rightarrow> 'a list \<Rightarrow> 'e + 'b list" where
  "rmap f [] = Inr []"
| "rmap f (x # xs) = rbind (f x) (\<lambda>y. rbind (rmap f xs) (\<lambda>ys. Inr (y # ys)))"

definition the_error :: "'e + 'a \<Rightarrow> 'e option" where
  "the_error r = (case r of Inl e \<Rightarrow> Some e | Inr _ \<Rightarrow> None)"

text \<open>\<open>rewrap r e\<close>: an \<open>except\<close> clause that replaces any exception of \<open>r\<close> by \<open>e\<close>.\<close>

definition rewrap :: "'e + 'a \<Rightarrow> 'e \<Rightarrow> 'e + 'a" where
  "rewrap r e = (case r of Inl _ \<Rightarrow> Inl e | Inr x \<Rightarrow> Inr x)"

text \<open>\<open>except ValueError\<close>: the other four are its subclasses.\<close>

fun is_value_error :: "py_error \<Rightarrow> bool" where
  "is_value_error (ValueError m) = True"
| "is_value_error (ProtectedTargetError m) = True"
| "is_value_error UnicodeEncodeError = True"
| "is_value_error UnicodeDecodeError = True"
| "is_value_error JSONDecodeError = True"
| "is_value_error _ = False"

definition catch :: "(py_error \<Rightarrow> bool) \<Rightarrow> 'a result \<Rightarrow> 'a result \<Rightarrow> 'a result" where
  "catch P m handler = (case m of Inl e \<Rightarrow> if P e then handler else Inl e | Inr x \<Rightarrow> Inr x)"

named_theorems result_simps
named_theorems py_simps

lemma rbind_simps [simp, result_simps]:
  "rbind (Inl e) f = Inl e"
  "rbind (Inr x) f = f x"
  by (simp_all add: rbind_def)

lemma rbind_Inr_iff [result_simps]:
  "rbind m f = Inr y \<longleftrightarrow> (\<exists>x. m = Inr x \<and> f x = Inr y)"
  by (cases m) auto

lemma rbind_Inl_iff:
  "rbind m f = Inl e \<longleftrightarrow> m = Inl e \<or> (\<exists>x. m = Inr x \<and> f x = Inl e)"
  by (cases m) auto

lemma rbind_assoc: "rbind (rbind m f) g = rbind m (\<lambda>x. rbind (f x) g)"
  by (cases m) auto

lemma rbind_cong [fundef_cong]:
  "m = m' \<Longrightarrow> (\<And>x. m' = Inr x \<Longrightarrow> f x = f' x) \<Longrightarrow> rbind m f = rbind m' f'"
  by (cases m') auto

lemma ensure_simps [simp]:
  "ensure True e k = k"
  "ensure False e k = Inl e"
  by (simp_all add: ensure_def)

lemma ensure_Inr_iff [simp, result_simps]: "ensure c e k = Inr y \<longleftrightarrow> c \<and> k = Inr y"
  by (simp add: ensure_def)

lemma ensure_Inl_iff: "ensure c e k = Inl e' \<longleftrightarrow> (\<not> c \<and> e' = e) \<or> (c \<and> k = Inl e')"
  by (auto simp: ensure_def)

lemma rewrap_Inr_iff [simp]: "rewrap r e = Inr x \<longleftrightarrow> r = Inr x"
  by (cases r) (auto simp: rewrap_def)

lemma rewrap_Inl_iff: "rewrap r e = Inl e' \<longleftrightarrow> e' = e \<and> (\<exists>d. r = Inl d)"
  by (cases r) (auto simp: rewrap_def)

lemma rewrap_simps [simp]: "rewrap (Inr x) e = Inr x" "rewrap (Inl d) e = Inl e"
  by (simp_all add: rewrap_def)

lemma catch_Inr [simp]: "catch P m (Inl e) = Inr x \<longleftrightarrow> m = Inr x"
  by (cases m) (auto simp: catch_def)

lemma rfold_append: "rfold f s (xs @ ys) = rbind (rfold f s xs) (\<lambda>s'. rfold f s' ys)"
  by (induction xs arbitrary: s) (simp_all add: rbind_assoc)

text \<open>An invariant of the loop body is an invariant of the loop.\<close>

lemma rfold_invariant:
  assumes "rfold f s xs = Inr s'" and "P s"
    and "\<And>t x t'. x \<in> set xs \<Longrightarrow> P t \<Longrightarrow> f t x = Inr t' \<Longrightarrow> P t'"
  shows "P s'"
  using assms by (induction xs arbitrary: s) (auto simp: rbind_Inr_iff)

lemma rmap_Inr_iff:
  "rmap f xs = Inr ys \<longleftrightarrow> length ys = length xs \<and> (\<forall>i < length xs. f (xs ! i) = Inr (ys ! i))"
proof (induction xs arbitrary: ys)
  case Nil
  then show ?case by auto
next
  case (Cons x xs)
  show ?case
    by (cases ys) (auto simp: rbind_Inr_iff Cons.IH less_Suc_eq_0_disj)
qed

lemma rmap_all_Inr: "(\<And>x. x \<in> set xs \<Longrightarrow> f x = Inr (g x)) \<Longrightarrow> rmap f xs = Inr (map g xs)"
  by (induction xs) auto

lemma rmap_list_all:
  "rmap f xs = Inr ys \<Longrightarrow> (\<And>x y. f x = Inr y \<Longrightarrow> P y) \<Longrightarrow> list_all P ys"
  by (induction xs arbitrary: ys) (auto simp: rbind_Inr_iff)

lemma rmap_length: "rmap f xs = Inr ys \<Longrightarrow> length ys = length xs"
  by (simp add: rmap_Inr_iff)

section \<open>Which exceptions a computation raises\<close>

text \<open>
  \<open>raises_only P m\<close>: if \<open>m\<close> raises, it raises an exception in \<open>P\<close>. The introduction
  rules follow the shape of a program, so that the exceptions of a validator are read off its
  text with \<open>intro raises_only_intros\<close>.
\<close>

definition raises_only :: "('e \<Rightarrow> bool) \<Rightarrow> 'e + 'a \<Rightarrow> bool" where
  "raises_only P m \<longleftrightarrow> (\<forall>e. m = Inl e \<longrightarrow> P e)"

named_theorems raises_only_intros

lemma raises_only_Inr [raises_only_intros]: "raises_only P (Inr x)"
  by (simp add: raises_only_def)

lemma raises_only_Inl [raises_only_intros]: "P e \<Longrightarrow> raises_only P (Inl e)"
  by (simp add: raises_only_def)

lemma raises_only_rbind [raises_only_intros]:
  "raises_only P m \<Longrightarrow> (\<And>x. raises_only P (f x)) \<Longrightarrow> raises_only P (rbind m f)"
  by (auto simp: raises_only_def rbind_Inl_iff)

lemma raises_only_ensure [raises_only_intros]:
  "P e \<Longrightarrow> raises_only P k \<Longrightarrow> raises_only P (ensure c e k)"
  by (auto simp: raises_only_def ensure_Inl_iff)

lemma raises_only_rmap [raises_only_intros]:
  "(\<And>x. raises_only P (f x)) \<Longrightarrow> raises_only P (rmap f xs)"
  by (induction xs) (auto intro!: raises_only_intros)

lemma raises_only_rfold [raises_only_intros]:
  "(\<And>s x. raises_only P (f s x)) \<Longrightarrow> raises_only P (rfold f s xs)"
  by (induction xs arbitrary: s) (auto intro!: raises_only_intros)

lemma raises_only_if [raises_only_intros]:
  "raises_only P a \<Longrightarrow> raises_only P b \<Longrightarrow> raises_only P (if c then a else b)"
  by simp

lemma raises_only_let [raises_only_intros]:
  "(\<And>x. raises_only P (f x)) \<Longrightarrow> raises_only P (let x = a in f x)"
  by simp

lemma raises_only_prod [raises_only_intros]:
  "(\<And>a b. raises_only P (f a b)) \<Longrightarrow> raises_only P (case x of (a, b) \<Rightarrow> f a b)"
  by (cases x) simp

lemma raises_onlyD: "raises_only P m \<Longrightarrow> m = Inl e \<Longrightarrow> P e"
  by (simp add: raises_only_def)

section \<open>Loops over the events of an environment\<close>

text \<open>
  A program that waits for its environment is an iteration on a state and one event: it goes on,
  it finishes, or it raises, and in each case leaves a state behind. A run consumes a list of
  events; when the list is exhausted the program is still waiting.
\<close>

datatype 's outcome = Next 's | Finished 's | Raised 's py_error

fun left_state :: "'s outcome \<Rightarrow> 's" where
  "left_state (Next s) = s"
| "left_state (Finished s) = s"
| "left_state (Raised s e) = s"

fun run_loop :: "('s \<Rightarrow> 'ev \<Rightarrow> 's outcome) \<Rightarrow> 's \<Rightarrow> 'ev list \<Rightarrow> 's outcome" where
  "run_loop f s [] = Next s"
| "run_loop f s (ev # evs) = (case f s ev of Next s' \<Rightarrow> run_loop f s' evs | out \<Rightarrow> out)"

text \<open>
  The contract of an iteration: \<open>inv\<close> holds between iterations, \<open>post\<close> wherever one can stop,
  and \<open>grow\<close> relates the state left behind to the one before.
\<close>

locale event_loop =
  fixes iterate :: "'s \<Rightarrow> 'ev \<Rightarrow> 's outcome" and inv :: "'s \<Rightarrow> bool" and post :: "'s \<Rightarrow> bool"
    and grow :: "'s \<Rightarrow> 's \<Rightarrow> bool"
  assumes next_inv: "inv s \<Longrightarrow> iterate s ev = Next s' \<Longrightarrow> inv s'"
    and inv_post: "inv s \<Longrightarrow> post s"
    and stop_post: "inv s \<Longrightarrow> post (left_state (iterate s ev))"
    and grow_refl: "grow s s"
    and grow_trans: "grow s t \<Longrightarrow> grow t u \<Longrightarrow> grow s u"
    and iterate_grow: "inv s \<Longrightarrow> grow s (left_state (iterate s ev))"
begin

lemma run_next: "inv s \<Longrightarrow> run_loop iterate s evs = Next s' \<Longrightarrow> inv s'"
  by (induction evs arbitrary: s) (auto split: outcome.splits dest: next_inv)

lemma run_post: "inv s \<Longrightarrow> post (left_state (run_loop iterate s evs))"
proof (induction evs arbitrary: s)
  case Nil
  then show ?case by (simp add: inv_post)
next
  case (Cons ev evs)
  from Cons.prems stop_post [OF Cons.prems, of ev] show ?case
    by (cases "iterate s ev") (auto dest: next_inv intro: Cons.IH)
qed

lemma run_grow: "inv s \<Longrightarrow> grow s (left_state (run_loop iterate s evs))"
proof (induction evs arbitrary: s)
  case Nil
  then show ?case by (simp add: grow_refl)
next
  case (Cons ev evs)
  from Cons.prems iterate_grow [OF Cons.prems, of ev] show ?case
    by (cases "iterate s ev") (auto dest: next_inv intro: Cons.IH grow_trans)
qed

end

section \<open>Characters and text\<close>

definition ord_of :: "char \<Rightarrow> nat" where
  "ord_of c = of_char c"

lemma ord_of_less [simp]: "ord_of c < 256"
  using of_char_mod_256 [where ?'a = nat] by (metis mod_less_divisor ord_of_def zero_less_numeral)

lemma char_of_ord_of [simp]: "char_of (ord_of c) = c"
  by (simp add: ord_of_def)

lemma ord_of_char_of [simp]: "ord_of (char_of n) = n mod 256"
  by (simp add: ord_of_def)

lemma ord_of_inject: "ord_of c = ord_of d \<longleftrightarrow> c = d"
  by (metis char_of_ord_of)

definition is_digit :: "char \<Rightarrow> bool" where
  "is_digit c \<longleftrightarrow> 48 \<le> ord_of c \<and> ord_of c \<le> 57"

text \<open>Membership in \<open>"0123456789abcdef"\<close>.\<close>

definition is_lower_hex :: "char \<Rightarrow> bool" where
  "is_lower_hex c \<longleftrightarrow> is_digit c \<or> 97 \<le> ord_of c \<and> ord_of c \<le> 102"

text \<open>
  A SHA-256 hex digest: 64 lower-case hexadecimal characters. All admitted characters are
  ASCII, so counting bytes is counting code points.
\<close>

definition is_sha256_hex :: "pystr \<Rightarrow> bool" where
  "is_sha256_hex s \<longleftrightarrow> length s = 64 \<and> list_all is_lower_hex s"

end
