(* ===== verification/Py_Value.thy ===== *)
theory Py_Value
  imports Prelude Complex_Main
begin

text \<open>
  The Python values that \<open>json.loads\<close> produces and the built-in operations the program applies
  to them: equality, dictionary access, UTF-8 encoding and \<open>pathlib.PurePosixPath\<close>.
\<close>

section \<open>Values\<close>

text \<open>
  A dictionary is an association list in insertion order with distinct keys (\<open>wf_val\<close>).
  \<open>PFloat q\<close> is a finite float with exact value \<open>q\<close>; \<open>PNonFinite\<close> is \<open>nan\<close>,
  \<open>inf\<close> or \<open>-inf\<close>, named by its JSON constant. Floats are only ever compared or
  rejected by the modelled code; their rounding and their \<open>repr\<close> are not modelled.
\<close>

datatype pyval =
    PNone
  | PBool bool
  | PInt int
  | PFloat rat
  | PNonFinite pystr
  | PStr pystr
  | PList "pyval list"
  | PDict "(pystr \<times> pyval) list"

type_synonym pydict = "(pystr \<times> pyval) list"

fun wf_val :: "pyval \<Rightarrow> bool" where
  "wf_val (PList xs) = list_all wf_val xs"
| "wf_val (PDict d) = (distinct (map fst d) \<and> list_all (\<lambda>kv. wf_val (snd kv)) d)"
| "wf_val _ = True"

section \<open>Equality\<close>

text \<open>
  \<open>bool\<close> is a subclass of \<open>int\<close> (\<open>True == 1 == 1.0\<close>), and dictionaries compare as
  finite maps, whatever their insertion order.
\<close>

fun num_value :: "pyval \<Rightarrow> rat option" where
  "num_value (PBool b) = Some (if b then 1 else 0)"
| "num_value (PInt i) = Some (of_int i)"
| "num_value (PFloat q) = Some q"
| "num_value _ = None"

fun py_eq :: "pyval \<Rightarrow> pyval \<Rightarrow> bool"
  and py_eq_list :: "pyval list \<Rightarrow> pyval list \<Rightarrow> bool"
  and py_eq_items :: "pydict \<Rightarrow> pydict \<Rightarrow> bool" where
  "py_eq (PList xs) w = (case w of PList ys \<Rightarrow> py_eq_list xs ys | _ \<Rightarrow> False)"
| "py_eq (PDict d) w =
     (case w of PDict d' \<Rightarrow> length d = length d' \<and> py_eq_items d d' | _ \<Rightarrow> False)"
| "py_eq PNone w = (w = PNone)"
| "py_eq (PStr s) w = (w = PStr s)"
| "py_eq (PNonFinite c) w = (w = PNonFinite c \<and> c \<noteq> ''NaN'')"
| "py_eq (PBool b) w = (num_value w = Some (if b then 1 else 0))"
| "py_eq (PInt i) w = (num_value w = Some (of_int i))"
| "py_eq (PFloat q) w = (num_value w = Some q)"
| "py_eq_list [] ys = (ys = [])"
| "py_eq_list (x # xs) ys = (case ys of [] \<Rightarrow> False | y # ys' \<Rightarrow> py_eq x y \<and> py_eq_list xs ys')"
| "py_eq_items [] d = True"
| "py_eq_items ((k, v) # d) d' =
     ((case map_of d' k of None \<Rightarrow> False | Some w \<Rightarrow> py_eq v w) \<and> py_eq_items d d')"

lemma py_eq_PStr [simp, py_simps]: "py_eq v (PStr s) \<longleftrightarrow> v = PStr s"
  by (cases v) auto

lemma py_eq_PNone [simp, py_simps]: "py_eq v PNone \<longleftrightarrow> v = PNone"
  by (cases v) auto

lemma py_eq_strs [simp, py_simps]: "py_eq_list vs (map PStr ss) \<longleftrightarrow> vs = map PStr ss"
proof (induction vs arbitrary: ss)
  case Nil
  then show ?case by auto
next
  case (Cons v vs)
  then show ?case by (cases ss) auto
qed

text \<open>On the values the program compares, equality is reflexive.\<close>

fun finite_val :: "pyval \<Rightarrow> bool" where
  "finite_val (PList xs) = list_all finite_val xs"
| "finite_val (PDict d) = list_all (\<lambda>kv. finite_val (snd kv)) d"
| "finite_val (PNonFinite c) = False"
| "finite_val _ = True"

lemma py_eq_items_self:
  assumes "distinct (map fst d)" and "\<And>k v. (k, v) \<in> set d \<Longrightarrow> py_eq v v"
  shows "py_eq_items d d"
proof -
  have "py_eq_items d' d" if "set d' \<subseteq> set d" for d'
    using that
  proof (induction d')
    case Nil
    then show ?case by simp
  next
    case (Cons kv d')
    obtain k v where kv: "kv = (k, v)" by fastforce
    with Cons.prems have "map_of d k = Some v"
      using assms(1) by (auto intro: map_of_is_SomeI)
    moreover have "py_eq v v" using Cons.prems kv assms(2) by auto
    ultimately show ?case using Cons kv by simp
  qed
  then show ?thesis by simp
qed

lemma py_eq_list_self: "(\<And>x. x \<in> set xs \<Longrightarrow> py_eq x x) \<Longrightarrow> py_eq_list xs xs"
  by (induction xs) auto

lemma py_eq_refl [simp]: "wf_val v \<Longrightarrow> finite_val v \<Longrightarrow> py_eq v v"
proof (induction v)
  case (PList xs)
  then show ?case by (auto simp: list_all_iff intro: py_eq_list_self)
next
  case (PDict d)
  then show ?case by (force simp: list_all_iff intro: py_eq_items_self)
qed auto

text \<open>An optional string as a value.\<close>

definition opt_str :: "pystr option \<Rightarrow> pyval" where
  "opt_str x = (case x of None \<Rightarrow> PNone | Some s \<Rightarrow> PStr s)"

section \<open>Dictionaries\<close>

definition dict_keys :: "pydict \<Rightarrow> pystr list" where
  "dict_keys d = map fst d"

text \<open>\<open>d.get(k)\<close>: \<open>PNone\<close> when the key is missing.\<close>

definition dict_get :: "pydict \<Rightarrow> pystr \<Rightarrow> pyval" where
  "dict_get d k = (case map_of d k of None \<Rightarrow> PNone | Some v \<Rightarrow> v)"

definition dict_get_default :: "pydict \<Rightarrow> pystr \<Rightarrow> pyval \<Rightarrow> pyval" where
  "dict_get_default d k dflt = (case map_of d k of None \<Rightarrow> dflt | Some v \<Rightarrow> v)"

text \<open>\<open>d[k]\<close> on a dictionary.\<close>

definition dict_item :: "pydict \<Rightarrow> pystr \<Rightarrow> pyval result" where
  "dict_item d k = (case map_of d k of None \<Rightarrow> Inl KeyError | Some v \<Rightarrow> Inr v)"

text \<open>\<open>v[k]\<close> with a string key on any value: only dictionaries accept one.\<close>

definition py_item :: "pyval \<Rightarrow> pystr \<Rightarrow> pyval result" where
  "py_item v k = (case v of PDict d \<Rightarrow> dict_item d k | _ \<Rightarrow> Inl TypeError)"

text \<open>\<open>v.get(k)\<close> on any value: only dictionaries have the method.\<close>

definition py_get :: "pyval \<Rightarrow> pystr \<Rightarrow> pyval result" where
  "py_get v k = (case v of PDict d \<Rightarrow> Inr (dict_get d k) | _ \<Rightarrow> Inl AttributeError)"

lemma case_dict_Inr:
  "(case v of PDict d \<Rightarrow> f d | _ \<Rightarrow> Inl e) = Inr y \<longleftrightarrow> (\<exists>d. v = PDict d \<and> f d = Inr y)"
  by (cases v) auto

lemma case_str_Inr:
  "(case v of PStr d \<Rightarrow> f d | _ \<Rightarrow> Inl e) = Inr y \<longleftrightarrow> (\<exists>d. v = PStr d \<and> f d = Inr y)"
  by (cases v) auto

text \<open>\<open>d[k] = v\<close>: the position of an existing key is kept, a new key goes to the end.\<close>

primrec dict_set :: "pydict \<Rightarrow> pystr \<Rightarrow> pyval \<Rightarrow> pydict" where
  "dict_set [] k v = [(k, v)]"
| "dict_set (kv # d) k v = (if fst kv = k then (k, v) # d else kv # dict_set d k v)"

text \<open>\<open>set(value) == fields\<close>.\<close>

definition keys_are :: "pydict \<Rightarrow> pystr list \<Rightarrow> bool" where
  "keys_are d fields \<longleftrightarrow> set (dict_keys d) = set fields"

text \<open>\<open>dict(pairs)\<close>, as \<open>json.loads\<close> builds an object by default: the last duplicate wins.\<close>

definition dict_of_pairs :: "pydict \<Rightarrow> pydict" where
  "dict_of_pairs ps = foldl (\<lambda>d kv. dict_set d (fst kv) (snd kv)) [] ps"

lemma map_of_dict_set [simp]: "map_of (dict_set d k v) = (map_of d)(k \<mapsto> v)"
  by (induction d) (auto simp: fun_eq_iff)

lemma keys_dict_set:
  "map fst (dict_set d k v) = (if k \<in> fst ` set d then map fst d else map fst d @ [k])"
  by (induction d) auto

lemma distinct_dict_set [simp]: "distinct (map fst d) \<Longrightarrow> distinct (map fst (dict_set d k v))"
  by (simp add: keys_dict_set)

lemma dict_set_new: "k \<notin> fst ` set d \<Longrightarrow> dict_set d k v = d @ [(k, v)]"
  by (induction d) auto

lemma dict_of_pairs_distinct: "distinct (map fst ps) \<Longrightarrow> dict_of_pairs ps = ps"
proof -
  have "foldl (\<lambda>d kv. dict_set d (fst kv) (snd kv)) d ps = d @ ps"
    if "distinct (map fst (d @ ps))" for d
    using that
  proof (induction ps arbitrary: d)
    case Nil
    then show ?case by simp
  next
    case (Cons kv ps)
    then have "fst kv \<notin> fst ` set d" by auto
    then show ?case using Cons by (simp add: dict_set_new)
  qed
  then show "distinct (map fst ps) \<Longrightarrow> dict_of_pairs ps = ps"
    by (simp add: dict_of_pairs_def)
qed

lemma distinct_dict_of_pairs: "distinct (map fst (dict_of_pairs ps))"
proof -
  have "distinct (map fst d) \<Longrightarrow>
      distinct (map fst (foldl (\<lambda>d kv. dict_set d (fst kv) (snd kv)) d ps))" for d
    by (induction ps arbitrary: d) simp_all
  then show ?thesis by (simp add: dict_of_pairs_def)
qed

lemma keys_areD: "keys_are d fs \<Longrightarrow> k \<in> set fs \<Longrightarrow> \<exists>v. map_of d k = Some v"
  by (auto simp: keys_are_def dict_keys_def map_of_eq_None_iff simp flip: not_None_eq)

section \<open>UTF-8\<close>

definition is_cont :: "char \<Rightarrow> bool" where
  "is_cont c \<longleftrightarrow> ord_of c div 64 = 2"

text \<open>
  The length of the encoded character at the head of a byte string, 0 when there is none.
  Strict UTF-8: no overlong forms, no surrogates, nothing above U+10FFFF.
\<close>

definition utf8_ok2 :: "nat \<Rightarrow> char \<Rightarrow> bool" where
  "utf8_ok2 x b \<longleftrightarrow> 194 \<le> x \<and> x < 224 \<and> is_cont b"

definition utf8_ok3 :: "bool \<Rightarrow> nat \<Rightarrow> char \<Rightarrow> char \<Rightarrow> bool" where
  "utf8_ok3 sp x b c \<longleftrightarrow> 224 \<le> x \<and> x < 240 \<and> is_cont b \<and> is_cont c
     \<and> (x = 224 \<longrightarrow> 160 \<le> ord_of b) \<and> (x = 237 \<longrightarrow> sp \<or> ord_of b < 160)"

definition utf8_ok4 :: "nat \<Rightarrow> char \<Rightarrow> char \<Rightarrow> char \<Rightarrow> bool" where
  "utf8_ok4 x b c d \<longleftrightarrow> 240 \<le> x \<and> x < 245 \<and> is_cont b \<and> is_cont c \<and> is_cont d
     \<and> (x = 240 \<longrightarrow> 144 \<le> ord_of b) \<and> (x = 244 \<longrightarrow> ord_of b < 144)"

fun utf8_width :: "bool \<Rightarrow> bytes \<Rightarrow> nat" where
  "utf8_width sp [] = 0"
| "utf8_width sp [a] = (if ord_of a < 128 then 1 else 0)"
| "utf8_width sp [a, b] = (if ord_of a < 128 then 1 else if utf8_ok2 (ord_of a) b then 2 else 0)"
| "utf8_width sp [a, b, c] =
     (if ord_of a < 128 then 1 else if utf8_ok2 (ord_of a) b then 2
      else if utf8_ok3 sp (ord_of a) b c then 3 else 0)"
| "utf8_width sp (a # b # c # d # r) =
     (if ord_of a < 128 then 1 else if utf8_ok2 (ord_of a) b then 2
      else if utf8_ok3 sp (ord_of a) b c then 3 else if utf8_ok4 (ord_of a) b c d then 4 else 0)"

text \<open>
  \<open>gen_utf8 False\<close> is strict UTF-8; \<open>gen_utf8 True\<close> also admits encoded surrogates
  (the error handler \<open>surrogatepass\<close>). On the representation of a Python \<open>str\<close> strict validity fails exactly when
  the string holds a lone surrogate, which is when \<open>str.encode("utf-8")\<close> raises.
\<close>

function gen_utf8 :: "bool \<Rightarrow> bytes \<Rightarrow> bool" where
  "gen_utf8 sp s =
     (if s = [] then True else if utf8_width sp s = 0 then False
      else gen_utf8 sp (drop (utf8_width sp s) s))"
  by pat_completeness auto
termination
  by (relation "measure (length \<circ> snd)") auto

declare gen_utf8.simps [simp del]

lemma utf8_width_le: "utf8_width sp s \<le> length s"
  by (induction sp s rule: utf8_width.induct) auto

lemma utf8_width_append: "utf8_width sp s \<noteq> 0 \<Longrightarrow> utf8_width sp (s @ t) = utf8_width sp s"
proof (induction sp s rule: utf8_width.induct)
  case (2 sp a)
  then show ?case
    by (cases "(sp, t)" rule: utf8_width.cases) (auto split: if_splits)
next
  case (3 sp a b)
  then show ?case
    by (cases "(sp, t)" rule: utf8_width.cases) (auto split: if_splits)
next
  case (4 sp a b c)
  then show ?case
    by (cases "(sp, t)" rule: utf8_width.cases) (auto split: if_splits)
qed auto

lemma valid_utf8_Nil [simp]: "gen_utf8 sp []"
  by (subst gen_utf8.simps) simp

lemma utf8_width_ascii: "ord_of a < 128 \<Longrightarrow> utf8_width sp (a # s) = 1"
  by (cases "(sp, a # s)" rule: utf8_width.cases) auto

lemma valid_utf8_ascii_Cons [simp]: "ord_of a < 128 \<Longrightarrow> gen_utf8 sp (a # s) = gen_utf8 sp s"
  by (subst gen_utf8.simps) (simp add: utf8_width_ascii)

lemma valid_utf8_append:
  assumes "gen_utf8 sp s" and "gen_utf8 sp t"
  shows "gen_utf8 sp (s @ t)"
  using assms
proof (induction sp s rule: gen_utf8.induct)
  case (1 sp s)
  show ?case
  proof (cases "s = []")
    case True
    with "1.prems" show ?thesis by simp
  next
    case False
    let ?w = "utf8_width sp s"
    from False "1.prems"(1) have w: "?w \<noteq> 0" and v: "gen_utf8 sp (drop ?w s)"
      by (subst (asm) gen_utf8.simps; simp split: if_splits)+
    have "gen_utf8 sp (drop ?w s @ t)" using "1.IH" "1.prems"(2) False w v by simp
    moreover have "drop (utf8_width sp (s @ t)) (s @ t) = drop ?w s @ t"
      using utf8_width_append [OF w, of t] utf8_width_le [of sp s] by simp
    ultimately show ?thesis
      using False w by (subst gen_utf8.simps) (simp add: utf8_width_append)
  qed
qed

lemma valid_utf8_ascii: "list_all (\<lambda>c. ord_of c < 128) s \<Longrightarrow> gen_utf8 sp s"
  by (induction s) auto

abbreviation valid_utf8 :: "bytes \<Rightarrow> bool" where
  "valid_utf8 \<equiv> gen_utf8 False"

lemma utf8_width_surrogatepass: "utf8_width False s \<noteq> 0 \<Longrightarrow> utf8_width True s = utf8_width False s"
  by (cases "(False, s)" rule: utf8_width.cases) (auto simp: utf8_ok3_def utf8_ok4_def split: if_splits)

lemma valid_utf8_surrogatepass: "valid_utf8 s \<Longrightarrow> gen_utf8 True s"
proof (induction "False" s rule: gen_utf8.induct)
  case (1 s)
  show ?case
  proof (cases "s = []")
    case False
    with "1.prems" have w: "utf8_width False s \<noteq> 0"
      and v: "valid_utf8 (drop (utf8_width False s) s)"
      by (subst (asm) gen_utf8.simps; simp split: if_splits)+
    then show ?thesis
      using "1.hyps" False by (subst gen_utf8.simps) (simp add: utf8_width_surrogatepass)
  qed simp
qed

lemma lower_hex_ascii: "is_lower_hex c \<Longrightarrow> ord_of c < 128"
  by (auto simp: is_lower_hex_def is_digit_def)

lemma sha256_hex_valid_utf8: "is_sha256_hex s \<Longrightarrow> valid_utf8 s"
  by (auto simp: is_sha256_hex_def list_all_iff lower_hex_ascii intro!: valid_utf8_ascii)

definition py_encode :: "pystr \<Rightarrow> bytes result" where
  "py_encode s = (if valid_utf8 s then Inr s else Inl UnicodeEncodeError)"

lemma py_encode_Inr [simp]: "py_encode s = Inr b \<longleftrightarrow> valid_utf8 s \<and> b = s"
  by (auto simp: py_encode_def)

lemma py_encode_raises [raises_only_intros]: "P UnicodeEncodeError \<Longrightarrow> raises_only P (py_encode s)"
  by (simp add: py_encode_def raises_only_def)

section \<open>Pure POSIX paths\<close>

text \<open>\<open>s.split("/")\<close>.\<close>

fun split_slash :: "pystr \<Rightarrow> pystr list" where
  "split_slash [] = [[]]"
| "split_slash (c # s) =
     (if c = CHR ''/'' then [] # split_slash s
      else case split_slash s of [] \<Rightarrow> [[c]] | p # ps \<Rightarrow> (c # p) # ps)"

primrec join_slash :: "pystr list \<Rightarrow> pystr" where
  "join_slash [] = []"
| "join_slash (p # ps) = p @ (if ps = [] then [] else ''/'' @ join_slash ps)"

text \<open>\<open>posixpath.splitroot\<close>: exactly two leading slashes are kept as the root \<open>//\<close>.\<close>

definition path_root :: "pystr \<Rightarrow> pystr \<times> pystr" where
  "path_root s =
     (if take 1 s \<noteq> ''/'' then ([], s)
      else if take 2 s \<noteq> ''//'' \<or> take 3 s = ''///'' then (''/'', drop 1 s)
      else (''//'', drop 2 s))"

definition path_tail :: "pystr \<Rightarrow> pystr list" where
  "path_tail s = filter (\<lambda>p. p \<noteq> [] \<and> p \<noteq> ''.'') (split_slash (snd (path_root s)))"

text \<open>\<open>PurePosixPath(s).parts\<close> and \<open>str(PurePosixPath(s))\<close> (also \<open>as_posix()\<close>).\<close>

definition path_parts :: "pystr \<Rightarrow> pystr list" where
  "path_parts s = (if fst (path_root s) = [] then [] else [fst (path_root s)]) @ path_tail s"

definition path_str :: "pystr \<Rightarrow> pystr" where
  "path_str s =
     (let t = fst (path_root s) @ join_slash (path_tail s) in if t = [] then ''.'' else t)"

definition path_is_absolute :: "pystr \<Rightarrow> bool" where
  "path_is_absolute s \<longleftrightarrow> fst (path_root s) \<noteq> []"

end
