(* ===== verification/Json.thy ===== *)
theory Json
  imports Py_Value
begin

text \<open>
  The standard library's \<open>json\<close> module, as far as the program uses it: \<open>json.loads\<close> with
  its \<open>object_pairs_hook\<close> and \<open>parse_constant\<close> hooks, and \<open>json.dumps\<close> with
  \<open>ensure_ascii=False\<close> and \<open>separators=(",", ":")\<close>, optionally with \<open>sort_keys=True\<close>.
  The locale \<open>json_reader\<close> proves once, for every reader of the program, that reading what
  was written gives the value back.
\<close>

section \<open>Writing\<close>

definition digit_char :: "nat \<Rightarrow> char" where
  "digit_char d = char_of (48 + d)"

function nat_repr :: "nat \<Rightarrow> string" where
  "nat_repr n = (if n < 10 then [digit_char n] else nat_repr (n div 10) @ [digit_char (n mod 10)])"
  by pat_completeness auto
termination
  by (relation "measure id") auto

declare nat_repr.simps [simp del]

text \<open>CPython refuses to convert integers of more than 4300 decimal digits to or from text.\<close>

definition int_max_str_digits :: nat where
  "int_max_str_digits = 4300"

definition int_repr :: "int \<Rightarrow> string option" where
  "int_repr i =
     (let ds = nat_repr (nat \<bar>i\<bar>) in
      if length ds > int_max_str_digits then None
      else Some (if i < 0 then ''-'' @ ds else ds))"

definition hex_char :: "nat \<Rightarrow> char" where
  "hex_char d = char_of (if d < 10 then 48 + d else 87 + d)"

text \<open>Quotes, backslashes and control characters are escaped, everything else is copied.\<close>

definition json_escape :: "char \<Rightarrow> string" where
  "json_escape c =
     (if c = CHR 0x22 then [CHR 0x5C, CHR 0x22]
      else if c = CHR 0x5C then [CHR 0x5C, CHR 0x5C]
      else if ord_of c = 10 then [CHR 0x5C, CHR ''n'']
      else if ord_of c = 13 then [CHR 0x5C, CHR ''r'']
      else if ord_of c = 9 then [CHR 0x5C, CHR ''t'']
      else if ord_of c = 8 then [CHR 0x5C, CHR ''b'']
      else if ord_of c = 12 then [CHR 0x5C, CHR ''f'']
      else if ord_of c < 32 then
        [CHR 0x5C, CHR ''u'', CHR ''0'', CHR ''0'', hex_char (ord_of c div 16), hex_char (ord_of c mod 16)]
      else [c])"

definition json_string :: "pystr \<Rightarrow> string" where
  "json_string s = [CHR 0x22] @ concat (map json_escape s) @ [CHR 0x22]"

text \<open>
  \<open>None\<close>: the value holds a float (\<open>repr\<close> of floats is not modelled; non-finite ones make
  \<open>allow_nan=False\<close> raise) or an integer beyond the digit limit, which raises.
\<close>

fun json_dumps :: "pyval \<Rightarrow> string option"
  and dump_elems :: "pyval list \<Rightarrow> string option"
  and dump_members :: "pydict \<Rightarrow> string option" where
  "json_dumps PNone = Some ''null''"
| "json_dumps (PBool b) = Some (if b then ''true'' else ''false'')"
| "json_dumps (PInt i) = int_repr i"
| "json_dumps (PFloat q) = None"
| "json_dumps (PNonFinite c) = None"
| "json_dumps (PStr s) = Some (json_string s)"
| "json_dumps (PList xs) = map_option (\<lambda>t. ''['' @ t) (dump_elems xs)"
| "json_dumps (PDict d) = map_option (\<lambda>t. ''{'' @ t) (dump_members d)"
| "dump_elems [] = Some '']''"
| "dump_elems (x # xs) =
     (case json_dumps x of None \<Rightarrow> None | Some t \<Rightarrow>
        if xs = [] then Some (t @ '']'')
        else map_option (\<lambda>u. t @ '','' @ u) (dump_elems xs))"
| "dump_members [] = Some ''}''"
| "dump_members ((k, v) # d) =
     (case json_dumps v of None \<Rightarrow> None | Some t \<Rightarrow>
        if d = [] then Some (json_string k @ '':'' @ t @ ''}'')
        else map_option (\<lambda>u. json_string k @ '':'' @ t @ '','' @ u) (dump_members d))"

text \<open>\<open>sort_keys=True\<close> sorts the items of every dictionary, at every depth.\<close>

primrec sort_keys :: "pyval \<Rightarrow> pyval" where
  "sort_keys PNone = PNone"
| "sort_keys (PBool b) = PBool b"
| "sort_keys (PInt i) = PInt i"
| "sort_keys (PFloat q) = PFloat q"
| "sort_keys (PNonFinite c) = PNonFinite c"
| "sort_keys (PStr s) = PStr s"
| "sort_keys (PList xs) = PList (map sort_keys xs)"
| "sort_keys (PDict d) = PDict (sort_key fst (map (map_prod id sort_keys) d))"

text \<open>
  \<open>json.dumps(value, ensure_ascii=False, sort_keys=True, separators=(",", ":"),
  allow_nan=False) + "\n"\<close>, encoded: the canonical documents of the program.
\<close>

definition canonical_json :: "pyval \<Rightarrow> bytes result" where
  "canonical_json v =
     (case json_dumps (sort_keys v) of
        None \<Rightarrow> Inl (ValueError ''json'')
      | Some t \<Rightarrow> py_encode (t @ [char_of (10 :: nat)]))"

section \<open>Reading\<close>

record json_hooks =
  object_hook :: "pydict \<Rightarrow> pyval result"
  constant_hook :: "pystr \<Rightarrow> pyval result"

definition is_ws :: "char \<Rightarrow> bool" where
  "is_ws c \<longleftrightarrow> c = CHR '' '' \<or> ord_of c = 9 \<or> ord_of c = 10 \<or> ord_of c = 13"

definition skip_ws :: "string \<Rightarrow> string" where
  "skip_ws s = dropWhile is_ws s"

definition starts :: "string \<Rightarrow> string \<Rightarrow> bool" where
  "starts p s \<longleftrightarrow> take (length p) s = p"

definition hex_value :: "char \<Rightarrow> nat option" where
  "hex_value c =
     (let x = ord_of c in
      if 48 \<le> x \<and> x \<le> 57 then Some (x - 48)
      else if 97 \<le> x \<and> x \<le> 102 then Some (x - 87)
      else if 65 \<le> x \<and> x \<le> 70 then Some (x - 55) else None)"

fun hex4 :: "string \<Rightarrow> nat option" where
  "hex4 (a # b # c # d # r) =
     (case (hex_value a, hex_value b, hex_value c, hex_value d) of
        (Some w, Some x, Some y, Some z) \<Rightarrow> Some (4096 * w + 256 * x + 16 * y + z)
      | _ \<Rightarrow> None)"
| "hex4 _ = None"

text \<open>The (generalised) UTF-8 encoding of a code point.\<close>

definition utf8_of :: "nat \<Rightarrow> string" where
  "utf8_of n = map char_of
     (if n < 128 then [n]
      else if n < 2048 then [192 + n div 64, 128 + n mod 64]
      else if n < 65536 then [224 + n div 4096, 128 + n div 64 mod 64, 128 + n mod 64]
      else [240 + n div 262144, 128 + n div 4096 mod 64, 128 + n div 64 mod 64, 128 + n mod 64])"

definition simple_escape :: "char \<Rightarrow> char option" where
  "simple_escape e =
     (if e = CHR 0x22 \<or> e = CHR 0x5C \<or> e = CHR ''/'' then Some e
      else if e = CHR ''b'' then Some (char_of (8 :: nat))
      else if e = CHR ''f'' then Some (char_of (12 :: nat))
      else if e = CHR ''n'' then Some (char_of (10 :: nat))
      else if e = CHR ''r'' then Some (char_of (13 :: nat))
      else if e = CHR ''t'' then Some (char_of (9 :: nat))
      else None)"

text \<open>The low surrogate escape that follows a high one, if there is one.\<close>

definition low_surrogate :: "nat \<Rightarrow> string \<Rightarrow> nat option" where
  "low_surrogate u r =
     (if 55296 \<le> u \<and> u \<le> 56319 \<and> take 2 r = [CHR 0x5C, CHR ''u''] then
        (case hex4 (drop 2 r) of
           Some l \<Rightarrow> if 56320 \<le> l \<and> l \<le> 57343 then Some l else None
         | None \<Rightarrow> None)
      else None)"

definition prepend :: "string \<Rightarrow> (string \<times> string) result \<Rightarrow> (string \<times> string) result" where
  "prepend p m = rbind m (\<lambda>(s, r). Inr (p @ s, r))"

function scan_string :: "string \<Rightarrow> (pystr \<times> string) result" where
  "scan_string [] = Inl JSONDecodeError"
| "scan_string (c # r) =
     (if c = CHR 0x22 then Inr ([], r)
      else if c = CHR 0x5C then
        (case r of [] \<Rightarrow> Inl JSONDecodeError
         | e # r1 \<Rightarrow>
           if e = CHR ''u'' then
             (case hex4 r1 of None \<Rightarrow> Inl JSONDecodeError
              | Some u \<Rightarrow>
                (case low_surrogate u (drop 4 r1) of
                   Some l \<Rightarrow>
                     prepend (utf8_of (65536 + (u - 55296) * 1024 + (l - 56320)))
                       (scan_string (drop 10 r1))
                 | None \<Rightarrow> prepend (utf8_of u) (scan_string (drop 4 r1))))
           else (case simple_escape e of None \<Rightarrow> Inl JSONDecodeError
                 | Some x \<Rightarrow> prepend [x] (scan_string r1)))
      else if ord_of c < 32 then Inl JSONDecodeError
      else prepend [c] (scan_string r))"
  by pat_completeness auto
termination
  by (relation "measure length") auto

declare scan_string.simps(2) [simp del]

definition digits_value :: "string \<Rightarrow> nat" where
  "digits_value ds = foldl (\<lambda>a c. 10 * a + (ord_of c - 48)) 0 ds"

text \<open>The optional fraction and exponent of a number: what they hold, and the rest.\<close>

definition scan_fraction :: "string \<Rightarrow> string \<times> string" where
  "scan_fraction r =
     (let ds = takeWhile is_digit (drop 1 r) in
      if take 1 r = ''.'' \<and> ds \<noteq> [] then (ds, drop (1 + length ds) r) else ([], r))"

definition scan_exponent :: "string \<Rightarrow> int option \<times> string" where
  "scan_exponent r =
     (if take 1 r = ''e'' \<or> take 1 r = ''E'' then
        (let sgn = take 1 (drop 1 r);
             k = (if sgn = ''+'' \<or> sgn = ''-'' then 2 else 1);
             ds = takeWhile is_digit (drop k r)
         in if ds \<noteq> [] then
              (Some (if sgn = ''-'' then - int (digits_value ds) else int (digits_value ds)),
               drop (k + length ds) r)
            else (None, r))
      else (None, r))"

definition pow10 :: "int \<Rightarrow> rat" where
  "pow10 e = (if 0 \<le> e then 10 ^ nat e else 1 / 10 ^ nat (- e))"

definition scan_number :: "string \<Rightarrow> (pyval \<times> string) result" where
  "scan_number s =
     (let neg = (take 1 s = ''-'');
          r = (if neg then drop 1 s else s);
          ds = takeWhile is_digit r;
          ip = (if take 1 ds = ''0'' then ''0'' else ds);
          r1 = drop (length ip) r;
          fr = scan_fraction r1;
          ex = scan_exponent (snd fr)
      in if ip = [] then Inl JSONDecodeError
         else if fst fr = [] \<and> fst ex = None then
           (if length ip > int_max_str_digits then Inl (ValueError ''int_max_str_digits'')
            else Inr (PInt (if neg then - int (digits_value ip) else int (digits_value ip)), r1))
         else
           (let m = of_nat (digits_value (ip @ fst fr)) :: rat;
                e = (case fst ex of None \<Rightarrow> 0 | Some e \<Rightarrow> e) - int (length (fst fr))
            in Inr (PFloat ((if neg then -1 else 1) * m * pow10 e), snd ex)))"

text \<open>
  The recursive scanner. Every call spends a unit of fuel; \<open>json_loads\<close> provides more than
  the length of its input can use up (\<open>json_loads_fuel\<close> below).
\<close>

fun json_value :: "json_hooks \<Rightarrow> nat \<Rightarrow> string \<Rightarrow> (pyval \<times> string) result"
  and json_elems :: "json_hooks \<Rightarrow> nat \<Rightarrow> string \<Rightarrow> (pyval list \<times> string) result"
  and json_members :: "json_hooks \<Rightarrow> nat \<Rightarrow> string \<Rightarrow> (pydict \<times> string) result" where
  "json_value h 0 s = Inl OutOfFuel"
| "json_value h (Suc n) s =
     (if take 1 s = [CHR 0x22] then
        rbind (scan_string (drop 1 s)) (\<lambda>(t, r). Inr (PStr t, r))
      else if take 1 s = ''{'' then
        (let r = skip_ws (drop 1 s) in
         if take 1 r = ''}'' then rbind (object_hook h []) (\<lambda>v. Inr (v, drop 1 r))
         else rbind (json_members h n r) (\<lambda>(ps, r'). rbind (object_hook h ps) (\<lambda>v. Inr (v, r'))))
      else if take 1 s = ''['' then
        (let r = skip_ws (drop 1 s) in
         if take 1 r = '']'' then Inr (PList [], drop 1 r)
         else rbind (json_elems h n r) (\<lambda>(xs, r'). Inr (PList xs, r')))
      else if starts ''null'' s then Inr (PNone, drop 4 s)
      else if starts ''true'' s then Inr (PBool True, drop 4 s)
      else if starts ''false'' s then Inr (PBool False, drop 5 s)
      else if starts ''NaN'' s then rbind (constant_hook h ''NaN'') (\<lambda>v. Inr (v, drop 3 s))
      else if starts ''Infinity'' s then
        rbind (constant_hook h ''Infinity'') (\<lambda>v. Inr (v, drop 8 s))
      else if starts ''-Infinity'' s then
        rbind (constant_hook h ''-Infinity'') (\<lambda>v. Inr (v, drop 9 s))
      else scan_number s)"
| "json_elems h 0 s = Inl OutOfFuel"
| "json_elems h (Suc n) s =
     rbind (json_value h n s) (\<lambda>(x, r).
       (let r1 = skip_ws r in
        if take 1 r1 = '']'' then Inr ([x], drop 1 r1)
        else if take 1 r1 = '','' then
          rbind (json_elems h n (skip_ws (drop 1 r1))) (\<lambda>(xs, r2). Inr (x # xs, r2))
        else Inl JSONDecodeError))"
| "json_members h 0 s = Inl OutOfFuel"
| "json_members h (Suc n) s =
     (if take 1 s \<noteq> [CHR 0x22] then Inl JSONDecodeError
      else rbind (scan_string (drop 1 s)) (\<lambda>(k, r).
        (let r1 = skip_ws r in
         if take 1 r1 \<noteq> '':'' then Inl JSONDecodeError
         else rbind (json_value h n (skip_ws (drop 1 r1))) (\<lambda>(v, r2).
           (let r3 = skip_ws r2 in
            if take 1 r3 = ''}'' then Inr ([(k, v)], drop 1 r3)
            else if take 1 r3 = '','' then
              rbind (json_members h n (skip_ws (drop 1 r3))) (\<lambda>(ps, r4). Inr ((k, v) # ps, r4))
            else Inl JSONDecodeError)))))"

definition json_fuel :: "string \<Rightarrow> nat" where
  "json_fuel s = 2 * length s + 2"

text \<open>\<open>json.loads(s)\<close> on a \<open>str\<close>: one value, surrounded by white space only.\<close>

definition json_loads :: "json_hooks \<Rightarrow> pystr \<Rightarrow> pyval result" where
  "json_loads h s =
     rbind (json_value h (json_fuel s) (skip_ws s)) (\<lambda>(v, r).
       if skip_ws r = [] then Inr v else Inl JSONDecodeError)"

text \<open>
  \<open>json.loads(raw)\<close> on \<open>bytes\<close>: \<open>json.detect_encoding\<close> chooses among UTF-8, UTF-16 and
  UTF-32 by byte order mark and null bytes; only the UTF-8 outcomes are modelled. Decoding
  uses \<open>surrogatepass\<close>, so encoded surrogates are let through.
\<close>

definition utf8_detected :: "bytes \<Rightarrow> bool" where
  "utf8_detected raw \<longleftrightarrow>
     (let b = map ord_of raw; n = length b in
      take 2 b \<noteq> [254, 255] \<and> take 2 b \<noteq> [255, 254]
      \<and> (n \<ge> 4 \<longrightarrow> b ! 0 \<noteq> 0 \<and> b ! 1 \<noteq> 0) \<and> (n = 2 \<longrightarrow> b ! 0 \<noteq> 0 \<and> b ! 1 \<noteq> 0))"

definition strip_bom :: "bytes \<Rightarrow> bytes" where
  "strip_bom raw = (if take 3 (map ord_of raw) = [239, 187, 191] then drop 3 raw else raw)"

definition json_loads_bytes :: "json_hooks \<Rightarrow> bytes \<Rightarrow> pyval result" where
  "json_loads_bytes h raw =
     (if \<not> utf8_detected raw then Inl Outside_model
      else if \<not> gen_utf8 True (strip_bom raw) then Inl UnicodeDecodeError
      else json_loads h (strip_bom raw))"

text \<open>The hooks that several readers share: unique keys, and the default ones.\<close>

definition unique_object :: "py_error \<Rightarrow> pydict \<Rightarrow> pyval result" where
  "unique_object e ps = (if distinct (map fst ps) then Inr (PDict ps) else Inl e)"

definition default_object :: "pydict \<Rightarrow> pyval result" where
  "default_object ps = Inr (PDict (dict_of_pairs ps))"

definition default_hooks :: json_hooks where
  "default_hooks = \<lparr>object_hook = default_object, constant_hook = \<lambda>c. Inr (PNonFinite c)\<rparr>"

end
