(* ===== verification/Json_Correct.thy ===== *)
theory Json_Correct
  imports Json "HOL-Library.Multiset"
begin

text \<open>
  Correctness of the JSON layer: the scanner never runs out of its fuel, and every reader
  whose object hook accepts distinct keys reads back exactly what the writer wrote.
\<close>

section \<open>Numbers\<close>

lemma is_digit_digit_char [simp]: "d < 10 \<Longrightarrow> is_digit (digit_char d)"
  by (simp add: is_digit_def digit_char_def)

lemma ord_digit_char [simp]: "d < 10 \<Longrightarrow> ord_of (digit_char d) = 48 + d"
  by (simp add: digit_char_def)

lemma digits_value_snoc: "digits_value (ds @ [c]) = 10 * digits_value ds + (ord_of c - 48)"
  by (simp add: digits_value_def)

lemma nat_repr_digits: "list_all is_digit (nat_repr n)"
proof (induction n rule: nat_repr.induct)
  case (1 n)
  then show ?case by (subst nat_repr.simps) simp
qed

lemma digits_value_nat_repr [simp]: "digits_value (nat_repr n) = n"
proof (induction n rule: nat_repr.induct)
  case (1 n)
  show ?case
  proof (cases "n < 10")
    case True
    then show ?thesis by (subst nat_repr.simps) (simp add: digits_value_def)
  next
    case False
    then show ?thesis using 1 by (subst nat_repr.simps) (simp add: digits_value_snoc)
  qed
qed

lemma nat_repr_nonempty [simp]: "nat_repr n \<noteq> []"
  by (subst nat_repr.simps) simp

lemma nat_repr_hd: "0 < n \<Longrightarrow> hd (nat_repr n) \<noteq> CHR ''0''"
proof (induction n rule: nat_repr.induct)
  case (1 n)
  show ?case
  proof (cases "n < 10")
    case True
    have "ord_of (CHR ''0'') = 48" by (simp add: ord_of_def)
    then have "digit_char n \<noteq> CHR ''0''"
      using True "1.prems" ord_digit_char [OF True] by (metis add_cancel_right_right less_numeral_extra(3))
    then show ?thesis using True by (subst nat_repr.simps) simp
  next
    case False
    then show ?thesis using 1 by (subst nat_repr.simps) (simp add: hd_append)
  qed
qed

lemma nat_repr_leading_zero: "take 1 (nat_repr n) = ''0'' \<Longrightarrow> nat_repr n = ''0''"
proof -
  assume z: "take 1 (nat_repr n) = ''0''"
  then have "hd (nat_repr n) = CHR ''0''" by (cases "nat_repr n") auto
  then have "n = 0" using nat_repr_hd [of n] by blast
  moreover have "digit_char 0 = CHR ''0''"
    by (subst ord_of_inject [symmetric]) (simp add: ord_of_def digit_char_def)
  ultimately show ?thesis by (simp add: nat_repr.simps)
qed

definition follow_ok :: "string \<Rightarrow> bool" where
  "follow_ok r \<longleftrightarrow>
     (case r of [] \<Rightarrow> True
      | c # _ \<Rightarrow> \<not> is_digit c \<and> c \<noteq> CHR ''.'' \<and> c \<noteq> CHR ''e'' \<and> c \<noteq> CHR ''E'')"

lemma takeWhile_digits: "list_all is_digit ds \<Longrightarrow> follow_ok r \<Longrightarrow> takeWhile is_digit (ds @ r) = ds"
  by (induction ds) (auto simp: follow_ok_def split: list.splits)

lemma follow_ok_scan: "follow_ok r \<Longrightarrow> scan_fraction r = ([], r)" "follow_ok r \<Longrightarrow> scan_exponent r = (None, r)"
  by (auto simp: follow_ok_def scan_fraction_def scan_exponent_def split: list.splits)

lemma digit_not_minus: "is_digit c \<Longrightarrow> c \<noteq> CHR ''-''"
  by (auto simp: is_digit_def ord_of_def)

definition plain_digits :: "string \<Rightarrow> bool" where
  "plain_digits ds \<longleftrightarrow> ds \<noteq> [] \<and> list_all is_digit ds \<and> (take 1 ds = ''0'' \<longrightarrow> ds = ''0'')
     \<and> length ds \<le> int_max_str_digits"

lemma scan_number_digits:
  assumes "plain_digits ds" and r: "follow_ok r"
  shows "scan_number (ds @ r) = Inr (PInt (int (digits_value ds)), r)"
    and "scan_number (CHR ''-'' # ds @ r) = Inr (PInt (- int (digits_value ds)), r)"
proof -
  obtain c cs where ds: "ds = c # cs" and c: "is_digit c" and cs: "c = CHR ''0'' \<longrightarrow> cs = []"
    using assms(1) by (cases ds) (auto simp: plain_digits_def)
  have tw: "takeWhile is_digit (c # cs @ r) = c # cs"
    using takeWhile_digits [of ds r] assms by (simp add: ds plain_digits_def)
  show "scan_number (ds @ r) = Inr (PInt (int (digits_value ds)), r)"
    using assms(1) c cs tw follow_ok_scan [OF r] digit_not_minus [OF c]
    by (cases "c = CHR ''0''") (simp_all add: scan_number_def Let_def ds plain_digits_def)
  show "scan_number (CHR ''-'' # ds @ r) = Inr (PInt (- int (digits_value ds)), r)"
    using assms(1) c cs tw follow_ok_scan [OF r]
    by (cases "c = CHR ''0''") (simp_all add: scan_number_def Let_def ds plain_digits_def)
qed

lemma int_repr_cases:
  assumes "int_repr i = Some t"
  obtains ds where "plain_digits ds" "int (digits_value ds) = \<bar>i\<bar>"
    "t = (if i < 0 then CHR ''-'' # ds else ds)"
proof
  show "plain_digits (nat_repr (nat \<bar>i\<bar>))"
    using assms nat_repr_digits nat_repr_leading_zero
    by (auto simp: int_repr_def plain_digits_def Let_def split: if_splits)
qed (use assms in \<open>auto simp: int_repr_def Let_def split: if_splits\<close>)

lemma scan_number_repr:
  assumes "int_repr i = Some t" and "follow_ok r"
  shows "scan_number (t @ r) = Inr (PInt i, r)"
proof -
  obtain ds where "plain_digits ds" "int (digits_value ds) = \<bar>i\<bar>"
    "t = (if i < 0 then CHR ''-'' # ds else ds)"
    using int_repr_cases [OF assms(1)] .
  then show ?thesis using scan_number_digits [OF _ assms(2)] by (cases "i < 0") auto
qed

text \<open>The first character of a written number is a digit or a minus sign.\<close>

lemma int_repr_hd:
  assumes "int_repr i = Some t"
  shows "\<exists>c u. t = c # u \<and> (is_digit c \<or> c = CHR ''-'' \<and> (\<exists>d u'. u = d # u' \<and> is_digit d))"
proof -
  obtain ds where "plain_digits ds" "t = (if i < 0 then CHR ''-'' # ds else ds)"
    using int_repr_cases [OF assms] .
  then show ?thesis by (cases ds) (auto simp: plain_digits_def)
qed

section \<open>Strings\<close>

lemma hex_value_hex_char: "d < 16 \<Longrightarrow> hex_value (hex_char d) = Some d"
  by (auto simp: hex_value_def hex_char_def)

lemma hex_value_0 [simp]: "hex_value CHR ''0'' = Some 0"
  by (simp add: hex_value_def ord_of_def)

lemma chr_iffs:
  "c = CHR 0x22 \<longleftrightarrow> ord_of c = 34" "c = CHR 0x5C \<longleftrightarrow> ord_of c = 92"
  "c = CHR ''u'' \<longleftrightarrow> ord_of c = 117" "c = CHR ''/'' \<longleftrightarrow> ord_of c = 47"
  by (simp_all only: ord_of_inject [symmetric, of c] ord_of_def) simp_all

lemma scan_string_plain:
  "ord_of c \<noteq> 34 \<Longrightarrow> ord_of c \<noteq> 92 \<Longrightarrow> 32 \<le> ord_of c \<Longrightarrow>
    scan_string (c # r) = prepend [c] (scan_string r)"
  by (subst scan_string.simps(2)) (simp add: chr_iffs)

lemma scan_string_simple:
  "simple_escape e = Some x \<Longrightarrow> ord_of e \<noteq> 117 \<Longrightarrow>
    scan_string (CHR 0x5C # e # r) = prepend [x] (scan_string r)"
  by (subst scan_string.simps(2)) (simp add: chr_iffs(3))

lemma scan_string_control:
  assumes "ord_of c < 32"
  shows "scan_string ([CHR 0x5C, CHR ''u'', CHR ''0'', CHR ''0'', hex_char (ord_of c div 16),
           hex_char (ord_of c mod 16)] @ r) = prepend [c] (scan_string r)"
proof -
  have "hex4 (CHR ''0'' # CHR ''0'' # hex_char (ord_of c div 16) # hex_char (ord_of c mod 16) # r)
      = Some (ord_of c)"
    using assms by (simp add: hex_value_hex_char)
  moreover have "low_surrogate (ord_of c) r = None" using assms by (simp add: low_surrogate_def)
  moreover have "utf8_of (ord_of c) = [c]" using assms by (simp add: utf8_of_def)
  ultimately show ?thesis
    by (subst append_Cons, subst scan_string.simps(2)) simp
qed

lemma scan_string_escape: "scan_string (json_escape c @ r) = prepend [c] (scan_string r)"
proof (cases "32 \<le> ord_of c \<or> ord_of c \<in> {8, 9, 10, 12, 13}")
  case False
  then have "json_escape c = [CHR 0x5C, CHR ''u'', CHR ''0'', CHR ''0'', hex_char (ord_of c div 16),
      hex_char (ord_of c mod 16)]"
    by (auto simp: json_escape_def chr_iffs)
  then show ?thesis using False scan_string_control by simp
next
  case True
  consider "c = CHR 0x22" | "c = CHR 0x5C" | "ord_of c \<in> {8, 9, 10, 12, 13}"
    | "32 \<le> ord_of c" "ord_of c \<noteq> 34" "ord_of c \<noteq> 92"
    using True chr_iffs by auto
  then show ?thesis
  proof cases
    case 3
    define n where "n = ord_of c"
    then have "n \<in> {8, 9, 10, 12, 13}" "c = char_of n" using 3 by simp_all
    then show ?thesis
      by (elim insertE emptyE)
        (simp_all add: json_escape_def chr_iffs scan_string_simple simple_escape_def ord_of_def)
  next
    case 4
    moreover from this have "json_escape c = [c]" by (auto simp: json_escape_def chr_iffs)
    ultimately show ?thesis by (simp add: scan_string_plain)
  qed (simp_all add: json_escape_def scan_string_simple simple_escape_def ord_of_def)
qed

lemma prepend_Inr [simp]: "prepend p (Inr (s, r)) = Inr (p @ s, r)"
  by (simp add: prepend_def)

lemma scan_string_json_string [simp]:
  "scan_string (concat (map json_escape s) @ CHR 0x22 # r) = Inr (s, r)"
proof (induction s)
  case Nil
  then show ?case by (simp add: scan_string.simps(2))
next
  case (Cons c s)
  then show ?case by (simp add: scan_string_escape)
qed

declare json_value.simps [simp del] json_elems.simps [simp del] json_members.simps [simp del]

section \<open>The fuel is enough\<close>

lemma length_skip_ws: "length (skip_ws s) \<le> length s"
  by (simp add: skip_ws_def length_dropWhile_le)

lemma prepend_Inr_iff: "prepend p m = Inr (t, r) \<longleftrightarrow> (\<exists>u. m = Inr (u, r) \<and> t = p @ u)"
  by (auto simp: prepend_def rbind_Inr_iff)

lemma prepend_Inl_iff: "prepend p m = Inl e \<longleftrightarrow> m = Inl e"
  by (cases m) (auto simp: prepend_def)

lemma scan_string_shrinks: "scan_string s = Inr (t, r) \<Longrightarrow> length r < length s"
proof (induction s arbitrary: t r rule: scan_string.induct)
  case (2 c s)
  note split = list.splits option.splits if_splits
  show ?case
    using "2.prems"
    apply (subst (asm) scan_string.simps(2))
    apply (simp add: prepend_Inr_iff split: split)
    using "2.IH" by fastforce+
qed simp

lemma scan_fraction_shrinks: "length (snd (scan_fraction r)) \<le> length r"
  by (auto simp: scan_fraction_def Let_def)

lemma scan_exponent_shrinks: "length (snd (scan_exponent r)) \<le> length r"
  by (auto simp: scan_exponent_def Let_def)

lemma scan_number_shrinks:
  assumes "scan_number s = Inr (v, r)"
  shows "length r < length s"
proof -
  define s' where "s' = (if take 1 s = ''-'' then drop 1 s else s)"
  define ds where "ds = takeWhile is_digit s'"
  define ip where "ip = (if take 1 ds = ''0'' then ''0'' else ds)"
  let ?r1 = "drop (length ip) s'"
  have ip: "ip \<noteq> []"
    and r: "r = ?r1 \<or> r = snd (scan_exponent (snd (scan_fraction ?r1)))"
    using assms unfolding scan_number_def Let_def s'_def [symmetric] ds_def [symmetric] ip_def [symmetric]
    by (auto split: if_splits)
  have "s' \<noteq> []" using ip by (cases s') (auto simp: ip_def ds_def split: if_splits)
  then have "length ?r1 < length s'" using ip by simp
  moreover have "length s' \<le> length s" by (simp add: s'_def)
  moreover have "length r \<le> length ?r1"
    using r scan_exponent_shrinks [of "snd (scan_fraction ?r1)"] scan_fraction_shrinks [of ?r1] by auto
  ultimately show ?thesis by simp
qed

text \<open>
  \<open>consumes b s m\<close>: the scan \<open>m\<close> of \<open>s\<close> leaves a shorter rest, and when it fails and
  \<open>b\<close> holds (there was enough fuel) it is not for lack of fuel.
\<close>

definition consumes :: "bool \<Rightarrow> string \<Rightarrow> ('a \<times> string) result \<Rightarrow> bool" where
  "consumes b s m = (case m of Inr (x, r) \<Rightarrow> length r < length s | Inl e \<Rightarrow> b \<longrightarrow> e \<noteq> OutOfFuel)"

lemma consumes_simps [simp]:
  "consumes b s (Inr (x, r)) \<longleftrightarrow> length r < length s"
  "consumes b s (Inl e) \<longleftrightarrow> (b \<longrightarrow> e \<noteq> OutOfFuel)"
  by (simp_all add: consumes_def)

lemma consumes_rbind:
  assumes "consumes b' s' m" and "b \<Longrightarrow> b'"
    and "\<And>x r. m = Inr (x, r) \<Longrightarrow> length r < length s' \<Longrightarrow> consumes b s (f (x, r))"
  shows "consumes b s (rbind m f)"
  using assms by (cases m) (auto simp: consumes_def)

lemma consumes_hook:
  assumes "m \<noteq> Inl OutOfFuel" and "length r < length s"
  shows "consumes b s (rbind m (\<lambda>v. Inr (v, r)))"
  using assms by (cases m) auto

lemma scan_string_no_fuel: "scan_string s \<noteq> Inl OutOfFuel"
proof (induction s rule: scan_string.induct)
  case (2 c s)
  then show ?case
    by (subst scan_string.simps(2)) (simp add: prepend_Inl_iff split: list.splits option.splits)
qed simp

lemma consumes_scan_string: "consumes b s (scan_string s)"
proof (cases "scan_string s")
  case (Inl e)
  then show ?thesis using scan_string_no_fuel [of s] by auto
next
  case (Inr x)
  then show ?thesis using scan_string_shrinks by (cases x) auto
qed

lemma consumes_scan_number: "consumes b s (scan_number s)"
proof (cases "scan_number s")
  case (Inl e)
  then show ?thesis by (auto simp: scan_number_def Let_def split: if_splits)
next
  case (Inr x)
  then show ?thesis using scan_number_shrinks by (cases x) auto
qed

lemma take1_length: "take 1 s = [c] \<Longrightarrow> length (drop 1 s) < length s"
  by (cases s) auto

locale json_scanner =
  fixes h :: json_hooks
  assumes object_fuel: "object_hook h ps \<noteq> Inl OutOfFuel"
    and constant_fuel: "constant_hook h c \<noteq> Inl OutOfFuel"
begin

lemma consumes_object:
  assumes "\<And>s. consumes (2 * length s + 1 < n) s (json_members h n s)"
    and s: "take 1 s = ''{''"
  shows "consumes (2 * length s < Suc n) s (json_value h (Suc n) s)"
proof -
  let ?r = "skip_ws (drop 1 s)"
  have r: "length ?r < length s"
    using length_skip_ws [of "drop 1 s"] take1_length [OF s] by linarith
  show ?thesis
  proof (cases "take 1 ?r = ''}''")
    case True
    then show ?thesis using s r object_fuel by (simp add: json_value.simps Let_def consumes_hook)
  next
    case False
    have "consumes (2 * length s < Suc n) s (rbind (json_members h n ?r)
        (\<lambda>(ps, r'). rbind (object_hook h ps) (\<lambda>v. Inr (v, r'))))"
      by (rule consumes_rbind [OF assms(1) [of ?r]]) (use r object_fuel in \<open>auto intro: consumes_hook\<close>)
    then show ?thesis using False s by (simp add: json_value.simps Let_def)
  qed
qed

lemma consumes_array:
  assumes "\<And>s. consumes (2 * length s + 1 < n) s (json_elems h n s)"
    and s: "take 1 s = ''[''"
  shows "consumes (2 * length s < Suc n) s (json_value h (Suc n) s)"
proof -
  let ?r = "skip_ws (drop 1 s)"
  have r: "length ?r < length s"
    using length_skip_ws [of "drop 1 s"] take1_length [OF s] by linarith
  show ?thesis
  proof (cases "take 1 ?r = '']''")
    case True
    then show ?thesis using s r by (simp add: json_value.simps Let_def)
  next
    case False
    have "consumes (2 * length s < Suc n) s
        (rbind (json_elems h n ?r) (\<lambda>(xs, r'). Inr (PList xs, r')))"
      by (rule consumes_rbind [OF assms(1) [of ?r]]) (use r in auto)
    then show ?thesis using False s by (simp add: json_value.simps Let_def)
  qed
qed

lemma consumes_literal:
  assumes "take 1 s \<noteq> ''{''" "take 1 s \<noteq> ''[''"
  shows "consumes b s (json_value h (Suc n) s)"
proof (cases "take 1 s = [CHR 0x22]")
  case True
  have "consumes b s (rbind (scan_string (drop 1 s)) (\<lambda>(t, r). Inr (PStr t, r)))"
    by (rule consumes_rbind [OF consumes_scan_string [of True]]) (use take1_length [OF True] in auto)
  then show ?thesis using True by (simp add: json_value.simps)
next
  case False
  show ?thesis
  proof (cases "s = []")
    case True
    then show ?thesis by (simp add: json_value.simps starts_def scan_number_def)
  next
    case False
    then show ?thesis
      using assms \<open>take 1 s \<noteq> [CHR 0x22]\<close> constant_fuel
      by (simp add: json_value.simps consumes_scan_number consumes_hook)
  qed
qed

lemma consumes_elems_step:
  assumes val: "\<And>s. consumes (2 * length s < n) s (json_value h n s)"
    and rec: "\<And>s. consumes (2 * length s + 1 < n) s (json_elems h n s)"
  shows "consumes (2 * length s + 1 < Suc n) s (json_elems h (Suc n) s)"
  unfolding json_elems.simps
proof (rule consumes_rbind [OF val [of s]])
  fix x :: pyval and r :: string
  assume r: "length r < length s"
  have "consumes (2 * length s + 1 < Suc n) s
      (rbind (json_elems h n (skip_ws (drop 1 (skip_ws r)))) (\<lambda>(xs, r2). Inr (x # xs, r2)))"
    by (rule consumes_rbind [OF rec])
      (use r length_skip_ws [of r] length_skip_ws [of "drop 1 (skip_ws r)"] in auto)
  then show "consumes (2 * length s + 1 < Suc n) s
    (case (x, r) of (x, r) \<Rightarrow> let r1 = skip_ws r in
       if take 1 r1 = '']'' then Inr ([x], drop 1 r1)
       else if take 1 r1 = '','' then
         rbind (json_elems h n (skip_ws (drop 1 r1))) (\<lambda>(xs, r2). Inr (x # xs, r2))
       else Inl JSONDecodeError)"
    using r length_skip_ws [of r] by (auto simp: Let_def)
qed simp

text \<open>The part of \<open>json_members\<close> after the value of a member.\<close>

lemma consumes_members_tail:
  assumes rec: "\<And>s. consumes (2 * length s + 1 < n) s (json_members h n s)"
    and r: "length r < length s"
  shows "consumes (2 * length s + 1 < Suc n) s
    (let r3 = skip_ws r in
     if take 1 r3 = ''}'' then Inr ([(k, v)], drop 1 r3)
     else if take 1 r3 = '','' then
       rbind (json_members h n (skip_ws (drop 1 r3))) (\<lambda>(ps, r4). Inr ((k, v) # ps, r4))
     else Inl JSONDecodeError)"
proof -
  have "consumes (2 * length s + 1 < Suc n) s
      (rbind (json_members h n (skip_ws (drop 1 (skip_ws r)))) (\<lambda>(ps, r4). Inr ((k, v) # ps, r4)))"
    by (rule consumes_rbind [OF rec])
      (use r length_skip_ws [of r] length_skip_ws [of "drop 1 (skip_ws r)"] in auto)
  then show ?thesis using r length_skip_ws [of r] by (auto simp: Let_def)
qed

lemma consumes_members_step:
  assumes val: "\<And>s. consumes (2 * length s < n) s (json_value h n s)"
    and rec: "\<And>s. consumes (2 * length s + 1 < n) s (json_members h n s)"
  shows "consumes (2 * length s + 1 < Suc n) s (json_members h (Suc n) s)"
proof (cases "take 1 s = [CHR 0x22]")
  case True
  note s1 = take1_length [OF True]
  have "consumes (2 * length s + 1 < Suc n) s
      (rbind (json_value h n (skip_ws (drop 1 (skip_ws r)))) (\<lambda>(v, r2).
         let r3 = skip_ws r2 in
         if take 1 r3 = ''}'' then Inr ([(k, v)], drop 1 r3)
         else if take 1 r3 = '','' then
           rbind (json_members h n (skip_ws (drop 1 r3))) (\<lambda>(ps, r4). Inr ((k, v) # ps, r4))
         else Inl JSONDecodeError))" (is "consumes _ _ (rbind _ ?f)")
    if r: "length r < length s" for r k
  proof -
    have l: "length (skip_ws (drop 1 (skip_ws r))) < length s"
      using r length_skip_ws [of r] length_skip_ws [of "drop 1 (skip_ws r)"] by simp
    show ?thesis
      by (rule consumes_rbind [OF val])
        (use l consumes_members_tail [OF rec] in auto)
  qed
  then show ?thesis
    unfolding json_members.simps using True s1
    by (simp add: Let_def) (rule consumes_rbind [OF consumes_scan_string [of True]];
      auto simp: Let_def)
qed (simp add: json_members.simps)

lemma consumes_all:
  "consumes (2 * length s < n) s (json_value h n s)"
  "consumes (2 * length s + 1 < n) s (json_elems h n s)"
  "consumes (2 * length s + 1 < n) s (json_members h n s)"
proof (induction n arbitrary: s)
  case 0
  case 1 show ?case by (simp add: json_value.simps)
  case 2 show ?case by (simp add: json_elems.simps)
  case 3 show ?case by (simp add: json_members.simps)
next
  case (Suc n)
  case 1 show ?case
    using consumes_object [OF Suc.IH(3)] consumes_array [OF Suc.IH(2)] consumes_literal by blast
  case 2 show ?case by (rule consumes_elems_step [OF Suc.IH(1,2)])
  case 3 show ?case by (rule consumes_members_step [OF Suc.IH(1,3)])
qed

theorem json_loads_fuel: "json_loads h s \<noteq> Inl OutOfFuel"
proof -
  have "2 * length (skip_ws s) < json_fuel s"
    using length_skip_ws [of s] by (simp add: json_fuel_def)
  then have "json_value h (json_fuel s) (skip_ws s) \<noteq> Inl OutOfFuel"
    using consumes_all(1) [of "skip_ws s" "json_fuel s"] by (auto simp: consumes_def)
  then show ?thesis
    by (auto simp: json_loads_def rbind_Inl_iff split: prod.splits if_splits)
qed

end

section \<open>Reading what was written\<close>

lemma skip_ws_Cons: "skip_ws (c # r) = (if is_ws c then skip_ws r else c # r)"
  by (simp add: skip_ws_def)

lemma not_is_ws [simp]:
  "\<not> is_ws CHR '']''" "\<not> is_ws CHR ''}''" "\<not> is_ws CHR '',''" "\<not> is_ws CHR '':''"
  "\<not> is_ws CHR ''[''" "\<not> is_ws CHR ''{''" "\<not> is_ws CHR 0x22" "\<not> is_ws CHR ''n''"
  "\<not> is_ws CHR ''t''" "\<not> is_ws CHR ''f''" "\<not> is_ws CHR ''-''"
  by (simp_all add: is_ws_def ord_of_def)

lemma follow_ok_seps [simp]:
  "follow_ok []" "follow_ok (CHR '']'' # r)" "follow_ok (CHR ''}'' # r)" "follow_ok (CHR '','' # r)"
  by (simp_all add: follow_ok_def is_digit_def ord_of_def)

lemma digit_not_special: "is_digit c \<Longrightarrow> \<not> is_ws c \<and> c \<noteq> CHR 0x22 \<and> c \<noteq> CHR ''{'' \<and> c \<noteq> CHR ''[''
    \<and> c \<noteq> CHR ''n'' \<and> c \<noteq> CHR ''t'' \<and> c \<noteq> CHR ''f'' \<and> c \<noteq> CHR ''N'' \<and> c \<noteq> CHR ''I'' \<and> c \<noteq> CHR ''-''
    \<and> c \<noteq> CHR '']'' \<and> c \<noteq> CHR ''}''"
  by (auto simp: is_digit_def is_ws_def ord_of_def)

text \<open>No written value starts with white space or a closing bracket.\<close>

definition value_start :: "string \<Rightarrow> bool" where
  "value_start t \<longleftrightarrow> (\<exists>c u. t = c # u \<and> \<not> is_ws c \<and> c \<noteq> CHR '']'' \<and> c \<noteq> CHR ''}'')"

lemma value_startI: "\<not> is_ws c \<Longrightarrow> c \<noteq> CHR '']'' \<Longrightarrow> c \<noteq> CHR ''}'' \<Longrightarrow> value_start (c # u)"
  by (simp add: value_start_def)

lemma int_repr_start:
  assumes "int_repr i = Some t"
  shows "value_start t"
proof -
  obtain c u where t: "t = c # u" and "is_digit c \<or> c = CHR ''-''"
    using int_repr_hd [OF assms] by blast
  then show ?thesis unfolding t
    by (elim disjE; intro value_startI) (simp_all add: digit_not_special)
qed

lemma json_dumps_start:
  assumes "json_dumps v = Some t"
  shows "value_start t"
proof (cases v)
  case (PBool b)
  then show ?thesis using assms by (cases b) (auto intro: value_startI)
next
  case (PInt i)
  then show ?thesis using assms int_repr_start by simp
next
  case (PStr s)
  then show ?thesis using assms by (auto simp: json_string_def intro: value_startI)
qed (use assms in \<open>auto intro: value_startI\<close>)

lemma skip_ws_start [simp]: "value_start t \<Longrightarrow> skip_ws (t @ r) = t @ r"
  by (auto simp: value_start_def skip_ws_Cons)

lemma take_start [simp]:
  "value_start t \<Longrightarrow> take 1 (t @ r) \<noteq> '']''" "value_start t \<Longrightarrow> take 1 (t @ r) \<noteq> ''}''"
  by (auto simp: value_start_def)

lemma json_value_number:
  assumes "int_repr i = Some t" and "follow_ok r"
  shows "json_value h (Suc n) (t @ r) = Inr (PInt i, r)"
proof -
  obtain c u where t: "t = c # u"
    and c: "is_digit c \<or> c = CHR ''-'' \<and> (\<exists>d u'. u = d # u' \<and> is_digit d)"
    using int_repr_hd [OF assms(1)] by blast
  from c have "json_value h (Suc n) (c # u @ r) = scan_number (c # u @ r)"
  proof
    assume "is_digit c"
    then show ?thesis by (simp add: json_value.simps starts_def digit_not_special)
  next
    assume "c = CHR ''-'' \<and> (\<exists>d u'. u = d # u' \<and> is_digit d)"
    then obtain d u' where "c = CHR ''-''" "u = d # u'" "is_digit d" by blast
    then show ?thesis by (simp add: json_value.simps starts_def digit_not_special)
  qed
  then show ?thesis using scan_number_repr [OF assms] t by simp
qed

lemma json_value_literals:
  "json_value h (Suc n) (''null'' @ r) = Inr (PNone, r)"
  "json_value h (Suc n) (''true'' @ r) = Inr (PBool True, r)"
  "json_value h (Suc n) (''false'' @ r) = Inr (PBool False, r)"
  by (simp_all add: json_value.simps starts_def)

lemma json_value_string: "json_value h (Suc n) (json_string s @ r) = Inr (PStr s, r)"
  by (simp add: json_value.simps json_string_def)

lemma json_value_array:
  "json_value h (Suc n) (CHR ''['' # CHR '']'' # r) = Inr (PList [], r)"
  "value_start t \<Longrightarrow> json_value h (Suc n) (CHR ''['' # t @ r) =
     rbind (json_elems h n (t @ r)) (\<lambda>(xs, r'). Inr (PList xs, r'))"
  using take_start [of t r] by (simp_all add: json_value.simps Let_def skip_ws_Cons)

lemma json_value_object:
  "json_value h (Suc n) (CHR ''{'' # CHR ''}'' # r) = rbind (object_hook h []) (\<lambda>v. Inr (v, r))"
  "value_start t \<Longrightarrow> json_value h (Suc n) (CHR ''{'' # t @ r) =
     rbind (json_members h n (t @ r)) (\<lambda>(ps, r'). rbind (object_hook h ps) (\<lambda>v. Inr (v, r')))"
  using take_start [of t r] by (simp_all add: json_value.simps Let_def skip_ws_Cons)

lemma json_elems_step:
  assumes "json_value h n s = Inr (x, c # r)" and "\<not> is_ws c"
  shows "c = CHR '']'' \<Longrightarrow> json_elems h (Suc n) s = Inr ([x], r)"
    and "c = CHR '','' \<Longrightarrow> json_elems h (Suc n) s =
           rbind (json_elems h n (skip_ws r)) (\<lambda>(xs, r'). Inr (x # xs, r'))"
  using assms by (simp_all add: json_elems.simps skip_ws_Cons)

lemma json_members_step:
  assumes "json_value h n (t @ c # r) = Inr (v, c # r)" and "\<not> is_ws c" and "value_start t"
  shows "c = CHR ''}'' \<Longrightarrow>
           json_members h (Suc n) (json_string k @ CHR '':'' # t @ c # r) = Inr ([(k, v)], r)"
    and "c = CHR '','' \<Longrightarrow>
           json_members h (Suc n) (json_string k @ CHR '':'' # t @ c # r) =
             rbind (json_members h n (skip_ws r)) (\<lambda>(ps, r'). Inr ((k, v) # ps, r'))"
  using assms by (simp_all add: json_members.simps json_string_def skip_ws_Cons)

lemma dump_elems_start: "dump_elems (x # xs) = Some t \<Longrightarrow> value_start t"
proof -
  assume "dump_elems (x # xs) = Some t"
  then obtain t0 t1 where "json_dumps x = Some t0" "t = t0 @ t1"
    by (auto split: option.splits if_splits)
  then show ?thesis using json_dumps_start [of x t0] by (auto simp: value_start_def)
qed

lemma json_string_start: "value_start (json_string s @ u)"
  by (simp add: value_start_def json_string_def)

lemma dump_members_start: "dump_members (kv # d) = Some t \<Longrightarrow> value_start t"
  by (cases kv) (auto simp: json_string_start split: option.splits if_splits)

locale json_reader = json_scanner +
  assumes hook_distinct: "distinct (map fst ps) \<Longrightarrow> object_hook h ps = Inr (PDict ps)"
begin

lemma roundtrip_aux:
  "\<And>t r n. json_dumps v = Some t \<Longrightarrow> wf_val v \<Longrightarrow> follow_ok r \<Longrightarrow> 2 * length t < n \<Longrightarrow>
     json_value h n (t @ r) = Inr (v, r)"
  "\<And>t r n. dump_elems xs = Some t \<Longrightarrow> list_all wf_val xs \<Longrightarrow> xs \<noteq> [] \<Longrightarrow> 2 * length t < n \<Longrightarrow>
     json_elems h n (t @ r) = Inr (xs, r)"
  "\<And>t r n. dump_members d = Some t \<Longrightarrow> list_all (\<lambda>kv. wf_val (snd kv)) d \<Longrightarrow> d \<noteq> [] \<Longrightarrow>
     2 * length t < n \<Longrightarrow> json_members h n (t @ r) = Inr (d, r)"
proof (induction v and xs and d rule: json_dumps_dump_elems_dump_members.induct)
  case 1
  then show ?case using json_value_literals by (cases n) auto
next
  case (2 b)
  then show ?case using json_value_literals by (cases n; cases b) auto
next
  case (3 i)
  then show ?case by (cases n) (simp_all add: json_value_number)
next
  case (6 s)
  then show ?case by (cases n) (auto simp: json_value_string)
next
  case (7 xs)
  then obtain u m where u: "t = ''['' @ u" "dump_elems xs = Some u" and n: "n = Suc m"
    by (cases n) auto
  show ?case
  proof (cases xs)
    case Nil
    then show ?thesis using u n by (auto simp: json_value_array)
  next
    case (Cons x xs')
    then have "value_start u" using u dump_elems_start by blast
    then show ?thesis using Cons 7 u n by (simp add: json_value_array)
  qed
next
  case (8 d)
  then obtain u m where u: "t = ''{'' @ u" "dump_members d = Some u" and n: "n = Suc m"
    by (cases n) auto
  show ?case
  proof (cases d)
    case Nil
    then show ?thesis using u n hook_distinct [of "[]"] by (auto simp: json_value_object)
  next
    case (Cons kv d')
    then have "value_start u" using u dump_members_start by blast
    then show ?thesis using Cons 8 u n hook_distinct [of d] by (simp add: json_value_object)
  qed
next
  case (10 x xs)
  then obtain t0 m where t0: "json_dumps x = Some t0" and n: "n = Suc m"
    by (cases n) (auto split: option.splits)
  show ?case
  proof (cases xs)
    case Nil
    with 10 t0 n show ?thesis by (auto intro: json_elems_step)
  next
    case (Cons y ys)
    with "10.prems" t0 obtain u where u: "dump_elems xs = Some u" "t = t0 @ '','' @ u" by auto
    with "10.prems" n t0 Cons have "json_value h m (t0 @ CHR '','' # u @ r) = Inr (x, CHR '','' # u @ r)"
      by (intro "10.IH"(1)) auto
    moreover have "json_elems h m (u @ r) = Inr (xs, r)"
      using "10.prems" u n t0 Cons by (intro "10.IH"(2)) auto
    ultimately show ?thesis
      using u n Cons dump_elems_start [of y ys u] by (simp add: json_elems_step)
  qed
next
  case (12 k v d)
  then obtain t0 m where t0: "json_dumps v = Some t0" and n: "n = Suc m"
    by (cases n) (auto split: option.splits)
  note st = json_dumps_start [OF t0]
  show ?case
  proof (cases d)
    case Nil
    with "12.prems" t0 have t: "t = json_string k @ CHR '':'' # t0 @ ''}''" by simp
    have "json_value h m (t0 @ CHR ''}'' # r) = Inr (v, CHR ''}'' # r)"
      using "12.prems" t n t0 by (intro "12.IH"(1)) auto
    then show ?thesis using st Nil t n by (simp add: json_members_step)
  next
    case (Cons kv d')
    with "12.prems" t0 obtain u where u: "dump_members d = Some u"
      "t = json_string k @ CHR '':'' # t0 @ CHR '','' # u" by auto
    with "12.prems" n t0 Cons have "json_value h m (t0 @ CHR '','' # u @ r) = Inr (v, CHR '','' # u @ r)"
      by (intro "12.IH"(1)) auto
    moreover have "json_members h m (u @ r) = Inr (d, r)"
      using "12.prems" u n t0 Cons by (intro "12.IH"(2)) auto
    ultimately show ?thesis
      using u n Cons st dump_members_start [of kv d' u] by (simp add: json_members_step)
  qed
qed simp_all

theorem loads_dumps:
  assumes "json_dumps v = Some t" and "wf_val v"
  shows "json_loads h t = Inr v"
  using roundtrip_aux(1) [OF assms, of "[]" "json_fuel t"] skip_ws_start [OF json_dumps_start [OF assms(1)], of "[]"]
  by (simp add: json_loads_def json_fuel_def skip_ws_def)

text \<open>A final newline, which every canonical document has, changes nothing.\<close>

theorem loads_dumps_newline:
  assumes "json_dumps v = Some t" and "wf_val v"
  shows "json_loads h (t @ [char_of (10 :: nat)]) = Inr v"
proof -
  have "follow_ok [char_of (10 :: nat)]"
    by (simp add: follow_ok_def is_digit_def) (simp flip: ord_of_inject add: ord_of_def)
  moreover have "is_ws (char_of (10 :: nat))" by (simp add: is_ws_def)
  ultimately show ?thesis
    using roundtrip_aux(1) [OF assms, of "[char_of (10 :: nat)]" "json_fuel (t @ [char_of (10 :: nat)])"]
      skip_ws_start [OF json_dumps_start [OF assms(1)], of "[char_of (10 :: nat)]"]
    by (simp add: json_loads_def json_fuel_def skip_ws_def)
qed

end

section \<open>Canonical documents\<close>

lemma mset_keys_sort: "mset (map fst (sort_key f d)) = mset (map fst d)"
  by simp

lemma distinct_sort_key [simp]: "distinct (map fst (sort_key f d)) = distinct (map fst d)"
  using mset_eq_imp_distinct_iff [OF mset_keys_sort] by blast

lemma map_of_sort_key [simp]: "distinct (map fst d) \<Longrightarrow> map_of (sort_key f d) = map_of d"
  by (subst map_of_inject_set) simp_all

lemma map_of_map_values: "map_of (map (map_prod id g) d) k = map_option g (map_of d k)"
  by (induction d) auto

lemma keys_map_values [simp]: "map fst (map (map_prod id g) d) = map fst d"
  by (induction d) auto

text \<open>Sorting the keys keeps the keys, and each value up to sorting.\<close>

definition sort_dict :: "pydict \<Rightarrow> pydict" where
  "sort_dict d = sort_key fst (map (map_prod id sort_keys) d)"

lemma sort_keys_PDict: "sort_keys (PDict d) = PDict (sort_dict d)"
  by (simp add: sort_dict_def)

lemma distinct_sort_dict [simp]: "distinct (map fst (sort_dict d)) = distinct (map fst d)"
  by (simp add: sort_dict_def)

lemma map_of_sort_dict [simp]:
  "distinct (map fst d) \<Longrightarrow> map_of (sort_dict d) k = map_option sort_keys (map_of d k)"
  by (simp add: sort_dict_def map_of_map_values)

lemma keys_are_sort_dict [simp]: "keys_are (sort_dict d) fs = keys_are d fs"
proof -
  have "set (map fst (sort_dict d)) = set (map fst d)"
    unfolding sort_dict_def by force
  then show ?thesis by (simp add: keys_are_def dict_keys_def)
qed

lemma wf_sort_keys: "wf_val v \<Longrightarrow> wf_val (sort_keys v)"
proof (induction v)
  case (PDict d)
  then have "wf_val (sort_keys x)" if "x \<in> snd ` set d" for x
    using that by (auto simp: list_all_iff)
  then show ?case
    using PDict.prems by (auto simp: sort_keys_PDict list_all_iff sort_dict_def)
qed (auto simp: list_all_iff)

text \<open>Every string of a value can be encoded.\<close>

fun strs_ok :: "pyval \<Rightarrow> bool" where
  "strs_ok (PStr s) = valid_utf8 s"
| "strs_ok (PList xs) = list_all strs_ok xs"
| "strs_ok (PDict d) = list_all (\<lambda>kv. valid_utf8 (fst kv) \<and> strs_ok (snd kv)) d"
| "strs_ok _ = True"

lemma strs_ok_sort_keys: "strs_ok v \<Longrightarrow> strs_ok (sort_keys v)"
proof (induction v)
  case (PDict d)
  then have "strs_ok (sort_keys x)" if "x \<in> snd ` set d" for x
    using that by (auto simp: list_all_iff)
  then show ?case using PDict.prems by (auto simp: list_all_iff)
qed (auto simp: list_all_iff)

lemma valid_utf8_cases:
  assumes "valid_utf8 s"
  obtains "s = []"
  | a r where "s = a # r" "ord_of a < 128" "valid_utf8 r"
  | p r where "s = p @ r" "p \<noteq> []" "valid_utf8 p" "list_all (\<lambda>c. 128 \<le> ord_of c) p" "valid_utf8 r"
proof (cases "s = []")
  case False
  define w where "w = utf8_width False s"
  from assms False have w: "w \<noteq> 0" and r: "valid_utf8 (drop w s)"
    unfolding w_def by (subst (asm) gen_utf8.simps; simp split: if_splits)+
  have s: "s = take w s @ drop w s" by simp
  show ?thesis
  proof (cases "ord_of (hd s) < 128")
    case True
    then show ?thesis using that(2) [of "hd s" "tl s"] False r utf8_width_ascii [of "hd s" False "tl s"]
      by (simp add: w_def drop_Suc)
  next
    case ascii: False
    have cont: "128 \<le> ord_of c" if "is_cont c" for c
      using that unfolding is_cont_def by linarith
    have "list_all (\<lambda>c. 128 \<le> ord_of c) (take w s) \<and> utf8_width False (take w s) = w"
      using w ascii cont unfolding w_def
      by (cases "(False, s)" rule: utf8_width.cases)
        (auto simp: utf8_ok2_def utf8_ok3_def utf8_ok4_def split: if_splits)
    moreover from this have "valid_utf8 (take w s)"
      using w by (subst gen_utf8.simps) simp
    ultimately show ?thesis using that(3) [of "take w s" "drop w s"] s r w False by simp
  qed
qed (rule that(1))

lemma ord_escapes:
  "ord_of CHR 0x22 = 34" "ord_of CHR 0x5C = 92" "ord_of CHR ''n'' = 110" "ord_of CHR ''r'' = 114"
  "ord_of CHR ''t'' = 116" "ord_of CHR ''b'' = 98" "ord_of CHR ''f'' = 102" "ord_of CHR ''u'' = 117"
  "ord_of CHR ''0'' = 48" "ord_of CHR ''['' = 91" "ord_of CHR '']'' = 93" "ord_of CHR ''{'' = 123"
  "ord_of CHR ''}'' = 125" "ord_of CHR '','' = 44" "ord_of CHR '':'' = 58" "ord_of CHR ''-'' = 45"
  "ord_of CHR ''l'' = 108" "ord_of CHR ''e'' = 101" "ord_of CHR ''a'' = 97" "ord_of CHR ''s'' = 115"
  by (simp_all add: ord_of_def)

lemma ord_hex_char: "d < 16 \<Longrightarrow> ord_of (hex_char d) < 128"
  by (simp add: hex_char_def)

lemma ascii_json_escape: "ord_of c < 128 \<Longrightarrow> list_all (\<lambda>c. ord_of c < 128) (json_escape c)"
  by (simp add: json_escape_def ord_escapes ord_hex_char)

lemma json_escape_high: "list_all (\<lambda>c. 128 \<le> ord_of c) p \<Longrightarrow> concat (map json_escape p) = p"
proof (induction p)
  case (Cons c p)
  then have "json_escape c = [c]" by (auto simp: json_escape_def chr_iffs)
  then show ?case using Cons by simp
qed simp

lemma valid_utf8_escape: "valid_utf8 s \<Longrightarrow> valid_utf8 (concat (map json_escape s))"
proof (induction s rule: length_induct)
  case (1 s)
  from "1.prems" show ?case
  proof (cases rule: valid_utf8_cases)
    case (2 a r)
    then show ?thesis
      using 1 ascii_json_escape [of a] by (simp add: valid_utf8_append valid_utf8_ascii)
  next
    case (3 p r)
    then have "valid_utf8 (concat (map json_escape r))" using 1 by simp
    then show ?thesis using 3 json_escape_high [of p] by (simp add: valid_utf8_append)
  qed simp
qed

lemma ord_ascii [simp]:
  "ord_of CHR 0x22 < 128" "ord_of CHR ''['' < 128" "ord_of CHR '']'' < 128" "ord_of CHR ''{'' < 128"
  "ord_of CHR ''}'' < 128" "ord_of CHR '','' < 128" "ord_of CHR '':'' < 128" "ord_of CHR ''-'' < 128"
  by (simp_all add: ord_of_def)

lemma valid_utf8_json_string: "valid_utf8 s \<Longrightarrow> valid_utf8 (json_string s)"
  by (simp add: json_string_def valid_utf8_append valid_utf8_escape)

lemma valid_utf8_int_repr: "int_repr i = Some t \<Longrightarrow> valid_utf8 t"
proof (erule int_repr_cases)
  fix ds
  assume "plain_digits ds" and t: "t = (if i < 0 then CHR ''-'' # ds else ds)"
  then have "list_all (\<lambda>c. ord_of c < 128) ds"
    by (auto simp: plain_digits_def is_digit_def list_all_iff)
  then have "list_all (\<lambda>c. ord_of c < 128) t" by (simp add: t)
  then show ?thesis by (rule valid_utf8_ascii)
qed

lemma valid_utf8_json_dumps:
  "\<And>t. json_dumps v = Some t \<Longrightarrow> strs_ok v \<Longrightarrow> valid_utf8 t"
  "\<And>t. dump_elems xs = Some t \<Longrightarrow> list_all strs_ok xs \<Longrightarrow> valid_utf8 t"
  "\<And>t. dump_members d = Some t \<Longrightarrow> list_all (\<lambda>kv. valid_utf8 (fst kv) \<and> strs_ok (snd kv)) d \<Longrightarrow> valid_utf8 t"
proof (induction v and xs and d rule: json_dumps_dump_elems_dump_members.induct)
  case (3 i)
  then show ?case by (simp add: valid_utf8_int_repr)
qed (auto simp: valid_utf8_json_string valid_utf8_append ord_of_def
    split: option.splits if_splits intro!: valid_utf8_append)

lemma ge32_nat_repr: "list_all is_digit ds \<Longrightarrow> list_all (\<lambda>c. 32 \<le> ord_of c) ds"
  by (auto simp: list_all_iff is_digit_def)

lemma ge32_int_repr: "int_repr i = Some t \<Longrightarrow> list_all (\<lambda>c. 32 \<le> ord_of c) t"
proof (erule int_repr_cases)
  fix ds
  assume "plain_digits ds" and t: "t = (if i < 0 then CHR ''-'' # ds else ds)"
  then have "list_all (\<lambda>c. 32 \<le> ord_of c) ds" by (simp add: plain_digits_def ge32_nat_repr)
  then show ?thesis by (simp add: t ord_escapes)
qed

lemma ge32_json_escape: "list_all (\<lambda>c. 32 \<le> ord_of c) (json_escape c)"
  by (simp add: json_escape_def ord_escapes hex_char_def)

lemma ge32_json_string: "list_all (\<lambda>c. 32 \<le> ord_of c) (json_string s)"
  using ge32_json_escape by (auto simp: json_string_def ord_escapes list_all_iff)

lemma ge32_json_dumps:
  "\<And>t. json_dumps v = Some t \<Longrightarrow> list_all (\<lambda>c. 32 \<le> ord_of c) t"
  "\<And>t. dump_elems xs = Some t \<Longrightarrow> list_all (\<lambda>c. 32 \<le> ord_of c) t"
  "\<And>t. dump_members d = Some t \<Longrightarrow> list_all (\<lambda>c. 32 \<le> ord_of c) t"
proof (induction v and xs and d rule: json_dumps_dump_elems_dump_members.induct)
  case (3 i)
  then show ?case by (simp add: ge32_int_repr)
next
  case (6 s)
  then show ?case using ge32_json_string by auto
qed (auto simp: ge32_json_string ord_escapes split: option.splits if_splits)

lemma json_dumps_ascii_start: "json_dumps v = Some t \<Longrightarrow> t \<noteq> [] \<and> ord_of (hd t) < 128"
proof (cases v)
  case (PInt i)
  moreover assume "json_dumps v = Some t"
  ultimately have i: "int_repr i = Some t" by simp
  obtain c u where "t = c # u" "is_digit c \<or> c = CHR ''-''" using int_repr_hd [OF i] by blast
  then show ?thesis by (elim disjE) (simp_all add: is_digit_def ord_escapes)
qed (auto simp: json_string_def ord_escapes split: if_splits)

text \<open>Canonical documents are read as UTF-8, without a byte order mark.\<close>

lemma canonical_detected:
  assumes "canonical_json v = Inr b"
  shows "utf8_detected b" "strip_bom b = b" "gen_utf8 True b"
proof -
  obtain t where t: "json_dumps (sort_keys v) = Some t" and b: "b = t @ [char_of (10 :: nat)]"
    and v: "valid_utf8 b"
    using assms by (auto simp: canonical_json_def split: option.splits)
  obtain c u where c: "t = c # u" "ord_of c < 128" using json_dumps_ascii_start [OF t] by (cases t) auto
  have nz: "\<forall>x \<in> set b. ord_of x \<noteq> 0" using ge32_json_dumps(1) [OF t] by (auto simp: b list_all_iff)
  obtain d u' where d: "b = c # d # u'" by (cases u) (auto simp: b c)
  then show "utf8_detected b"
    using c nz by (simp add: utf8_detected_def)
  show "strip_bom b = b" using c by (simp add: strip_bom_def b)
  show "gen_utf8 True b" using v by (rule valid_utf8_surrogatepass)
qed

context json_reader
begin

theorem loads_canonical:
  assumes "canonical_json v = Inr b" and "wf_val v"
  shows "json_loads_bytes h b = Inr (sort_keys v)"
proof -
  obtain t where "json_dumps (sort_keys v) = Some t" "b = t @ [char_of (10 :: nat)]"
    using assms(1) by (auto simp: canonical_json_def split: option.splits)
  then show ?thesis
    using canonical_detected [OF assms(1)] wf_sort_keys [OF assms(2)]
    by (simp add: json_loads_bytes_def loads_dumps_newline)
qed

end

text \<open>Which values have a canonical document.\<close>

fun dumpable :: "pyval \<Rightarrow> bool" where
  "dumpable (PInt i) = (length (nat_repr (nat \<bar>i\<bar>)) \<le> int_max_str_digits)"
| "dumpable (PFloat q) = False"
| "dumpable (PNonFinite c) = False"
| "dumpable (PList xs) = list_all dumpable xs"
| "dumpable (PDict d) = list_all (\<lambda>kv. dumpable (snd kv)) d"
| "dumpable _ = True"

lemma dumpable_iff:
  "dumpable v \<longleftrightarrow> (\<exists>t. json_dumps v = Some t)"
  "list_all dumpable xs \<longleftrightarrow> (\<exists>t. dump_elems xs = Some t)"
  "list_all (\<lambda>kv. dumpable (snd kv)) d \<longleftrightarrow> (\<exists>t. dump_members d = Some t)"
  by (induction v and xs and d rule: json_dumps_dump_elems_dump_members.induct)
    (auto simp: int_repr_def Let_def split: option.splits)

lemma dumpable_sort_keys: "dumpable v \<Longrightarrow> dumpable (sort_keys v)"
proof (induction v)
  case (PDict d)
  then have "dumpable (sort_keys x)" if "x \<in> snd ` set d" for x
    using that by (auto simp: list_all_iff)
  then show ?case using PDict.prems by (auto simp: list_all_iff)
qed (auto simp: list_all_iff)

lemma canonical_json_defined:
  assumes "dumpable v" and "strs_ok v"
  shows "\<exists>b. canonical_json v = Inr b"
proof -
  obtain t where t: "json_dumps (sort_keys v) = Some t"
    using dumpable_sort_keys [OF assms(1)] dumpable_iff(1) by blast
  then have "valid_utf8 t" using valid_utf8_json_dumps(1) strs_ok_sort_keys [OF assms(2)] by blast
  then have "valid_utf8 (t @ [char_of (10 :: nat)])" by (simp add: valid_utf8_append)
  then show ?thesis using t by (simp add: canonical_json_def)
qed

lemma length_nat_repr: "n < 10 ^ k \<Longrightarrow> 0 < k \<Longrightarrow> length (nat_repr n) \<le> k"
proof (induction n arbitrary: k rule: nat_repr.induct)
  case (1 n)
  show ?case
  proof (cases "n < 10")
    case True
    then show ?thesis using "1.prems" by (subst nat_repr.simps) simp
  next
    case False
    then obtain k' where k: "k = Suc k'" "0 < k'"
      using "1.prems" by (cases k; cases "k - 1") auto
    then have "n div 10 < 10 ^ k'" using "1.prems" by (simp add: less_mult_imp_div_less mult.commute)
    then have "length (nat_repr (n div 10)) \<le> k'" using "1.IH" False k by simp
    then show ?thesis using False k by (subst nat_repr.simps) simp
  qed
qed

lemma dumpable_u64: "0 \<le> i \<Longrightarrow> i \<le> 2 ^ 64 - 1 \<Longrightarrow> dumpable (PInt i)"
proof -
  assume "0 \<le> i" "i \<le> 2 ^ 64 - 1"
  then have "nat \<bar>i\<bar> < 10 ^ 20" by simp
  then have "length (nat_repr (nat \<bar>i\<bar>)) \<le> 20" by (intro length_nat_repr) simp_all
  then show ?thesis by (simp add: int_max_str_digits_def)
qed

lemma dict_get_sort_dict [simp]:
  "distinct (map fst d) \<Longrightarrow> dict_get (sort_dict d) k = sort_keys (dict_get d k)"
  by (simp add: dict_get_def split: option.splits)

declare sort_keys.simps(8) [simp del] sort_keys_PDict [simp]

section \<open>Records that travel as canonical documents\<close>

text \<open>
  The contract between a record and its document: the dictionary form of a well-formed record
  can be written, and parsing it, in whatever key order, gives the record back. A component
  that satisfies it gets the round trip through bytes from the JSON layer.
\<close>

locale record_codec = json_reader +
  fixes as_dict :: "'a \<Rightarrow> pydict" and from_value :: "pyval \<Rightarrow> 'a result" and ok :: "'a \<Rightarrow> bool"
  assumes dict_wf: "ok x \<Longrightarrow> wf_val (PDict (as_dict x))"
    and dict_strs: "ok x \<Longrightarrow> strs_ok (PDict (as_dict x))"
    and dict_dumpable: "ok x \<Longrightarrow> dumpable (PDict (as_dict x))"
    and from_sorted: "ok x \<Longrightarrow> from_value (sort_keys (PDict (as_dict x))) = Inr x"
begin

theorem document_roundtrip:
  assumes "ok x"
  shows "\<exists>b. canonical_json (PDict (as_dict x)) = Inr b \<and> rbind (json_loads_bytes h b) from_value = Inr x"
proof -
  obtain b where b: "canonical_json (PDict (as_dict x)) = Inr b"
    using canonical_json_defined [OF dict_dumpable [OF assms] dict_strs [OF assms]] by blast
  then show ?thesis
    using loads_canonical [OF b dict_wf [OF assms]] from_sorted [OF assms] by simp
qed

text \<open>Different records have different documents.\<close>

theorem document_injective:
  assumes "ok x" and "ok y" and "canonical_json (PDict (as_dict x)) = canonical_json (PDict (as_dict y))"
  shows "x = y"
  using document_roundtrip [OF assms(1)] document_roundtrip [OF assms(2)] assms(3) by auto

end

section \<open>How long a document is\<close>

text \<open>An upper bound that adds up over the parts of a value.\<close>

definition esc_len :: "pystr \<Rightarrow> nat" where
  "esc_len s = length (concat (map json_escape s))"

fun dump_bound :: "pyval \<Rightarrow> nat" where
  "dump_bound PNone = 4"
| "dump_bound (PBool b) = 5"
| "dump_bound (PInt i) = 1 + length (nat_repr (nat \<bar>i\<bar>))"
| "dump_bound (PFloat q) = 0"
| "dump_bound (PNonFinite c) = 0"
| "dump_bound (PStr s) = 2 + esc_len s"
| "dump_bound (PList xs) = 2 + sum_list (map (\<lambda>x. dump_bound x + 1) xs)"
| "dump_bound (PDict d) = 2 + sum_list (map (\<lambda>kv. esc_len (fst kv) + dump_bound (snd kv) + 4) d)"

lemma length_json_string: "length (json_string s) = 2 + esc_len s"
  by (simp add: json_string_def esc_len_def)

lemma length_int_repr: "int_repr i = Some t \<Longrightarrow> length t \<le> 1 + length (nat_repr (nat \<bar>i\<bar>))"
  by (auto simp: int_repr_def Let_def split: if_splits)

lemma length_dumps:
  "\<And>t. json_dumps v = Some t \<Longrightarrow> length t \<le> dump_bound v"
  "\<And>t. dump_elems xs = Some t \<Longrightarrow> length t \<le> 1 + sum_list (map (\<lambda>x. dump_bound x + 1) xs)"
  "\<And>t. dump_members d = Some t \<Longrightarrow>
     length t \<le> 1 + sum_list (map (\<lambda>kv. esc_len (fst kv) + dump_bound (snd kv) + 4) d)"
proof (induction v and xs and d rule: json_dumps_dump_elems_dump_members.induct)
  case (3 i)
  then show ?case using length_int_repr by simp
qed (fastforce simp: length_json_string split: option.splits if_splits)+

lemma length_json_escape: "32 \<le> ord_of c \<Longrightarrow> length (json_escape c) \<le> 2"
  by (simp add: json_escape_def)

lemma esc_len_simps [simp]: "esc_len [] = 0" "esc_len (c # s) = length (json_escape c) + esc_len s"
  "esc_len (s @ u) = esc_len s + esc_len u"
  by (simp_all add: esc_len_def)

lemma esc_len_printable: "list_all (\<lambda>c. 32 \<le> ord_of c) s \<Longrightarrow> esc_len s \<le> 2 * length s"
  by (induction s) (auto dest!: length_json_escape)

lemma esc_len_plain: "list_all (\<lambda>c. 35 \<le> ord_of c \<and> ord_of c \<noteq> 92) s \<Longrightarrow> esc_len s = length s"
  by (induction s) (auto simp: json_escape_def chr_iffs)

lemma length_nat_repr_u64: "i \<le> 2 ^ 64 - 1 \<Longrightarrow> 0 \<le> i \<Longrightarrow> length (nat_repr (nat \<bar>i\<bar>)) \<le> 20"
  by (rule length_nat_repr) simp_all


section \<open>Failures of the reader\<close>

lemma prepend_raises: "raises_only P m \<Longrightarrow> raises_only P (prepend p m)"
  by (auto simp: raises_only_def prepend_Inl_iff)

lemma scan_string_raises: "scan_string s = Inl e \<Longrightarrow> e = JSONDecodeError"
proof (induction s rule: scan_string.induct)
  case (2 c r)
  then show ?case
    by (simp only: scan_string.simps(2))
      (auto simp: prepend_Inl_iff split: if_splits list.splits option.splits)
qed simp

lemma scan_number_raises:
  "scan_number s = Inl e \<Longrightarrow> e = JSONDecodeError \<or> e = ValueError ''int_max_str_digits''"
  by (auto simp: scan_number_def Let_def split: if_splits)

text \<open>A parse raises what its hooks raise, a decoding error, or the digit limit's error.\<close>

definition json_error :: "py_error \<Rightarrow> bool" where
  "json_error e \<longleftrightarrow> e = JSONDecodeError \<or> e = ValueError ''int_max_str_digits''"

lemma scan_raises:
  assumes "\<And>e. json_error e \<Longrightarrow> P e"
  shows "raises_only P (scan_string s)" and "raises_only P (scan_number s)"
  using assms scan_string_raises [of s] scan_number_raises [of s]
  by (auto simp: raises_only_def json_error_def)

context json_scanner
begin

lemma json_value_raises:
  assumes hooks: "\<And>ps. raises_only P (object_hook h ps)" "\<And>c. raises_only P (constant_hook h c)"
    and json: "\<And>e. json_error e \<Longrightarrow> P e" and fuel: "P OutOfFuel"
  shows "raises_only P (json_value h n s)" and "raises_only P (json_elems h n s)"
    and "raises_only P (json_members h n s)"
proof (induction n arbitrary: s)
  case 0
  case 1 show ?case using fuel by (simp add: json_value.simps raises_only_Inl)
  case 2 show ?case using fuel by (simp add: json_elems.simps raises_only_Inl)
  case 3 show ?case using fuel by (simp add: json_members.simps raises_only_Inl)
next
  case (Suc n)
  have jd: "P JSONDecodeError" using json by (simp add: json_error_def)
  note rules = raises_only_intros hooks scan_raises [OF json] Suc.IH jd
  case 1 show ?case unfolding json_value.simps by (intro rules)
  case 2 show ?case unfolding json_elems.simps by (intro rules)
  case 3 show ?case unfolding json_members.simps by (intro rules)
qed

theorem json_loads_raises:
  assumes hooks: "\<And>ps. raises_only P (object_hook h ps)" "\<And>c. raises_only P (constant_hook h c)"
    and json: "\<And>e. json_error e \<Longrightarrow> P e"
  shows "raises_only P (json_loads h s)"
proof -
  let ?Q = "\<lambda>e. P e \<or> e = OutOfFuel"
  have weaken: "raises_only P m \<Longrightarrow> raises_only ?Q m" for m :: "'a result"
    by (simp add: raises_only_def)
  have "raises_only ?Q (json_loads h s)"
    unfolding json_loads_def
    by (intro raises_only_intros json_value_raises)
      (use hooks json in \<open>auto simp: raises_only_def json_error_def\<close>)
  then show ?thesis using json_loads_fuel [of s] by (auto simp: raises_only_def)
qed

end

section \<open>The readers\<close>

lemma unique_object_distinct [simp]: "distinct (map fst ps) \<Longrightarrow> unique_object e ps = Inr (PDict ps)"
  by (simp add: unique_object_def)

lemma default_object_distinct [simp]: "distinct (map fst ps) \<Longrightarrow> default_object ps = Inr (PDict ps)"
  by (simp add: default_object_def dict_of_pairs_distinct)

text \<open>Sorting the keys of a sorted value changes nothing, nor does it change the length bound.\<close>

lemma sort_keys_idem: "sort_keys (sort_keys v) = sort_keys v"
proof (induction v)
  case (PDict d)
  have "map_prod id sort_keys kv = kv" if "kv \<in> set (sort_dict d)" for kv
    using that PDict by (auto simp: sort_dict_def)
  then have "map (map_prod id sort_keys) (sort_dict d) = sort_dict d" by (rule map_idI)
  then show ?case by (simp add: sort_dict_def sort_key_id_if_sorted)
qed (auto simp: map_idI)

lemma dump_bound_sort_keys: "dump_bound (sort_keys v) = dump_bound v"
proof (induction v)
  case (PList xs)
  then have "map (\<lambda>x. dump_bound (sort_keys x) + 1) xs = map (\<lambda>x. dump_bound x + 1) xs" by simp
  then show ?case by (simp add: comp_def del: map_eq_conv)
next
  case (PDict d)
  let ?g = "\<lambda>kv. esc_len (fst kv) + dump_bound (snd kv) + 4"
  have "mset (sort_dict d) = mset (map (map_prod id sort_keys) d)" by (simp add: sort_dict_def)
  then have "mset (map ?g (sort_dict d)) = mset (map ?g (map (map_prod id sort_keys) d))"
    by (simp only: mset_map)
  then have "sum_list (map ?g (sort_dict d)) = sum_list (map ?g (map (map_prod id sort_keys) d))"
    unfolding sum_mset_sum_list [symmetric] by (rule arg_cong)
  also have "\<dots> = sum_list (map ?g d)"
    using PDict by (auto intro!: arg_cong [where f = sum_list])
  finally show ?case by simp
qed simp_all

lemma length_canonical: "canonical_json v = Inr b \<Longrightarrow> length b \<le> dump_bound v + 1"
  using length_dumps(1) [of "sort_keys v"]
  by (auto simp: canonical_json_def dump_bound_sort_keys split: option.splits)

lemma canonical_sort_keys: "canonical_json (sort_keys v) = canonical_json v"
  by (simp add: canonical_json_def sort_keys_idem)

text \<open>\<open>json.loads\<close> without hooks.\<close>

interpretation default_reader: json_reader default_hooks
  by unfold_locales (simp_all add: default_hooks_def, simp add: default_object_def)

end
