(* ===== verification/Sha256.thy ===== *)
theory Sha256
  imports Prelude "HOL-Library.Word"
begin

unbundle bit_operations_syntax

text \<open>
  SHA-256 (FIPS 180-4) on byte strings, as \<open>hashlib.sha256(data).hexdigest()\<close> computes it.
  The program binds requests, receipts and artifacts by these digests; the facts proved here
  are the shape facts its validators rely on (64 lower-case hexadecimal characters).
\<close>

type_synonym u32 = "32 word"

definition sha_k :: "u32 list" where
  "sha_k = [0x428A2F98, 0x71374491, 0xB5C0FBCF, 0xE9B5DBA5, 0x3956C25B, 0x59F111F1,
      0x923F82A4, 0xAB1C5ED5, 0xD807AA98, 0x12835B01, 0x243185BE, 0x550C7DC3,
      0x72BE5D74, 0x80DEB1FE, 0x9BDC06A7, 0xC19BF174, 0xE49B69C1, 0xEFBE4786,
      0x0FC19DC6, 0x240CA1CC, 0x2DE92C6F, 0x4A7484AA, 0x5CB0A9DC, 0x76F988DA,
      0x983E5152, 0xA831C66D, 0xB00327C8, 0xBF597FC7, 0xC6E00BF3, 0xD5A79147,
      0x06CA6351, 0x14292967, 0x27B70A85, 0x2E1B2138, 0x4D2C6DFC, 0x53380D13,
      0x650A7354, 0x766A0ABB, 0x81C2C92E, 0x92722C85, 0xA2BFE8A1, 0xA81A664B,
      0xC24B8B70, 0xC76C51A3, 0xD192E819, 0xD6990624, 0xF40E3585, 0x106AA070,
      0x19A4C116, 0x1E376C08, 0x2748774C, 0x34B0BCB5, 0x391C0CB3, 0x4ED8AA4A,
      0x5B9CCA4F, 0x682E6FF3, 0x748F82EE, 0x78A5636F, 0x84C87814, 0x8CC70208,
      0x90BEFFFA, 0xA4506CEB, 0xBEF9A3F7, 0xC67178F2]"

definition sha_h0 :: "u32 list" where
  "sha_h0 = [0x6A09E667, 0xBB67AE85, 0x3C6EF372, 0xA54FF53A, 0x510E527F, 0x9B05688C,
      0x1F83D9AB, 0x5BE0CD19]"

definition rotr :: "nat \<Rightarrow> u32 \<Rightarrow> u32" where
  "rotr n x = drop_bit n x OR push_bit (32 - n) x"

definition small_sigma0 :: "u32 \<Rightarrow> u32" where
  "small_sigma0 x = rotr 7 x XOR rotr 18 x XOR drop_bit 3 x"

definition small_sigma1 :: "u32 \<Rightarrow> u32" where
  "small_sigma1 x = rotr 17 x XOR rotr 19 x XOR drop_bit 10 x"

definition big_sigma0 :: "u32 \<Rightarrow> u32" where
  "big_sigma0 x = rotr 2 x XOR rotr 13 x XOR rotr 22 x"

definition big_sigma1 :: "u32 \<Rightarrow> u32" where
  "big_sigma1 x = rotr 6 x XOR rotr 11 x XOR rotr 25 x"

definition sha_ch :: "u32 \<Rightarrow> u32 \<Rightarrow> u32 \<Rightarrow> u32" where
  "sha_ch x y z = (x AND y) XOR (NOT x AND z)"

definition sha_maj :: "u32 \<Rightarrow> u32 \<Rightarrow> u32 \<Rightarrow> u32" where
  "sha_maj x y z = (x AND y) XOR (x AND z) XOR (y AND z)"

text \<open>The message schedule, kept in reverse: the newest word first.\<close>

primrec sha_extend :: "nat \<Rightarrow> u32 list \<Rightarrow> u32 list" where
  "sha_extend 0 ws = ws"
| "sha_extend (Suc n) ws =
     sha_extend n ((small_sigma1 (ws ! 1) + ws ! 6 + small_sigma0 (ws ! 14) + ws ! 15) # ws)"

definition sha_schedule :: "u32 list \<Rightarrow> u32 list" where
  "sha_schedule block = rev (sha_extend 48 (rev block))"

type_synonym sha_state = "u32 \<times> u32 \<times> u32 \<times> u32 \<times> u32 \<times> u32 \<times> u32 \<times> u32"

definition sha_round :: "sha_state \<Rightarrow> u32 \<times> u32 \<Rightarrow> sha_state" where
  "sha_round s kw =
     (case s of (a, b, c, d, e, f, g, h) \<Rightarrow>
        let t1 = h + big_sigma1 e + sha_ch e f g + fst kw + snd kw;
            t2 = big_sigma0 a + sha_maj a b c
        in (t1 + t2, a, b, c, d + t1, e, f, g))"

definition sha_compress :: "sha_state \<Rightarrow> u32 list \<Rightarrow> sha_state" where
  "sha_compress s block =
     (case foldl sha_round s (zip sha_k (sha_schedule block)) of
        (a, b, c, d, e, f, g, h) \<Rightarrow>
     (case s of (a', b', c', d', e', f', g', h') \<Rightarrow>
        (a + a', b + b', c + c', d + d', e + e', f + f', g + g', h + h')))"

text \<open>Padding: the bit 1, zeros up to 56 bytes modulo 64, the bit length in 8 bytes.\<close>

definition be_bytes :: "nat \<Rightarrow> nat \<Rightarrow> nat list" where
  "be_bytes k n = map (\<lambda>i. n div 256 ^ (k - 1 - i) mod 256) [0..<k]"

definition sha_pad :: "nat list \<Rightarrow> nat list" where
  "sha_pad bs = bs @ [128] @ replicate ((119 - length bs mod 64) mod 64) 0
                  @ be_bytes 8 (8 * length bs)"

fun words_of :: "nat list \<Rightarrow> u32 list" where
  "words_of (a # b # c # d # rest) =
     word_of_nat (a * 16777216 + b * 65536 + c * 256 + d) # words_of rest"
| "words_of _ = []"

fun sha_blocks :: "sha_state \<Rightarrow> u32 list \<Rightarrow> sha_state" where
  "sha_blocks s ws = (if ws = [] then s else sha_blocks (sha_compress s (take 16 ws)) (drop 16 ws))"

declare sha_blocks.simps [simp del]

definition hex_digit_char :: "nat \<Rightarrow> char" where
  "hex_digit_char d = char_of (if d < 10 then 48 + d else 87 + d)"

definition hex_of_word :: "u32 \<Rightarrow> string" where
  "hex_of_word w = map (\<lambda>i. hex_digit_char (unat w div 16 ^ (7 - i) mod 16)) [0..<8]"

definition sha256_hex :: "bytes \<Rightarrow> pystr" where
  "sha256_hex data =
     (case sha_h0 of [a, b, c, d, e, f, g, h] \<Rightarrow>
       (case sha_blocks (a, b, c, d, e, f, g, h) (words_of (sha_pad (map ord_of data))) of
          (a, b, c, d, e, f, g, h) \<Rightarrow> concat (map hex_of_word [a, b, c, d, e, f, g, h]))
      | _ \<Rightarrow> [])"

lemma is_lower_hex_digit_char [simp]: "d < 16 \<Longrightarrow> is_lower_hex (hex_digit_char d)"
  by (auto simp: is_lower_hex_def is_digit_def hex_digit_char_def)

lemma hex_of_word_shape: "length (hex_of_word w) = 8" "list_all is_lower_hex (hex_of_word w)"
  by (simp_all add: hex_of_word_def list_all_iff)

lemma sha256_hex_is_sha256_hex [simp]: "is_sha256_hex (sha256_hex data)"
  by (auto simp: sha256_hex_def sha_h0_def is_sha256_hex_def hex_of_word_shape split: prod.splits)

lemma length_sha_pad: "64 dvd length (sha_pad bs)"
proof -
  define m where "m = length bs mod 64"
  define q where "q = length bs div 64"
  have m: "m < 64" and l: "length bs = 64 * q + m"
    by (simp_all add: m_def q_def)
  have "(119 - m) mod 64 = (if m \<le> 55 then 55 - m else 119 - m)"
  proof (cases "m \<le> 55")
    case True
    then have "119 - m = (55 - m) + 64" by simp
    then have "(119 - m) mod 64 = (55 - m) mod 64" by (metis mod_add_self2)
    then show ?thesis using True by simp
  next
    case False
    then have "119 - m < 64" by simp
    then show ?thesis using False by simp
  qed
  then have "length (sha_pad bs) = (if m \<le> 55 then 64 * (q + 1) else 64 * (q + 2))"
    using m l by (simp add: sha_pad_def be_bytes_def m_def [symmetric])
  then show ?thesis by simp
qed

end
