(* ===== verification/Deadline.thy ===== *)
theory Deadline
  imports Json_Correct Sha256
begin

text \<open>
  The wall-budget contract: \<open>adapter/deadline.py\<close> and its Harbor binding \<open>harbor/deadline.py\<close>.
  A deadline is minted beside the integration's outer timeout; six cutoffs are derived from it
  by subtracting four reserves; the receipt binds deadline, reserves, cutoffs and run identity
  and travels as a canonical JSON document.

  Arguments that the code validates dynamically (annotated \<open>object\<close> or checked by \<open>_u64\<close>,
  \<open>_identity\<close>) are Python values here.
\<close>

section \<open>Validators\<close>

definition u64_max :: int where
  "u64_max = 2 ^ 64 - 1"

definition ns_per_ms :: int where
  "ns_per_ms = 1000000"

definition identity_max_utf8_bytes :: nat where
  "identity_max_utf8_bytes = 512"

definition dl_u64 :: "pyval \<Rightarrow> pystr \<Rightarrow> int result" where
  "dl_u64 v code =
     (case v of
        PInt i \<Rightarrow> ensure (0 \<le> i \<and> i \<le> u64_max) (DeadlineContractError code) (Inr i)
      | _ \<Rightarrow> Inl (DeadlineContractError code))"

definition dl_positive_u64 :: "pyval \<Rightarrow> pystr \<Rightarrow> int result" where
  "dl_positive_u64 v code =
     rbind (dl_u64 v code) (\<lambda>parsed. ensure (parsed \<noteq> 0) (DeadlineContractError code) (Inr parsed))"

definition dl_exact_mapping :: "pyval \<Rightarrow> pystr list \<Rightarrow> pystr \<Rightarrow> pydict result" where
  "dl_exact_mapping v names code =
     (case v of
        PDict d \<Rightarrow> ensure (keys_are d names) (DeadlineContractError code) (Inr d)
      | _ \<Rightarrow> Inl (DeadlineContractError code))"

definition dl_identity :: "pyval \<Rightarrow> pystr \<Rightarrow> pystr result" where
  "dl_identity v code =
     (case v of
        PStr s \<Rightarrow>
          ensure (s \<noteq> []) (DeadlineContractError code)
            (rbind (py_encode s) (\<lambda>b.
               ensure (length b \<le> identity_max_utf8_bytes) (DeadlineContractError code) (Inr s)))
      | _ \<Rightarrow> Inl (DeadlineContractError code))"

definition dl_sha256 :: "pyval \<Rightarrow> pystr \<Rightarrow> pystr result" where
  "dl_sha256 v code =
     rbind (dl_identity v code) (\<lambda>parsed.
       ensure (is_sha256_hex parsed) (DeadlineContractError code) (Inr parsed))"

section \<open>Reserves\<close>

record reserves =
  cleanup_ms :: int
  terminalization_ms :: int
  provider_send_ms :: int
  process_settlement_ms :: int

definition reserve_fields :: "pystr list" where
  "reserve_fields =
     [''cleanup_ms'', ''terminalization_ms'', ''provider_send_ms'', ''process_settlement_ms'']"

definition total_ms :: "reserves \<Rightarrow> int" where
  "total_ms r = cleanup_ms r + terminalization_ms r + provider_send_ms r + process_settlement_ms r"

text \<open>The constructor with its \<open>__post_init__\<close> checks.\<close>

definition mk_reserves :: "int \<Rightarrow> int \<Rightarrow> int \<Rightarrow> int \<Rightarrow> reserves result" where
  "mk_reserves c t p s =
     (let r = \<lparr>cleanup_ms = c, terminalization_ms = t, provider_send_ms = p,
               process_settlement_ms = s\<rparr>
      in rbind (rmap (\<lambda>v. dl_positive_u64 (PInt v) ''deadline_reserves_invalid'') [c, t, p, s]) (\<lambda>_.
           ensure (total_ms r \<le> u64_max div ns_per_ms)
             (DeadlineContractError ''deadline_reserves_invalid'') (Inr r)))"

definition default_reserves :: reserves where
  "default_reserves = \<lparr>cleanup_ms = 20000, terminalization_ms = 15000, provider_send_ms = 30000,
     process_settlement_ms = 10000\<rparr>"

definition reserves_as_dict :: "reserves \<Rightarrow> pydict" where
  "reserves_as_dict r =
     [(''cleanup_ms'', PInt (cleanup_ms r)),
      (''terminalization_ms'', PInt (terminalization_ms r)),
      (''provider_send_ms'', PInt (provider_send_ms r)),
      (''process_settlement_ms'', PInt (process_settlement_ms r))]"

definition reserves_from_value :: "pyval \<Rightarrow> reserves result" where
  "reserves_from_value v =
     rbind (dl_exact_mapping v reserve_fields ''deadline_reserve_fields_invalid'') (\<lambda>d.
     rbind (dl_positive_u64 (dict_get d ''cleanup_ms'') ''deadline_reserves_invalid'') (\<lambda>c.
     rbind (dl_positive_u64 (dict_get d ''terminalization_ms'') ''deadline_reserves_invalid'') (\<lambda>t.
     rbind (dl_positive_u64 (dict_get d ''provider_send_ms'') ''deadline_reserves_invalid'') (\<lambda>p.
     rbind (dl_positive_u64 (dict_get d ''process_settlement_ms'') ''deadline_reserves_invalid'') (\<lambda>s.
       mk_reserves c t p s)))))"

section \<open>Deadlines\<close>

record run_deadline =
  hard_deadline_ns :: int
  deadline_source :: pystr
  agent_timeout_ms :: int

definition deadline_schema :: pystr where
  "deadline_schema = ''nano-run-deadline-v1''"

definition deadline_fields :: "pystr list" where
  "deadline_fields =
     [''schema_version'', ''hard_deadline_monotonic_ns'', ''source'', ''agent_timeout_ms'']"

definition mk_run_deadline :: "int \<Rightarrow> pystr \<Rightarrow> int \<Rightarrow> run_deadline result" where
  "mk_run_deadline hard source timeout =
     rbind (dl_positive_u64 (PInt hard) ''deadline_hard_cutoff_invalid'') (\<lambda>_.
     rbind (dl_positive_u64 (PInt timeout) ''deadline_timeout_invalid'') (\<lambda>_.
     rbind (dl_identity (PStr source) ''deadline_source_invalid'') (\<lambda>_.
       Inr \<lparr>hard_deadline_ns = hard, deadline_source = source, agent_timeout_ms = timeout\<rparr>)))"

definition deadline_as_dict :: "run_deadline \<Rightarrow> pydict" where
  "deadline_as_dict d =
     [(''schema_version'', PStr deadline_schema),
      (''hard_deadline_monotonic_ns'', PInt (hard_deadline_ns d)),
      (''source'', PStr (deadline_source d)),
      (''agent_timeout_ms'', PInt (agent_timeout_ms d))]"

definition mint :: "pyval \<Rightarrow> pyval \<Rightarrow> pyval \<Rightarrow> reserves option \<Rightarrow> run_deadline result" where
  "mint source timeout_value now_value reserves =
     rbind (dl_positive_u64 timeout_value ''deadline_timeout_invalid'') (\<lambda>timeout.
     rbind (dl_positive_u64 now_value ''deadline_clock_invalid'') (\<lambda>now.
     rbind (dl_identity source ''deadline_source_invalid'') (\<lambda>src.
       (let selected = (case reserves of None \<Rightarrow> default_reserves | Some r \<Rightarrow> r) in
        ensure (timeout > total_ms selected) (DeadlineContractError ''deadline_reserve_underflow'')
          (ensure (timeout \<le> (u64_max - now) div ns_per_ms)
             (DeadlineContractError ''deadline_clock_overflow'')
             (mk_run_deadline (now + timeout * ns_per_ms) src timeout))))))"

definition deadline_from_value :: "pyval \<Rightarrow> run_deadline result" where
  "deadline_from_value v =
     rbind (dl_exact_mapping v deadline_fields ''deadline_fields_invalid'') (\<lambda>d.
     ensure (py_eq (dict_get d ''schema_version'') (PStr deadline_schema))
       (DeadlineContractError ''deadline_schema_invalid'')
       (rbind (dl_positive_u64 (dict_get d ''hard_deadline_monotonic_ns'')
                 ''deadline_hard_cutoff_invalid'') (\<lambda>hard.
        rbind (dl_identity (dict_get d ''source'') ''deadline_source_invalid'') (\<lambda>source.
        rbind (dl_positive_u64 (dict_get d ''agent_timeout_ms'') ''deadline_timeout_invalid'')
          (\<lambda>timeout. mk_run_deadline hard source timeout)))))"

section \<open>Cutoffs\<close>

record cutoffs =
  actor_done_ns :: int
  tool_settled_ns :: int
  last_send_ns :: int
  runtime_final_ns :: int
  cleanup_start_ns :: int
  hard_cutoff_ns :: int

definition cutoff_fields :: "pystr list" where
  "cutoff_fields =
     [''actor_done_monotonic_ns'', ''tool_settled_monotonic_ns'', ''last_send_monotonic_ns'',
      ''runtime_final_monotonic_ns'', ''cleanup_start_monotonic_ns'',
      ''hard_deadline_monotonic_ns'']"

definition cutoff_values :: "cutoffs \<Rightarrow> int list" where
  "cutoff_values c =
     [actor_done_ns c, tool_settled_ns c, last_send_ns c, runtime_final_ns c, cleanup_start_ns c,
      hard_cutoff_ns c]"

definition cutoffs_as_dict :: "cutoffs \<Rightarrow> pydict" where
  "cutoffs_as_dict c =
     [(''actor_done_monotonic_ns'', PInt (actor_done_ns c)),
      (''tool_settled_monotonic_ns'', PInt (tool_settled_ns c)),
      (''last_send_monotonic_ns'', PInt (last_send_ns c)),
      (''runtime_final_monotonic_ns'', PInt (runtime_final_ns c)),
      (''cleanup_start_monotonic_ns'', PInt (cleanup_start_ns c)),
      (''hard_deadline_monotonic_ns'', PInt (hard_cutoff_ns c))]"

text \<open>\<open>__post_init__\<close>: positive 64-bit values, in order, with one send and final cutoff.\<close>

definition check_cutoffs :: "cutoffs \<Rightarrow> cutoffs result" where
  "check_cutoffs c =
     rbind (rmap (\<lambda>v. dl_positive_u64 (PInt v) ''deadline_cutoffs_invalid'') (cutoff_values c)) (\<lambda>_.
     ensure (cutoff_values c = sort (cutoff_values c))
       (DeadlineContractError ''deadline_cutoffs_invalid'')
       (ensure (last_send_ns c = runtime_final_ns c)
          (DeadlineContractError ''deadline_cutoffs_invalid'') (Inr c)))"

definition subtract_reserve :: "int \<Rightarrow> int \<Rightarrow> int result" where
  "subtract_reserve v milliseconds =
     (let delta = milliseconds * ns_per_ms in
      ensure (v > delta) (DeadlineContractError ''deadline_reserve_underflow'') (Inr (v - delta)))"

definition derive_cutoffs :: "run_deadline \<Rightarrow> reserves \<Rightarrow> cutoffs result" where
  "derive_cutoffs d r =
     ensure (agent_timeout_ms d > total_ms r)
       (DeadlineContractError ''deadline_reserve_underflow'')
       (rbind (subtract_reserve (hard_deadline_ns d) (cleanup_ms r)) (\<lambda>cleanup_start.
        rbind (subtract_reserve cleanup_start (terminalization_ms r)) (\<lambda>runtime_final.
        rbind (subtract_reserve runtime_final (provider_send_ms r)) (\<lambda>tool_settled.
        rbind (subtract_reserve tool_settled (process_settlement_ms r)) (\<lambda>actor_done.
          check_cutoffs \<lparr>actor_done_ns = actor_done, tool_settled_ns = tool_settled,
            last_send_ns = runtime_final, runtime_final_ns = runtime_final,
            cleanup_start_ns = cleanup_start, hard_cutoff_ns = hard_deadline_ns d\<rparr>)))))"

definition cutoffs_from_value :: "pyval \<Rightarrow> cutoffs result" where
  "cutoffs_from_value v =
     rbind (dl_exact_mapping v cutoff_fields ''deadline_cutoff_fields_invalid'') (\<lambda>d.
     rbind (rmap (\<lambda>field. dl_positive_u64 (dict_get d field) ''deadline_cutoffs_invalid'')
              cutoff_fields) (\<lambda>vs.
       check_cutoffs \<lparr>actor_done_ns = vs ! 0, tool_settled_ns = vs ! 1, last_send_ns = vs ! 2,
         runtime_final_ns = vs ! 3, cleanup_start_ns = vs ! 4, hard_cutoff_ns = vs ! 5\<rparr>))"

section \<open>Receipts\<close>

record deadline_receipt =
  rcp_run_id :: pystr
  rcp_trial_id :: pystr
  rcp_attempt_id :: pystr
  rcp_run_spec_sha256 :: pystr
  rcp_deadline :: run_deadline
  rcp_reserves :: reserves
  rcp_cutoffs :: cutoffs

definition receipt_schema :: pystr where
  "receipt_schema = ''nano-run-deadline-receipt-v1''"

definition receipt_fields :: "pystr list" where
  "receipt_fields =
     [''schema_version'', ''run_id'', ''trial_id'', ''attempt_id'', ''run_spec_sha256'',
      ''deadline'', ''reserves'', ''cutoffs'']"

definition check_receipt :: "deadline_receipt \<Rightarrow> deadline_receipt result" where
  "check_receipt r =
     rbind (dl_identity (PStr (rcp_run_id r)) ''deadline_run_id_invalid'') (\<lambda>_.
     rbind (dl_identity (PStr (rcp_trial_id r)) ''deadline_trial_id_invalid'') (\<lambda>_.
     rbind (dl_identity (PStr (rcp_attempt_id r)) ''deadline_attempt_id_invalid'') (\<lambda>_.
     rbind (dl_sha256 (PStr (rcp_run_spec_sha256 r)) ''deadline_run_spec_sha256_invalid'') (\<lambda>_.
     rbind (derive_cutoffs (rcp_deadline r) (rcp_reserves r)) (\<lambda>expected.
       ensure (rcp_cutoffs r = expected)
         (DeadlineContractError ''deadline_cutoffs_binding_invalid'') (Inr r))))))"

definition bind_receipt ::
  "run_deadline \<Rightarrow> pystr \<Rightarrow> pystr \<Rightarrow> pystr \<Rightarrow> pystr \<Rightarrow> reserves option \<Rightarrow> deadline_receipt result" where
  "bind_receipt d run trial attempt spec reserves =
     (let selected = (case reserves of None \<Rightarrow> default_reserves | Some r \<Rightarrow> r) in
      rbind (derive_cutoffs d selected) (\<lambda>c.
        check_receipt \<lparr>rcp_run_id = run, rcp_trial_id = trial, rcp_attempt_id = attempt,
          rcp_run_spec_sha256 = spec, rcp_deadline = d, rcp_reserves = selected,
          rcp_cutoffs = c\<rparr>))"

definition receipt_as_dict :: "deadline_receipt \<Rightarrow> pydict" where
  "receipt_as_dict r =
     [(''schema_version'', PStr receipt_schema),
      (''run_id'', PStr (rcp_run_id r)),
      (''trial_id'', PStr (rcp_trial_id r)),
      (''attempt_id'', PStr (rcp_attempt_id r)),
      (''run_spec_sha256'', PStr (rcp_run_spec_sha256 r)),
      (''deadline'', PDict (deadline_as_dict (rcp_deadline r))),
      (''reserves'', PDict (reserves_as_dict (rcp_reserves r))),
      (''cutoffs'', PDict (cutoffs_as_dict (rcp_cutoffs r)))]"

definition receipt_to_bytes :: "deadline_receipt \<Rightarrow> bytes result" where
  "receipt_to_bytes r = canonical_json (PDict (receipt_as_dict r))"

definition receipt_sha256 :: "deadline_receipt \<Rightarrow> pystr result" where
  "receipt_sha256 r = rbind (receipt_to_bytes r) (\<lambda>b. Inr (sha256_hex b))"

definition receipt_from_value :: "pyval \<Rightarrow> deadline_receipt result" where
  "receipt_from_value v =
     rbind (dl_exact_mapping v receipt_fields ''deadline_receipt_fields_invalid'') (\<lambda>d.
     ensure (py_eq (dict_get d ''schema_version'') (PStr receipt_schema))
       (DeadlineContractError ''deadline_receipt_schema_invalid'')
       (rbind (dl_identity (dict_get d ''run_id'') ''deadline_run_id_invalid'') (\<lambda>run.
        rbind (dl_identity (dict_get d ''trial_id'') ''deadline_trial_id_invalid'') (\<lambda>trial.
        rbind (dl_identity (dict_get d ''attempt_id'') ''deadline_attempt_id_invalid'') (\<lambda>attempt.
        rbind (dl_sha256 (dict_get d ''run_spec_sha256'') ''deadline_run_spec_sha256_invalid'') (\<lambda>spec.
        rbind (deadline_from_value (dict_get d ''deadline'')) (\<lambda>dl.
        rbind (reserves_from_value (dict_get d ''reserves'')) (\<lambda>rs.
        rbind (cutoffs_from_value (dict_get d ''cutoffs'')) (\<lambda>cs.
          check_receipt \<lparr>rcp_run_id = run, rcp_trial_id = trial, rcp_attempt_id = attempt,
            rcp_run_spec_sha256 = spec, rcp_deadline = dl, rcp_reserves = rs,
            rcp_cutoffs = cs\<rparr>)))))))))"

text \<open>\<open>_strict_json_object\<close>: unique keys, no NaN or infinities, one error code.\<close>

definition deadline_hooks :: json_hooks where
  "deadline_hooks =
     \<lparr>object_hook = unique_object (DeadlineContractError ''deadline_receipt_json_invalid''),
      constant_hook = \<lambda>_. Inl (DeadlineContractError ''deadline_receipt_json_invalid'')\<rparr>"

definition dl_strict_json_object :: "bytes \<Rightarrow> pyval result" where
  "dl_strict_json_object raw =
     (case json_loads_bytes deadline_hooks raw of
        Inl e \<Rightarrow>
          (if e = UnicodeDecodeError \<or> e = JSONDecodeError
           then Inl (DeadlineContractError ''deadline_receipt_json_invalid'') else Inl e)
      | Inr v \<Rightarrow> Inr v)"

definition receipt_from_bytes :: "bytes \<Rightarrow> deadline_receipt result" where
  "receipt_from_bytes raw = rbind (dl_strict_json_object raw) receipt_from_value"

section \<open>The Harbor binding\<close>

definition harbor_source :: pystr where
  "harbor_source = ''harbor_agent_phase''"

definition mint_harbor_agent_phase :: "pyval \<Rightarrow> pyval \<Rightarrow> reserves option \<Rightarrow> run_deadline result" where
  "mint_harbor_agent_phase timeout now reserves = mint (PStr harbor_source) timeout now reserves"

definition require_harbor_agent_phase :: "run_deadline \<Rightarrow> unit result" where
  "require_harbor_agent_phase d =
     ensure (deadline_source d = harbor_source) (DeadlineContractError ''deadline_source_invalid'')
       (Inr ())"

section \<open>What the validators accept\<close>

lemma dl_u64_Inr [simp]: "dl_u64 v c = Inr i \<longleftrightarrow> v = PInt i \<and> 0 \<le> i \<and> i \<le> u64_max"
  by (cases v) (auto simp: dl_u64_def)

lemma dl_positive_u64_Inr [simp]:
  "dl_positive_u64 v c = Inr i \<longleftrightarrow> v = PInt i \<and> 0 < i \<and> i \<le> u64_max"
  by (auto simp: dl_positive_u64_def rbind_Inr_iff)

definition identity_ok :: "pystr \<Rightarrow> bool" where
  "identity_ok s \<longleftrightarrow> s \<noteq> [] \<and> valid_utf8 s \<and> length s \<le> identity_max_utf8_bytes"

lemma dl_identity_Inr [simp]: "dl_identity v c = Inr s \<longleftrightarrow> v = PStr s \<and> identity_ok s"
  by (cases v) (auto simp: dl_identity_def identity_ok_def rbind_Inr_iff)

lemma dl_sha256_Inr [simp]:
  "dl_sha256 v c = Inr s \<longleftrightarrow> v = PStr s \<and> identity_ok s \<and> is_sha256_hex s"
  by (auto simp: dl_sha256_def rbind_Inr_iff)

lemma dl_exact_mapping_Inr [simp]:
  "dl_exact_mapping v fs c = Inr d \<longleftrightarrow> v = PDict d \<and> keys_are d fs"
  by (cases v) (auto simp: dl_exact_mapping_def)

text \<open>A hexadecimal digest is always an admissible identity.\<close>

lemma sha256_hex_identity_ok: "is_sha256_hex s \<Longrightarrow> identity_ok s"
  using sha256_hex_valid_utf8 [of s]
  by (auto simp: identity_ok_def is_sha256_hex_def identity_max_utf8_bytes_def)

lemma rmap_positive_u64:
  "rmap (\<lambda>v. dl_positive_u64 (PInt v) c) xs =
     (if list_all (\<lambda>i. 0 < i \<and> i \<le> u64_max) xs then Inr xs else Inl (DeadlineContractError c))"
  by (induction xs) (auto simp: dl_positive_u64_def dl_u64_def ensure_def)

section \<open>Well-formed records\<close>

definition reserves_ok :: "reserves \<Rightarrow> bool" where
  "reserves_ok r \<longleftrightarrow>
     list_all (\<lambda>i. 0 < i \<and> i \<le> u64_max)
       [cleanup_ms r, terminalization_ms r, provider_send_ms r, process_settlement_ms r]
     \<and> total_ms r \<le> u64_max div ns_per_ms"

definition deadline_ok :: "run_deadline \<Rightarrow> bool" where
  "deadline_ok d \<longleftrightarrow> 0 < hard_deadline_ns d \<and> hard_deadline_ns d \<le> u64_max
     \<and> 0 < agent_timeout_ms d \<and> agent_timeout_ms d \<le> u64_max \<and> identity_ok (deadline_source d)"

definition cutoffs_ok :: "cutoffs \<Rightarrow> bool" where
  "cutoffs_ok c \<longleftrightarrow> list_all (\<lambda>i. 0 < i \<and> i \<le> u64_max) (cutoff_values c)
     \<and> sorted (cutoff_values c) \<and> last_send_ns c = runtime_final_ns c"

lemma mk_reserves_Inr:
  "mk_reserves c t p s = Inr r \<longleftrightarrow>
     r = \<lparr>cleanup_ms = c, terminalization_ms = t, provider_send_ms = p, process_settlement_ms = s\<rparr>
     \<and> reserves_ok r"
  by (auto simp: mk_reserves_def Let_def rmap_positive_u64 rbind_Inr_iff reserves_ok_def split: if_splits)

lemma mk_run_deadline_Inr:
  "mk_run_deadline h s t = Inr d \<longleftrightarrow>
     d = \<lparr>hard_deadline_ns = h, deadline_source = s, agent_timeout_ms = t\<rparr> \<and> deadline_ok d"
  by (auto simp: mk_run_deadline_def rbind_Inr_iff deadline_ok_def)

lemma sort_eq_self_iff: "(xs = sort xs) \<longleftrightarrow> sorted xs"
  by (metis sorted_sort sorted_sort_id)

lemma check_cutoffs_Inr [simp]: "check_cutoffs c = Inr c' \<longleftrightarrow> c' = c \<and> cutoffs_ok c"
  unfolding check_cutoffs_def rmap_positive_u64 sort_eq_self_iff
  by (auto simp: cutoffs_ok_def)

lemma reserves_ok_default: "reserves_ok default_reserves"
  by (simp add: reserves_ok_def default_reserves_def total_ms_def u64_max_def ns_per_ms_def)

section \<open>Deriving the cutoffs\<close>

text \<open>The windows a deadline and its reserves leave, as one closed form.\<close>

definition derived :: "run_deadline \<Rightarrow> reserves \<Rightarrow> cutoffs" where
  "derived d r =
     (let hard = hard_deadline_ns d;
          cleanup = hard - cleanup_ms r * ns_per_ms;
          final = cleanup - terminalization_ms r * ns_per_ms;
          settled = final - provider_send_ms r * ns_per_ms
      in \<lparr>actor_done_ns = settled - process_settlement_ms r * ns_per_ms, tool_settled_ns = settled,
          last_send_ns = final, runtime_final_ns = final, cleanup_start_ns = cleanup,
          hard_cutoff_ns = hard\<rparr>)"

lemma total_ms_ns:
  "total_ms r * ns_per_ms = cleanup_ms r * ns_per_ms + terminalization_ms r * ns_per_ms
     + provider_send_ms r * ns_per_ms + process_settlement_ms r * ns_per_ms"
  by (simp add: total_ms_def algebra_simps)

lemma derived_ok:
  assumes "deadline_ok d" and "reserves_ok r" and "total_ms r * ns_per_ms < hard_deadline_ns d"
  shows "cutoffs_ok (derived d r)"
proof -
  have "0 < cleanup_ms r * ns_per_ms" "0 < terminalization_ms r * ns_per_ms"
    "0 < provider_send_ms r * ns_per_ms" "0 < process_settlement_ms r * ns_per_ms"
    using assms(2) by (simp_all add: reserves_ok_def ns_per_ms_def)
  then show ?thesis
    using assms(1,3) unfolding total_ms_ns
    by (simp add: cutoffs_ok_def derived_def Let_def cutoff_values_def deadline_ok_def)
qed

lemma derive_cutoffs_spec:
  assumes d: "deadline_ok d" and r: "reserves_ok r"
  shows "derive_cutoffs d r =
    (if total_ms r < agent_timeout_ms d \<and> total_ms r * ns_per_ms < hard_deadline_ns d
     then Inr (derived d r) else Inl (DeadlineContractError ''deadline_reserve_underflow''))"
proof -
  let ?e = "DeadlineContractError ''deadline_reserve_underflow''"
  have pos: "0 < cleanup_ms r * ns_per_ms" "0 < terminalization_ms r * ns_per_ms"
    "0 < provider_send_ms r * ns_per_ms" "0 < process_settlement_ms r * ns_per_ms"
    using r by (simp_all add: reserves_ok_def ns_per_ms_def)
  show ?thesis
  proof (cases "total_ms r * ns_per_ms < hard_deadline_ns d")
    case True
    then have "check_cutoffs (derived d r) = Inr (derived d r)" using derived_ok [OF d r] by simp
    then show ?thesis
      using True pos unfolding derive_cutoffs_def subtract_reserve_def Let_def total_ms_ns
      by (simp add: derived_def Let_def ensure_def)
  next
    case False
    then show ?thesis
      unfolding derive_cutoffs_def subtract_reserve_def Let_def total_ms_ns
      by (auto simp: ensure_def)
  qed
qed

lemma derive_cutoffs_Inr:
  assumes "deadline_ok d" and "reserves_ok r"
  shows "derive_cutoffs d r = Inr c \<longleftrightarrow>
    total_ms r < agent_timeout_ms d \<and> total_ms r * ns_per_ms < hard_deadline_ns d \<and> c = derived d r"
  by (auto simp: derive_cutoffs_spec [OF assms])

lemma mint_Inr:
  "mint source timeout now rs = Inr d \<longleftrightarrow>
     (\<exists>src t n. source = PStr src \<and> identity_ok src \<and> timeout = PInt t \<and> 0 < t \<and> t \<le> u64_max
        \<and> now = PInt n \<and> 0 < n \<and> n \<le> u64_max
        \<and> total_ms (case rs of None \<Rightarrow> default_reserves | Some r \<Rightarrow> r) < t
        \<and> n + t * ns_per_ms \<le> u64_max
        \<and> d = \<lparr>hard_deadline_ns = n + t * ns_per_ms, deadline_source = src, agent_timeout_ms = t\<rparr>)"
proof -
  have div: "t \<le> (u64_max - n) div ns_per_ms \<longleftrightarrow> n + t * ns_per_ms \<le> u64_max" for t n :: int
    unfolding ns_per_ms_def by linarith
  show ?thesis
    by (auto simp: mint_def rbind_Inr_iff Let_def mk_run_deadline_Inr deadline_ok_def div ns_per_ms_def)
qed

section \<open>Documents\<close>

lemma ord_nonzero_literals [simp]:
  "valid_utf8 deadline_schema" "valid_utf8 receipt_schema"
  by (auto simp: deadline_schema_def receipt_schema_def ord_of_def intro!: valid_utf8_ascii)

interpretation deadline_reader: json_reader deadline_hooks
  by unfold_locales (auto simp: deadline_hooks_def unique_object_def)

lemma list_all_u64_dumpable: "0 < i \<Longrightarrow> i \<le> u64_max \<Longrightarrow> dumpable (PInt i)"
  using dumpable_u64 [of i] by (simp add: u64_max_def del: dumpable.simps)

lemmas deadline_dict_defs =
  reserves_as_dict_def deadline_as_dict_def cutoffs_as_dict_def receipt_as_dict_def

lemma distinct_deadline_dicts [simp]:
  "distinct (map fst (reserves_as_dict r))" "distinct (map fst (deadline_as_dict d))"
  "distinct (map fst (cutoffs_as_dict c))" "distinct (map fst (receipt_as_dict x))"
  by (simp_all add: deadline_dict_defs)

lemma keys_deadline_dicts [simp]:
  "keys_are (reserves_as_dict r) reserve_fields" "keys_are (deadline_as_dict d) deadline_fields"
  "keys_are (cutoffs_as_dict c) cutoff_fields" "keys_are (receipt_as_dict x) receipt_fields"
  by (simp_all add: keys_are_def dict_keys_def deadline_dict_defs reserve_fields_def
      deadline_fields_def cutoff_fields_def receipt_fields_def)

lemma valid_utf8_fields:
  "list_all valid_utf8 reserve_fields" "list_all valid_utf8 deadline_fields"
  "list_all valid_utf8 cutoff_fields" "list_all valid_utf8 receipt_fields"
  by (simp_all add: reserve_fields_def deadline_fields_def cutoff_fields_def receipt_fields_def ord_of_def)

lemma strs_ok_deadline_dicts:
  "strs_ok (PDict (reserves_as_dict r))"
  "deadline_ok d \<Longrightarrow> strs_ok (PDict (deadline_as_dict d))"
  "strs_ok (PDict (cutoffs_as_dict c))"
  using valid_utf8_fields
  by (simp_all add: deadline_dict_defs reserve_fields_def deadline_fields_def cutoff_fields_def
      deadline_ok_def identity_ok_def)

lemma dumpable_deadline_dicts:
  "reserves_ok r \<Longrightarrow> dumpable (PDict (reserves_as_dict r))"
  "deadline_ok d \<Longrightarrow> dumpable (PDict (deadline_as_dict d))"
  "cutoffs_ok c \<Longrightarrow> dumpable (PDict (cutoffs_as_dict c))"
  by (simp_all add: deadline_dict_defs list_all_u64_dumpable reserves_ok_def deadline_ok_def
      cutoffs_ok_def cutoff_values_def del: dumpable.simps(1))

lemma reserves_from_sorted:
  assumes "reserves_ok r"
  shows "reserves_from_value (sort_keys (PDict (reserves_as_dict r))) = Inr r"
  using assms unfolding reserves_from_value_def sort_keys_PDict
  by (simp add: rbind_Inr_iff mk_reserves_Inr) (simp add: reserves_as_dict_def dict_get_def reserves_ok_def)

lemma deadline_from_sorted:
  assumes "deadline_ok d"
  shows "deadline_from_value (sort_keys (PDict (deadline_as_dict d))) = Inr d"
  using assms unfolding deadline_from_value_def sort_keys_PDict
  by (simp add: rbind_Inr_iff mk_run_deadline_Inr) (simp add: deadline_as_dict_def dict_get_def deadline_ok_def)

lemma cutoffs_from_sorted:
  assumes "cutoffs_ok c"
  shows "cutoffs_from_value (sort_keys (PDict (cutoffs_as_dict c))) = Inr c"
  using assms unfolding cutoffs_from_value_def sort_keys_PDict
  by (simp add: rbind_Inr_iff cutoff_fields_def [symmetric])
    (simp add: cutoffs_as_dict_def cutoff_fields_def dict_get_def cutoffs_ok_def cutoff_values_def
       rbind_Inr_iff)

definition receipt_ok :: "deadline_receipt \<Rightarrow> bool" where
  "receipt_ok r \<longleftrightarrow> identity_ok (rcp_run_id r) \<and> identity_ok (rcp_trial_id r)
     \<and> identity_ok (rcp_attempt_id r) \<and> is_sha256_hex (rcp_run_spec_sha256 r)
     \<and> deadline_ok (rcp_deadline r) \<and> reserves_ok (rcp_reserves r)
     \<and> derive_cutoffs (rcp_deadline r) (rcp_reserves r) = Inr (rcp_cutoffs r)"

lemma check_receipt_Inr:
  "check_receipt r = Inr r' \<longleftrightarrow> r' = r \<and> identity_ok (rcp_run_id r) \<and> identity_ok (rcp_trial_id r)
     \<and> identity_ok (rcp_attempt_id r) \<and> is_sha256_hex (rcp_run_spec_sha256 r)
     \<and> derive_cutoffs (rcp_deadline r) (rcp_reserves r) = Inr (rcp_cutoffs r)"
  by (auto simp: check_receipt_def rbind_Inr_iff sha256_hex_identity_ok)

lemma receipt_ok_cutoffs:
  assumes "receipt_ok r"
  shows "cutoffs_ok (rcp_cutoffs r)" "rcp_cutoffs r = derived (rcp_deadline r) (rcp_reserves r)"
    "total_ms (rcp_reserves r) < agent_timeout_ms (rcp_deadline r)"
    "total_ms (rcp_reserves r) * ns_per_ms < hard_deadline_ns (rcp_deadline r)"
proof -
  have "deadline_ok (rcp_deadline r)" "reserves_ok (rcp_reserves r)"
    "derive_cutoffs (rcp_deadline r) (rcp_reserves r) = Inr (rcp_cutoffs r)"
    using assms by (auto simp: receipt_ok_def)
  note ok = this
  from derive_cutoffs_Inr [OF ok(1,2), THEN iffD1, OF ok(3)] derived_ok [OF ok(1,2)]
  show "cutoffs_ok (rcp_cutoffs r)" "rcp_cutoffs r = derived (rcp_deadline r) (rcp_reserves r)"
    "total_ms (rcp_reserves r) < agent_timeout_ms (rcp_deadline r)"
    "total_ms (rcp_reserves r) * ns_per_ms < hard_deadline_ns (rcp_deadline r)"
    by auto
qed

lemma receipt_dict_get:
  "dict_get (receipt_as_dict r) ''schema_version'' = PStr receipt_schema"
  "dict_get (receipt_as_dict r) ''run_id'' = PStr (rcp_run_id r)"
  "dict_get (receipt_as_dict r) ''trial_id'' = PStr (rcp_trial_id r)"
  "dict_get (receipt_as_dict r) ''attempt_id'' = PStr (rcp_attempt_id r)"
  "dict_get (receipt_as_dict r) ''run_spec_sha256'' = PStr (rcp_run_spec_sha256 r)"
  "dict_get (receipt_as_dict r) ''deadline'' = PDict (deadline_as_dict (rcp_deadline r))"
  "dict_get (receipt_as_dict r) ''reserves'' = PDict (reserves_as_dict (rcp_reserves r))"
  "dict_get (receipt_as_dict r) ''cutoffs'' = PDict (cutoffs_as_dict (rcp_cutoffs r))"
  by (simp_all add: receipt_as_dict_def dict_get_def)

lemma receipt_from_sorted:
  assumes "receipt_ok r"
  shows "receipt_from_value (sort_keys (PDict (receipt_as_dict r))) = Inr r"
proof -
  have ok: "deadline_ok (rcp_deadline r)" "reserves_ok (rcp_reserves r)" "cutoffs_ok (rcp_cutoffs r)"
    using assms receipt_ok_cutoffs(1) [OF assms] by (simp_all add: receipt_ok_def)
  show ?thesis
    using assms deadline_from_sorted [OF ok(1)] reserves_from_sorted [OF ok(2)]
      cutoffs_from_sorted [OF ok(3)]
    unfolding receipt_from_value_def sort_keys_PDict
    by (simp add: receipt_dict_get sort_keys_PDict rbind_Inr_iff check_receipt_Inr receipt_ok_def
        sha256_hex_identity_ok)
qed

lemma receipt_dict_ok:
  assumes "receipt_ok r"
  shows "wf_val (PDict (receipt_as_dict r))" "strs_ok (PDict (receipt_as_dict r))"
    "dumpable (PDict (receipt_as_dict r))"
proof -
  have ok: "deadline_ok (rcp_deadline r)" "reserves_ok (rcp_reserves r)" "cutoffs_ok (rcp_cutoffs r)"
    using assms receipt_ok_cutoffs(1) [OF assms] by (simp_all add: receipt_ok_def)
  show "wf_val (PDict (receipt_as_dict r))" by (simp add: deadline_dict_defs)
  show "strs_ok (PDict (receipt_as_dict r))"
    using strs_ok_deadline_dicts(1,3) strs_ok_deadline_dicts(2) [OF ok(1)] valid_utf8_fields(4) assms
    unfolding receipt_as_dict_def receipt_fields_def receipt_ok_def identity_ok_def
    by (simp add: sha256_hex_valid_utf8)
  show "dumpable (PDict (receipt_as_dict r))"
    using dumpable_deadline_dicts(1) [OF ok(2)] dumpable_deadline_dicts(2) [OF ok(1)]
      dumpable_deadline_dicts(3) [OF ok(3)]
    unfolding receipt_as_dict_def by simp
qed

text \<open>The four records of the contract, as documents.\<close>

interpretation reserves_codec: record_codec deadline_hooks reserves_as_dict reserves_from_value reserves_ok
  by unfold_locales
    (use strs_ok_deadline_dicts dumpable_deadline_dicts reserves_from_sorted
     in \<open>simp_all add: reserves_as_dict_def\<close>)

interpretation deadline_codec: record_codec deadline_hooks deadline_as_dict deadline_from_value deadline_ok
  by unfold_locales
    (use strs_ok_deadline_dicts dumpable_deadline_dicts deadline_from_sorted
     in \<open>simp_all add: deadline_as_dict_def\<close>)

interpretation cutoffs_codec: record_codec deadline_hooks cutoffs_as_dict cutoffs_from_value cutoffs_ok
  by unfold_locales
    (use strs_ok_deadline_dicts dumpable_deadline_dicts cutoffs_from_sorted
     in \<open>simp_all add: cutoffs_as_dict_def\<close>)

interpretation receipt_codec: record_codec deadline_hooks receipt_as_dict receipt_from_value receipt_ok
  by unfold_locales (use receipt_dict_ok receipt_from_sorted in blast)+

lemma receipt_from_bytes_canonical:
  assumes "receipt_ok r"
  shows "\<exists>b. receipt_to_bytes r = Inr b \<and> receipt_from_bytes b = Inr r"
proof -
  obtain b where b: "receipt_to_bytes r = Inr b"
    and p: "rbind (json_loads_bytes deadline_hooks b) receipt_from_value = Inr r"
    using receipt_codec.document_roundtrip [OF assms] by (auto simp: receipt_to_bytes_def)
  from p obtain v where "json_loads_bytes deadline_hooks b = Inr v" "receipt_from_value v = Inr r"
    by (auto simp: rbind_Inr_iff)
  then have "receipt_from_bytes b = Inr r"
    by (simp add: receipt_from_bytes_def dl_strict_json_object_def)
  with b show ?thesis by blast
qed

lemma reserves_from_value_ok: "reserves_from_value v = Inr r \<Longrightarrow> reserves_ok r"
  by (auto simp: reserves_from_value_def rbind_Inr_iff mk_reserves_Inr)

lemma deadline_from_value_ok: "deadline_from_value v = Inr d \<Longrightarrow> deadline_ok d"
  by (auto simp: deadline_from_value_def rbind_Inr_iff mk_run_deadline_Inr)

lemma receipt_from_value_ok:
  assumes "receipt_from_value v = Inr r"
  shows "receipt_ok r"
proof -
  obtain dl rs cs where "deadline_from_value dl = Inr (rcp_deadline r)"
    "reserves_from_value rs = Inr (rcp_reserves r)" "check_receipt r = Inr r"
    using assms unfolding receipt_from_value_def rbind_Inr_iff ensure_Inr_iff
    by (auto simp: check_receipt_Inr)
  then show ?thesis
    using deadline_from_value_ok reserves_from_value_ok by (auto simp: receipt_ok_def check_receipt_Inr)
qed

section \<open>Failing closed\<close>

definition dl_error :: "py_error \<Rightarrow> bool" where
  "dl_error e \<longleftrightarrow> e = UnicodeEncodeError \<or> (\<exists>code. e = DeadlineContractError code)"

lemma dl_error_simps [simp]: "dl_error UnicodeEncodeError" "dl_error (DeadlineContractError c)"
  by (auto simp: dl_error_def)

lemma dl_positive_u64_raises [raises_only_intros]: "raises_only dl_error (dl_positive_u64 v c)"
  by (cases v) (auto simp: dl_positive_u64_def dl_u64_def intro!: raises_only_intros)

lemma dl_exact_mapping_raises [raises_only_intros]: "raises_only dl_error (dl_exact_mapping v fs c)"
  by (cases v) (auto simp: dl_exact_mapping_def intro!: raises_only_intros)

lemma dl_identity_raises [raises_only_intros]: "raises_only dl_error (dl_identity v c)"
  by (cases v) (auto simp: dl_identity_def py_encode_def intro!: raises_only_intros)

lemma dl_sha256_raises [raises_only_intros]: "raises_only dl_error (dl_sha256 v c)"
  unfolding dl_sha256_def by (intro raises_only_intros) simp

lemma mk_reserves_raises [raises_only_intros]: "raises_only dl_error (mk_reserves a b c d)"
  unfolding mk_reserves_def by (intro raises_only_intros) simp

lemma mk_run_deadline_raises [raises_only_intros]: "raises_only dl_error (mk_run_deadline h s t)"
  unfolding mk_run_deadline_def by (intro raises_only_intros)

lemma check_cutoffs_raises [raises_only_intros]: "raises_only dl_error (check_cutoffs c)"
  unfolding check_cutoffs_def by (intro raises_only_intros) simp_all

lemma derive_cutoffs_raises [raises_only_intros]: "raises_only dl_error (derive_cutoffs d r)"
  unfolding derive_cutoffs_def subtract_reserve_def by (intro raises_only_intros) simp_all

lemma check_receipt_raises [raises_only_intros]: "raises_only dl_error (check_receipt r)"
  unfolding check_receipt_def by (intro raises_only_intros) simp

lemma parts_raises [raises_only_intros]:
  "raises_only dl_error (reserves_from_value v)"
  "raises_only dl_error (deadline_from_value v)"
  "raises_only dl_error (cutoffs_from_value v)"
  unfolding reserves_from_value_def deadline_from_value_def cutoffs_from_value_def
  by (intro raises_only_intros; simp)+

lemma receipt_from_value_raises: "raises_only dl_error (receipt_from_value v)"
  unfolding receipt_from_value_def by (intro raises_only_intros) simp

section \<open>A sample receipt\<close>

text \<open>The deadline of a 100-second trial that starts one nanosecond after boot, and its receipt.\<close>

definition sample_deadline :: run_deadline where
  "sample_deadline = \<lparr>hard_deadline_ns = 100000000001, deadline_source = harbor_source,
     agent_timeout_ms = 100000\<rparr>"

definition sample_receipt :: deadline_receipt where
  "sample_receipt = \<lparr>rcp_run_id = ''run'', rcp_trial_id = ''trial'', rcp_attempt_id = ''attempt'',
     rcp_run_spec_sha256 = replicate 64 (CHR ''0''), rcp_deadline = sample_deadline,
     rcp_reserves = default_reserves, rcp_cutoffs = derived sample_deadline default_reserves\<rparr>"

lemma total_ms_default: "total_ms default_reserves = 75000"
  by (simp add: total_ms_def default_reserves_def)

lemma sample_ids [simp]:
  "identity_ok harbor_source" "identity_ok ''run''" "identity_ok ''trial''" "identity_ok ''attempt''"
  by (simp_all add: identity_ok_def harbor_source_def identity_max_utf8_bytes_def ord_of_def)

lemma sample_spec [simp]: "is_sha256_hex (replicate 64 (CHR ''0''))"
  by (simp add: is_sha256_hex_def is_lower_hex_def is_digit_def ord_of_def list_all_iff)

lemma sample_deadline_ok: "deadline_ok sample_deadline"
  by (simp add: deadline_ok_def sample_deadline_def u64_max_def)

lemma sample_derive:
  "derive_cutoffs sample_deadline default_reserves = Inr (derived sample_deadline default_reserves)"
  unfolding derive_cutoffs_Inr [OF sample_deadline_ok reserves_ok_default] total_ms_default
  by (simp add: sample_deadline_def ns_per_ms_def)

lemma sample_receipt_ok: "receipt_ok sample_receipt"
  by (simp add: receipt_ok_def sample_receipt_def sample_derive reserves_ok_default sample_deadline_ok)

lemma sample_mint: "mint (PStr harbor_source) (PInt 100000) (PInt 1) None = Inr sample_deadline"
  by (simp add: mint_Inr total_ms_default sample_deadline_def ns_per_ms_def u64_max_def)

lemma sample_bind:
  "bind_receipt sample_deadline ''run'' ''trial'' ''attempt'' (replicate 64 (CHR ''0'')) None
     = Inr sample_receipt"
  by (simp add: bind_receipt_def rbind_Inr_iff check_receipt_Inr sample_derive sample_receipt_def)

section \<open>Properties\<close>

text \<open>
  C6: the six cutoffs derived from a deadline are exact and leave every reserve whole: each
  window ends where the next begins, the windows are as long as their reserves in nanoseconds,
  the last one ends at the hard deadline, and all of it fits an unsigned 64-bit clock.
\<close>

theorem derive_cutoffs_windows:
  assumes "deadline_ok d" and "reserves_ok r" and "derive_cutoffs d r = Inr c"
  shows "0 < actor_done_ns c
    \<and> tool_settled_ns c = actor_done_ns c + process_settlement_ms r * ns_per_ms
    \<and> last_send_ns c = tool_settled_ns c + provider_send_ms r * ns_per_ms
    \<and> runtime_final_ns c = last_send_ns c
    \<and> cleanup_start_ns c = runtime_final_ns c + terminalization_ms r * ns_per_ms
    \<and> hard_cutoff_ns c = cleanup_start_ns c + cleanup_ms r * ns_per_ms
    \<and> hard_cutoff_ns c = hard_deadline_ns d \<and> hard_cutoff_ns c \<le> u64_max"
proof -
  have "c = derived d r" and "total_ms r * ns_per_ms < hard_deadline_ns d"
    using derive_cutoffs_Inr [OF assms(1,2)] assms(3) by auto
  moreover have "hard_deadline_ns d \<le> u64_max" using assms(1) by (simp add: deadline_ok_def)
  ultimately show ?thesis using total_ms_ns [of r] by (simp add: derived_def Let_def)
qed

theorem derive_cutoffs_windows_witness:
  "derive_cutoffs sample_deadline default_reserves = Inr (derived sample_deadline default_reserves)
   \<and> actor_done_ns (derived sample_deadline default_reserves) = 25000000001
   \<and> hard_cutoff_ns (derived sample_deadline default_reserves) = 100000000001"
  using derive_cutoffs_windows [OF sample_deadline_ok reserves_ok_default sample_derive] sample_derive
  by (simp add: sample_deadline_def default_reserves_def ns_per_ms_def)

text \<open>
  C32: every deadline that \<open>mint\<close> admits can be bound: no reserve underflows, the receipt is
  built, and the actor's working window after the minting instant is exactly the timeout less
  the reserves, hence positive.
\<close>

theorem mint_bind_working_window:
  assumes "mint source (PInt timeout) (PInt now) rs = Inr d"
    and "case rs of None \<Rightarrow> True | Some r \<Rightarrow> reserves_ok r"
    and "identity_ok run" and "identity_ok trial" and "identity_ok attempt" and "is_sha256_hex spec"
  shows "\<exists>r. bind_receipt d run trial attempt spec rs = Inr r \<and> receipt_ok r
    \<and> actor_done_ns (rcp_cutoffs r) - now
        = (timeout - total_ms (case rs of None \<Rightarrow> default_reserves | Some r \<Rightarrow> r)) * ns_per_ms
    \<and> now < actor_done_ns (rcp_cutoffs r)"
proof -
  let ?r = "case rs of None \<Rightarrow> default_reserves | Some r \<Rightarrow> r"
  obtain src where d: "d = \<lparr>hard_deadline_ns = now + timeout * ns_per_ms, deadline_source = src,
      agent_timeout_ms = timeout\<rparr>" and dok: "deadline_ok d" and t: "total_ms ?r < timeout" and n: "0 < now"
    using assms(1) by (auto simp: mint_Inr deadline_ok_def ns_per_ms_def)
  have rok: "reserves_ok ?r" using assms(2) reserves_ok_default by (auto split: option.splits)
  have "total_ms ?r * ns_per_ms < timeout * ns_per_ms" using t by (simp add: ns_per_ms_def)
  then have c: "derive_cutoffs d ?r = Inr (derived d ?r)"
    using derive_cutoffs_Inr [OF dok rok] t n by (simp add: d)
  have "actor_done_ns (derived d ?r) - now = (timeout - total_ms ?r) * ns_per_ms"
    using total_ms_ns [of ?r] by (simp add: derived_def d Let_def left_diff_distrib)
  moreover from this have "now < actor_done_ns (derived d ?r)" using t by (simp add: ns_per_ms_def)
  ultimately show ?thesis
    using c rok dok assms(3-6)
    by (auto simp: bind_receipt_def Let_def check_receipt_Inr receipt_ok_def rbind_Inr_iff)
qed

theorem mint_bind_working_window_witness:
  "mint (PStr harbor_source) (PInt 100000) (PInt 1) None = Inr sample_deadline
   \<and> (\<exists>r. bind_receipt sample_deadline ''run'' ''trial'' ''attempt'' (replicate 64 (CHR ''0'')) None = Inr r
         \<and> receipt_ok r \<and> actor_done_ns (rcp_cutoffs r) - 1 = 25000 * ns_per_ms)"
  using sample_mint mint_bind_working_window [OF sample_mint _ sample_ids(2-4) sample_spec]
  by (simp add: total_ms_default) blast

text \<open>
  C28: a bound receipt survives its document: the canonical bytes exist and reading them back
  gives the very receipt that was bound, so its digest identifies it.
\<close>

theorem receipt_bytes_roundtrip:
  assumes "bind_receipt d run trial attempt spec rs = Inr r"
    and "deadline_ok d" and "case rs of None \<Rightarrow> True | Some s \<Rightarrow> reserves_ok s"
  shows "\<exists>b. receipt_to_bytes r = Inr b \<and> receipt_from_bytes b = Inr r
    \<and> receipt_sha256 r = Inr (sha256_hex b)"
proof -
  have "reserves_ok (case rs of None \<Rightarrow> default_reserves | Some s \<Rightarrow> s)"
    using assms(3) reserves_ok_default by (auto split: option.splits)
  then have "receipt_ok r"
    using assms(1,2) by (auto simp: bind_receipt_def Let_def rbind_Inr_iff check_receipt_Inr receipt_ok_def)
  from receipt_from_bytes_canonical [OF this] show ?thesis by (auto simp: receipt_sha256_def)
qed

theorem receipt_bytes_roundtrip_witness:
  "\<exists>b. receipt_to_bytes sample_receipt = Inr b \<and> receipt_from_bytes b = Inr sample_receipt"
  using receipt_bytes_roundtrip [OF sample_bind sample_deadline_ok] by auto

text \<open>
  C29: no other receipt is accepted: whatever bytes are read, an accepted receipt is one that
  \<open>bind\<close> itself makes from its deadline, identities and reserves, so none of its cutoffs can have
  been moved.
\<close>

theorem accepted_receipt_is_bound:
  assumes "receipt_from_bytes raw = Inr r"
  shows "bind_receipt (rcp_deadline r) (rcp_run_id r) (rcp_trial_id r) (rcp_attempt_id r)
      (rcp_run_spec_sha256 r) (Some (rcp_reserves r)) = Inr r
    \<and> rcp_cutoffs r = derived (rcp_deadline r) (rcp_reserves r)"
proof -
  have "receipt_ok r"
    using assms receipt_from_value_ok by (auto simp: receipt_from_bytes_def rbind_Inr_iff)
  with receipt_ok_cutoffs(2) [OF this] show ?thesis
    by (auto simp: receipt_ok_def bind_receipt_def Let_def rbind_Inr_iff check_receipt_Inr)
qed

theorem accepted_receipt_is_bound_witness:
  "\<exists>raw. receipt_from_bytes raw = Inr sample_receipt
    \<and> bind_receipt sample_deadline ''run'' ''trial'' ''attempt'' (replicate 64 (CHR ''0''))
        (Some default_reserves) = Inr sample_receipt"
  using receipt_from_bytes_canonical [OF sample_receipt_ok] accepted_receipt_is_bound
  unfolding sample_receipt_def by fastforce

text \<open>
  Reading a receipt value fails closed: every failure is a contract error, or the encoding
  error of an identity that holds a lone surrogate.
\<close>

theorem receipt_from_value_fails_closed:
  "case receipt_from_value v of
     Inl e \<Rightarrow> e = UnicodeEncodeError \<or> (\<exists>code. e = DeadlineContractError code)
   | Inr r \<Rightarrow> receipt_ok r"
  using receipt_from_value_raises [of v] receipt_from_value_ok [of v]
  by (auto simp: raises_only_def dl_error_def split: sum.splits)

end
