(* ===== verification/Bridge_Request.thy ===== *)
theory Bridge_Request
  imports Deadline
begin

text \<open>
  The request half of the stdio bridge (\<open>adapter/stdio_bridge.py\<close>): the settlement stages, the
  strict JSON reader, \<open>parse_tool_request\<close> and the binding of a live request to the deadline
  receipt of its run. A request is one line of JSON written by the runtime; everything that is
  not exactly a request is refused with a \<open>BridgeError\<close>.
\<close>

section \<open>Protocol constants\<close>

definition legacy_schema :: pystr where
  "legacy_schema = ''external-tool-stdio-v2''"

definition live_schema :: pystr where
  "live_schema = ''external-tool-stdio-v3''"

definition tool_names :: "pystr list" where
  "tool_names =
     [''run_terminal_command'', ''read_file'', ''search_replace'', ''write'', ''list_dir'', ''grep'',
      ''kill_terminal_command'', ''get_terminal_command_output'']"

definition max_request_line_bytes :: nat where
  "max_request_line_bytes = 8 * 1024 * 1024"

definition remote_environment_allowlist :: "pystr list" where
  "remote_environment_allowlist =
     [''HOME'', ''LANG'', ''LC_ALL'', ''PATH'', ''TERM'', ''TMPDIR'', ''USER'']"

definition request_keys :: "pystr list" where
  "request_keys =
     [''schema_version'', ''message_type'', ''seq'', ''run_id'', ''trial_id'', ''attempt_id'', ''call_id'',
      ''tool_name'', ''arguments_json'', ''logical_cwd'', ''timeout_ms'', ''term_grace_ms'',
      ''kill_confirmation_timeout_ms'', ''stdout_cap_bytes'', ''stderr_cap_bytes'', ''environment'',
      ''limits'']"

definition live_deadline_keys :: "pystr list" where
  "live_deadline_keys =
     [''actor_done_monotonic_ns'', ''tool_settled_monotonic_ns'', ''last_send_monotonic_ns'',
      ''runtime_final_monotonic_ns'', ''cleanup_start_monotonic_ns'', ''hard_deadline_monotonic_ns'',
      ''cleanup_reserve_ms'', ''terminalization_reserve_ms'', ''provider_send_reserve_ms'',
      ''process_settlement_reserve_ms'', ''deadline_receipt_sha256'']"

definition live_request_keys :: "pystr list" where
  "live_request_keys =
     filter (\<lambda>k. k \<noteq> ''timeout_ms'') request_keys @ [''operation_timeout_ms''] @ live_deadline_keys"

definition limit_keys :: "pystr list" where
  "limit_keys =
     [''arguments_cap_bytes'', ''max_path_bytes'', ''max_read_or_write_bytes'', ''max_directory_entries'',
      ''max_grep_matches'', ''max_replacements'', ''max_background_processes'',
      ''process_spool_bytes_per_process'', ''process_spool_bytes_per_run'',
      ''background_output_wait_max_ms'']"

definition optional_limit_keys :: "pystr list" where
  "optional_limit_keys = [''read_file_media_enabled'']"

section \<open>Settlement stages\<close>

text \<open>The six subdivisions of the settlement reserve.\<close>

record stages =
  probe_ns :: int
  output_ns :: int
  encode_ns :: int
  drain_ns :: int
  parse_ns :: int
  history_commit_ns :: int

definition settlement_stage_count :: int where
  "settlement_stage_count = 6"

definition min_settlement_stage_ms :: int where
  "min_settlement_stage_ms = 1"

abbreviation budget_error :: py_error where
  "budget_error \<equiv> BridgeError ''external_request_settlement_budget_invalid''"

fun strictly_increasing :: "int list \<Rightarrow> bool" where
  "strictly_increasing (x # y # r) = (x < y \<and> strictly_increasing (y # r))"
| "strictly_increasing _ = True"

definition derive_stages :: "int \<Rightarrow> int \<Rightarrow> int \<Rightarrow> stages result" where
  "derive_stages actor_done tool_settled reserve_ms =
     ensure (0 < actor_done \<and> actor_done \<le> u64_max \<and> 0 < tool_settled \<and> tool_settled \<le> u64_max
             \<and> 0 < reserve_ms \<and> reserve_ms \<le> u64_max div 1000000) budget_error
     (let span = tool_settled - actor_done in
      ensure (settlement_stage_count * min_settlement_stage_ms \<le> reserve_ms
              \<and> span = reserve_ms * 1000000) budget_error
      (let cs = map (\<lambda>index. actor_done + span * index div settlement_stage_count)
                  [1, 2, 3, 4, 5, 6]
       in ensure (strictly_increasing cs \<and> last cs = tool_settled) budget_error
            (Inr \<lparr>probe_ns = cs ! 0, output_ns = cs ! 1, encode_ns = cs ! 2, drain_ns = cs ! 3,
                  parse_ns = cs ! 4, history_commit_ns = cs ! 5\<rparr>)))"

text \<open>Seconds left before a cutoff, none at or after it (an exact quotient here).\<close>

definition strict_remaining_sec :: "int \<Rightarrow> int \<Rightarrow> rat" where
  "strict_remaining_sec cutoff now =
     (if now \<ge> cutoff then 0 else of_int (cutoff - now) / 1000000000)"

section \<open>Requests\<close>

text \<open>The deadline fields of a request: all present on a live request, absent on a legacy one.\<close>

record deadline_values =
  dv_actor_done :: "int option"
  dv_tool_settled :: "int option"
  dv_last_send :: "int option"
  dv_runtime_final :: "int option"
  dv_cleanup_start :: "int option"
  dv_hard_deadline :: "int option"
  dv_cleanup_reserve_ms :: "int option"
  dv_terminalization_reserve_ms :: "int option"
  dv_provider_send_reserve_ms :: "int option"
  dv_process_settlement_reserve_ms :: "int option"
  dv_receipt_sha256 :: "pystr option"

definition no_deadline_values :: deadline_values where
  "no_deadline_values = \<lparr>dv_actor_done = None, dv_tool_settled = None, dv_last_send = None,
     dv_runtime_final = None, dv_cleanup_start = None, dv_hard_deadline = None,
     dv_cleanup_reserve_ms = None, dv_terminalization_reserve_ms = None,
     dv_provider_send_reserve_ms = None, dv_process_settlement_reserve_ms = None,
     dv_receipt_sha256 = None\<rparr>"

record limits =
  arguments_cap_bytes :: int
  max_path_bytes :: int
  max_read_or_write_bytes :: int
  max_directory_entries :: int
  max_grep_matches :: int
  max_replacements :: int
  max_background_processes :: int
  process_spool_bytes_per_process :: int
  process_spool_bytes_per_run :: int
  background_output_wait_max_ms :: int
  read_file_media_enabled :: bool

record tool_request =
  tr_raw_json :: bytes
  tr_seq :: int
  tr_run_id :: pystr
  tr_trial_id :: pystr
  tr_attempt_id :: pystr
  tr_call_id :: pystr
  tr_tool_name :: pystr
  tr_arguments_json :: pystr
  tr_arguments :: pydict
  tr_logical_cwd :: pystr
  tr_timeout_ms :: int
  tr_term_grace_ms :: int
  tr_kill_confirmation_timeout_ms :: int
  tr_stdout_cap_bytes :: int
  tr_stderr_cap_bytes :: int
  tr_limits :: limits
  tr_schema_version :: pystr
  tr_deadline :: deadline_values

definition request_sha256 :: "tool_request \<Rightarrow> pystr" where
  "request_sha256 q = sha256_hex (tr_raw_json q)"

definition has_absolute_deadline :: "tool_request \<Rightarrow> bool" where
  "has_absolute_deadline q \<longleftrightarrow> tr_schema_version q = live_schema"

definition settlement_stages :: "tool_request \<Rightarrow> stages option result" where
  "settlement_stages q =
     (if \<not> has_absolute_deadline q then Inr None
      else case (dv_actor_done (tr_deadline q), dv_tool_settled (tr_deadline q),
                 dv_process_settlement_reserve_ms (tr_deadline q)) of
        (Some a, Some t, Some s) \<Rightarrow> rbind (derive_stages a t s) (\<lambda>st. Inr (Some st))
      | _ \<Rightarrow> Inl budget_error)"

definition is_background_start_request :: "tool_request \<Rightarrow> bool" where
  "is_background_start_request q \<longleftrightarrow>
     tr_tool_name q = ''run_terminal_command''
     \<and> dict_get_default (tr_arguments q) ''background'' (PBool False) = PBool True"

definition is_foreground_terminal_request :: "tool_request \<Rightarrow> bool" where
  "is_foreground_terminal_request q \<longleftrightarrow>
     tr_tool_name q = ''run_terminal_command''
     \<and> dict_get_default (tr_arguments q) ''background'' (PBool False) = PBool False"

section \<open>Binding a request to the deadline receipt\<close>

definition validate_live_request_binding :: "tool_request \<Rightarrow> deadline_receipt \<Rightarrow> unit result" where
  "validate_live_request_binding q r =
     rbind (receipt_sha256 r) (\<lambda>digest.
       ensure
         (tr_schema_version q = live_schema
          \<and> tr_run_id q = rcp_run_id r \<and> tr_trial_id q = rcp_trial_id r
          \<and> tr_attempt_id q = rcp_attempt_id r
          \<and> tr_deadline q =
              \<lparr>dv_actor_done = Some (actor_done_ns (rcp_cutoffs r)),
               dv_tool_settled = Some (tool_settled_ns (rcp_cutoffs r)),
               dv_last_send = Some (last_send_ns (rcp_cutoffs r)),
               dv_runtime_final = Some (runtime_final_ns (rcp_cutoffs r)),
               dv_cleanup_start = Some (cleanup_start_ns (rcp_cutoffs r)),
               dv_hard_deadline = Some (hard_cutoff_ns (rcp_cutoffs r)),
               dv_cleanup_reserve_ms = Some (cleanup_ms (rcp_reserves r)),
               dv_terminalization_reserve_ms = Some (terminalization_ms (rcp_reserves r)),
               dv_provider_send_reserve_ms = Some (provider_send_ms (rcp_reserves r)),
               dv_process_settlement_reserve_ms = Some (process_settlement_ms (rcp_reserves r)),
               dv_receipt_sha256 = Some digest\<rparr>)
         (BridgeError ''external_request_deadline_binding_invalid'') (Inr ()))"

section \<open>Strict JSON\<close>

definition bridge_hooks :: json_hooks where
  "bridge_hooks =
     \<lparr>object_hook = unique_object (BridgeError ''external_request_duplicate_field''),
      constant_hook = \<lambda>_. Inl (BridgeError ''external_request_nonfinite_number'')\<rparr>"

definition strict_json_object :: "bytes \<Rightarrow> pydict result" where
  "strict_json_object raw =
     (if \<not> valid_utf8 raw then Inl (BridgeError ''external_request_invalid_json'')
      else case json_loads bridge_hooks raw of
        Inl e \<Rightarrow>
          if e = UnicodeDecodeError \<or> e = JSONDecodeError
          then Inl (BridgeError ''external_request_invalid_json'') else Inl e
      | Inr (PDict d) \<Rightarrow> Inr d
      | Inr _ \<Rightarrow> Inl (BridgeError ''external_request_not_object''))"

definition require_exact_keys :: "pydict \<Rightarrow> pystr list \<Rightarrow> pystr \<Rightarrow> unit result" where
  "require_exact_keys d expected code = ensure (keys_are d expected) (BridgeError code) (Inr ())"

definition require_text :: "pyval \<Rightarrow> pystr \<Rightarrow> nat \<Rightarrow> pystr result" where
  "require_text v code max_bytes =
     (case v of
        PStr s \<Rightarrow> rbind (py_encode s) (\<lambda>encoded.
          ensure (encoded \<noteq> [] \<and> length encoded \<le> max_bytes \<and> list_all (\<lambda>c. 32 \<le> ord_of c) s)
            (BridgeError code) (Inr s))
      | _ \<Rightarrow> Inl (BridgeError code))"

definition require_positive_int :: "pyval \<Rightarrow> pystr \<Rightarrow> int result" where
  "require_positive_int v code =
     (case v of
        PInt i \<Rightarrow> ensure (0 < i) (BridgeError code) (ensure (i \<le> 2 ^ 63 - 1) (BridgeError code) (Inr i))
      | _ \<Rightarrow> Inl (BridgeError code))"

definition require_positive_u64 :: "pyval \<Rightarrow> pystr \<Rightarrow> int result" where
  "require_positive_u64 v code =
     (case v of
        PInt i \<Rightarrow> ensure (0 < i \<and> i \<le> u64_max) (BridgeError code) (Inr i)
      | _ \<Rightarrow> Inl (BridgeError code))"

text \<open>\<open>_valid_sha256\<close>.\<close>

definition valid_sha256 :: "pyval \<Rightarrow> bool" where
  "valid_sha256 v \<longleftrightarrow> (case v of PStr s \<Rightarrow> is_sha256_hex s | _ \<Rightarrow> False)"

section \<open>Parsing\<close>

text \<open>The \<open>environment\<close> member: a cleared environment and the fixed allowlist.\<close>

definition check_environment :: "pyval \<Rightarrow> unit result" where
  "check_environment v =
     (case v of
        PDict env \<Rightarrow>
          rbind (require_exact_keys env [''clear'', ''inherit_remote'']
                   ''external_request_environment_invalid'') (\<lambda>_.
          ensure (dict_get env ''clear'' = PBool True
                  \<and> py_eq (dict_get env ''inherit_remote'')
                      (PList (map PStr remote_environment_allowlist)))
            (BridgeError ''external_request_environment_invalid'') (Inr ()))
      | _ \<Rightarrow> Inl (BridgeError ''external_request_environment_invalid''))"

definition parse_limits :: "pyval \<Rightarrow> limits result" where
  "parse_limits v =
     (case v of
        PDict d \<Rightarrow>
          ensure (keys_are d limit_keys \<or> keys_are d (limit_keys @ optional_limit_keys))
            (BridgeError ''external_request_limits_invalid'')
            (rbind (rmap (\<lambda>k. require_positive_int (dict_get d k) ''external_request_limits_invalid'')
                      limit_keys) (\<lambda>vs.
             (case dict_get_default d ''read_file_media_enabled'' (PBool False) of
                PBool media \<Rightarrow>
                  Inr \<lparr>arguments_cap_bytes = vs ! 0, max_path_bytes = vs ! 1,
                       max_read_or_write_bytes = vs ! 2, max_directory_entries = vs ! 3,
                       max_grep_matches = vs ! 4, max_replacements = vs ! 5,
                       max_background_processes = vs ! 6, process_spool_bytes_per_process = vs ! 7,
                       process_spool_bytes_per_run = vs ! 8, background_output_wait_max_ms = vs ! 9,
                       read_file_media_enabled = media\<rparr>
              | _ \<Rightarrow> Inl (BridgeError ''external_request_limits_invalid''))))
      | _ \<Rightarrow> Inl (BridgeError ''external_request_limits_invalid''))"

definition parse_arguments :: "pyval \<Rightarrow> int \<Rightarrow> (pystr \<times> pydict) result" where
  "parse_arguments v cap =
     (case v of
        PStr s \<Rightarrow>
          ensure (s \<noteq> []) (BridgeError ''external_request_arguments_invalid'')
            (rbind (py_encode s) (\<lambda>encoded.
             ensure (int (length encoded) \<le> cap) (BridgeError ''external_request_arguments_invalid'')
               (rbind (strict_json_object encoded) (\<lambda>d. Inr (s, d)))))
      | _ \<Rightarrow> Inl (BridgeError ''external_request_arguments_invalid''))"

definition parse_logical_cwd :: "pyval \<Rightarrow> pystr result" where
  "parse_logical_cwd v =
     (case v of
        PStr s \<Rightarrow>
          ensure (take 1 s = ''/'') (BridgeError ''external_request_cwd_invalid'')
            (ensure (path_str s = s \<and> list_all (\<lambda>part. part \<noteq> ''.'' \<and> part \<noteq> ''..'') (path_parts s))
               (BridgeError ''external_request_cwd_invalid'') (Inr s))
      | _ \<Rightarrow> Inl (BridgeError ''external_request_cwd_invalid''))"

text \<open>
  The deadline fields of a live request: exact windows for the four frozen reserves, and a
  settlement reserve that can be divided into stages.
\<close>

definition parse_deadline_values :: "pydict \<Rightarrow> deadline_values result" where
  "parse_deadline_values d =
     rbind (rmap (\<lambda>k. require_positive_u64 (dict_get d k) ''external_request_deadline_invalid'')
              (butlast live_deadline_keys)) (\<lambda>vs.
     (case dict_get d ''deadline_receipt_sha256'' of
        PStr digest \<Rightarrow>
          ensure (is_sha256_hex digest) (BridgeError ''external_request_deadline_invalid'')
          (let actor_done = vs ! 0; tool_settled = vs ! 1; last_send = vs ! 2; runtime_final = vs ! 3;
               cleanup_start = vs ! 4; hard = vs ! 5; cleanup = vs ! 6; terminalization = vs ! 7;
               provider_send = vs ! 8; settlement = vs ! 9
           in ensure
                (cleanup = 20000 \<and> terminalization = 15000 \<and> provider_send = 30000
                 \<and> settlement = 10000 \<and> last_send = runtime_final
                 \<and> hard - cleanup_start = cleanup * 1000000
                 \<and> cleanup_start - runtime_final = terminalization * 1000000
                 \<and> last_send - tool_settled = provider_send * 1000000
                 \<and> tool_settled - actor_done = settlement * 1000000)
                (BridgeError ''external_request_deadline_invalid'')
                (rbind (derive_stages actor_done tool_settled settlement) (\<lambda>_.
                   Inr \<lparr>dv_actor_done = Some actor_done, dv_tool_settled = Some tool_settled,
                        dv_last_send = Some last_send, dv_runtime_final = Some runtime_final,
                        dv_cleanup_start = Some cleanup_start, dv_hard_deadline = Some hard,
                        dv_cleanup_reserve_ms = Some cleanup,
                        dv_terminalization_reserve_ms = Some terminalization,
                        dv_provider_send_reserve_ms = Some provider_send,
                        dv_process_settlement_reserve_ms = Some settlement,
                        dv_receipt_sha256 = Some digest\<rparr>)))
      | _ \<Rightarrow> Inl (BridgeError ''external_request_deadline_invalid'')))"

text \<open>The checks on a request object, in the order of the code, and the request it denotes.\<close>

definition schema_of :: "pydict \<Rightarrow> bool \<Rightarrow> pystr result" where
  "schema_of d allow_legacy_v2 =
     (if dict_get d ''schema_version'' = PStr live_schema then
        rbind (require_exact_keys d live_request_keys ''external_request_fields_invalid'')
          (\<lambda>_. Inr live_schema)
      else if dict_get d ''schema_version'' = PStr legacy_schema \<and> allow_legacy_v2 then
        rbind (require_exact_keys d request_keys ''external_request_fields_invalid'')
          (\<lambda>_. Inr legacy_schema)
      else Inl (BridgeError ''external_request_schema_mismatch''))"

definition request_of_dict :: "bytes \<Rightarrow> pydict \<Rightarrow> bool \<Rightarrow> tool_request result" where
  "request_of_dict raw d allow_legacy_v2 =
     rbind (schema_of d allow_legacy_v2) (\<lambda>schema.
     ensure (dict_get d ''message_type'' = PStr ''tool.request'')
       (BridgeError ''external_request_type_mismatch'')
     (case dict_get d ''tool_name'' of
        PStr tool \<Rightarrow>
          ensure (tool \<in> set tool_names) (BridgeError ''external_request_tool_mismatch'')
          (case dict_get d ''seq'' of
             PInt seq \<Rightarrow>
               ensure (0 \<le> seq) (BridgeError ''external_request_sequence_invalid'')
               (rbind (check_environment (dict_get d ''environment'')) (\<lambda>_.
                rbind (parse_limits (dict_get d ''limits'')) (\<lambda>lim.
                rbind (parse_arguments (dict_get d ''arguments_json'') (arguments_cap_bytes lim))
                  (\<lambda>(args_json, args).
                rbind (parse_logical_cwd (dict_get d ''logical_cwd'')) (\<lambda>cwd.
                rbind (if schema = live_schema then parse_deadline_values d
                       else Inr no_deadline_values) (\<lambda>deadline.
                rbind (require_text (dict_get d ''run_id'') ''external_request_identity_invalid'' 256) (\<lambda>run.
                rbind (require_text (dict_get d ''trial_id'') ''external_request_identity_invalid'' 256) (\<lambda>trial.
                rbind (require_text (dict_get d ''attempt_id'') ''external_request_identity_invalid'' 256) (\<lambda>attempt.
                rbind (require_text (dict_get d ''call_id'') ''external_request_identity_invalid'' 256) (\<lambda>call.
                rbind (require_positive_int
                         (dict_get d (if schema = live_schema then ''operation_timeout_ms'' else ''timeout_ms''))
                         ''external_request_timeout_invalid'') (\<lambda>timeout.
                rbind (require_positive_int (dict_get d ''term_grace_ms'')
                         ''external_request_timeout_invalid'') (\<lambda>term.
                rbind (require_positive_int (dict_get d ''kill_confirmation_timeout_ms'')
                         ''external_request_timeout_invalid'') (\<lambda>kill.
                rbind (require_positive_int (dict_get d ''stdout_cap_bytes'')
                         ''external_request_cap_invalid'') (\<lambda>out_cap.
                rbind (require_positive_int (dict_get d ''stderr_cap_bytes'')
                         ''external_request_cap_invalid'') (\<lambda>err_cap.
                  Inr \<lparr>tr_raw_json = raw, tr_seq = seq, tr_run_id = run, tr_trial_id = trial,
                       tr_attempt_id = attempt, tr_call_id = call, tr_tool_name = tool,
                       tr_arguments_json = args_json, tr_arguments = args, tr_logical_cwd = cwd,
                       tr_timeout_ms = timeout, tr_term_grace_ms = term,
                       tr_kill_confirmation_timeout_ms = kill, tr_stdout_cap_bytes = out_cap,
                       tr_stderr_cap_bytes = err_cap, tr_limits = lim, tr_schema_version = schema,
                       tr_deadline = deadline\<rparr>)))))))))))))))
           | _ \<Rightarrow> Inl (BridgeError ''external_request_sequence_invalid''))
      | _ \<Rightarrow> Inl (BridgeError ''external_request_tool_mismatch'')))"

definition parse_tool_request :: "bytes \<Rightarrow> bool \<Rightarrow> tool_request result" where
  "parse_tool_request raw allow_legacy_v2 =
     ensure (raw \<noteq> [] \<and> length raw \<le> max_request_line_bytes
             \<and> list_all (\<lambda>c. ord_of c \<noteq> 10 \<and> ord_of c \<noteq> 13) raw)
       (BridgeError ''external_request_framing_invalid'')
       (rbind (strict_json_object raw) (\<lambda>d. request_of_dict raw d allow_legacy_v2))"

section \<open>Stages\<close>

definition stages_at :: "int \<Rightarrow> int \<Rightarrow> stages" where
  "stages_at a width = \<lparr>probe_ns = a + width * 1 div 6, output_ns = a + width * 2 div 6,
     encode_ns = a + width * 3 div 6, drain_ns = a + width * 4 div 6, parse_ns = a + width * 5 div 6,
     history_commit_ns = a + width\<rparr>"

definition stage_values :: "stages \<Rightarrow> int list" where
  "stage_values st =
     [probe_ns st, output_ns st, encode_ns st, drain_ns st, parse_ns st, history_commit_ns st]"

text \<open>A reserve of at least six milliseconds divides into six non-empty stages.\<close>

lemma div_next:
  assumes "d \<le> w div (n :: int)" and "0 < n"
  shows "d \<le> w * (k + 1) div n - w * k div n"
proof -
  have "w * (k + 1) div n = w * k div n + w div n + (w * k mod n + w mod n) div n"
    using div_add1_eq [of "w * k" w n] by (simp add: distrib_left)
  moreover have "0 \<le> (w * k mod n + w mod n) div n" using assms(2) by (simp add: pos_imp_zdiv_nonneg_iff)
  ultimately show ?thesis using assms(1) by linarith
qed

lemma stage_width:
  assumes "6 * d \<le> (w :: int)"
  shows "d \<le> w * 1 div 6" "d \<le> w * 2 div 6 - w * 1 div 6" "d \<le> w * 3 div 6 - w * 2 div 6"
    "d \<le> w * 4 div 6 - w * 3 div 6" "d \<le> w * 5 div 6 - w * 4 div 6" "d \<le> w - w * 5 div 6"
proof -
  have "d \<le> w div 6" using zdiv_mono1 [OF assms, of 6] by simp
  note next_stage = div_next [OF this, of 0, simplified] div_next [OF this, of 1, simplified]
    div_next [OF this, of 2, simplified] div_next [OF this, of 3, simplified]
    div_next [OF this, of 4, simplified] div_next [OF this, of 5, simplified]
  show "d \<le> w * 1 div 6" "d \<le> w * 2 div 6 - w * 1 div 6" "d \<le> w * 3 div 6 - w * 2 div 6"
    "d \<le> w * 4 div 6 - w * 3 div 6" "d \<le> w * 5 div 6 - w * 4 div 6" "d \<le> w - w * 5 div 6"
    using next_stage by simp_all
qed

lemma increasing_offsets:
  assumes "1 \<le> c1" "1 \<le> c2 - c1" "1 \<le> c3 - c2" "1 \<le> c4 - c3" "1 \<le> c5 - c4" "1 \<le> c6 - c5"
  shows "strictly_increasing [a, a + c1, a + c2, a + c3, a + c4, a + c5, a + c6]"
  using assms by simp

lemma stages_at_increasing: "6 \<le> width \<Longrightarrow> strictly_increasing (a # stage_values (stages_at a width))"
  using increasing_offsets [OF stage_width [of 1 width]]
  by (simp only: stage_values_def stages_at_def stages.simps mult_1_right)

lemma stage_list:
  "map (\<lambda>index. a + w * index div settlement_stage_count) [1, 2, 3, 4, 5, 6]
     = stage_values (stages_at a w)"
  by (simp add: stage_values_def stages_at_def settlement_stage_count_def)

lemma derive_stages_eq:
  "derive_stages a t s =
     (if 0 < a \<and> t \<le> u64_max \<and> 6 \<le> s \<and> s \<le> u64_max div 1000000 \<and> t - a = s * 1000000
      then Inr (stages_at a (t - a)) else Inl budget_error)"
proof (cases "0 < a \<and> t \<le> u64_max \<and> 6 \<le> s \<and> s \<le> u64_max div 1000000 \<and> t - a = s * 1000000")
  case True
  then have "strictly_increasing (stage_values (stages_at a (t - a)))"
    using stages_at_increasing [of "t - a" a] by (simp add: stage_values_def)
  moreover have "last (stage_values (stages_at a (t - a))) = t"
    by (simp add: stage_values_def stages_at_def)
  moreover have "\<lparr>probe_ns = stage_values st ! 0, output_ns = stage_values st ! 1,
      encode_ns = stage_values st ! 2, drain_ns = stage_values st ! 3, parse_ns = stage_values st ! 4,
      history_commit_ns = stage_values st ! 5\<rparr> = st" for st
    by (simp add: stage_values_def)
  moreover have "0 < t" "a \<le> u64_max" "0 < s" using True by simp_all
  ultimately show ?thesis
    using True unfolding derive_stages_def Let_def stage_list
    by (simp add: settlement_stage_count_def min_settlement_stage_ms_def del: One_nat_def)
next
  case False
  then show ?thesis
    unfolding derive_stages_def Let_def stage_list
    by (auto simp: settlement_stage_count_def min_settlement_stage_ms_def ensure_def)
qed

lemma derive_stages_Inr:
  "derive_stages a t s = Inr st \<longleftrightarrow>
     0 < a \<and> t \<le> u64_max \<and> 6 \<le> s \<and> s \<le> u64_max div 1000000 \<and> t - a = s * 1000000
     \<and> st = stages_at a (t - a)"
  unfolding derive_stages_eq by auto

section \<open>What the parser accepts\<close>

definition text_ok :: "nat \<Rightarrow> pystr \<Rightarrow> bool" where
  "text_ok n s \<longleftrightarrow> s \<noteq> [] \<and> valid_utf8 s \<and> length s \<le> n \<and> list_all (\<lambda>c. 32 \<le> ord_of c) s"

definition positive_int_ok :: "int \<Rightarrow> bool" where
  "positive_int_ok i \<longleftrightarrow> 0 < i \<and> i \<le> 2 ^ 63 - 1"

lemma require_text_Inr [simp]: "require_text v c n = Inr s \<longleftrightarrow> v = PStr s \<and> text_ok n s"
  by (cases v) (auto simp: require_text_def text_ok_def rbind_Inr_iff)

lemma require_positive_int_Inr [simp]:
  "require_positive_int v c = Inr i \<longleftrightarrow> v = PInt i \<and> positive_int_ok i"
  by (cases v) (auto simp: require_positive_int_def positive_int_ok_def)

lemma require_positive_u64_Inr [simp]:
  "require_positive_u64 v c = Inr i \<longleftrightarrow> v = PInt i \<and> 0 < i \<and> i \<le> u64_max"
  by (cases v) (auto simp: require_positive_u64_def)

lemma require_exact_keys_Inr [simp]: "require_exact_keys d ks c = Inr u \<longleftrightarrow> keys_are d ks"
  by (simp add: require_exact_keys_def)

lemma require_ok:
  "text_ok n s \<Longrightarrow> require_text (PStr s) c n = Inr s"
  "positive_int_ok i \<Longrightarrow> require_positive_int (PInt i) c = Inr i"
  by simp_all

definition limits_ok :: "limits \<Rightarrow> bool" where
  "limits_ok l \<longleftrightarrow> list_all positive_int_ok
     [arguments_cap_bytes l, max_path_bytes l, max_read_or_write_bytes l, max_directory_entries l,
      max_grep_matches l, max_replacements l, max_background_processes l,
      process_spool_bytes_per_process l, process_spool_bytes_per_run l, background_output_wait_max_ms l]"

definition cwd_ok :: "pystr \<Rightarrow> bool" where
  "cwd_ok s \<longleftrightarrow> take 1 s = ''/'' \<and> path_str s = s \<and> ''..'' \<notin> set (path_parts s)"

text \<open>The deadline fields of a live request that works until \<open>a\<close>.\<close>

definition live_deadline :: "int \<Rightarrow> pystr \<Rightarrow> deadline_values" where
  "live_deadline a digest = \<lparr>dv_actor_done = Some a, dv_tool_settled = Some (a + 10000000000),
     dv_last_send = Some (a + 40000000000), dv_runtime_final = Some (a + 40000000000),
     dv_cleanup_start = Some (a + 55000000000), dv_hard_deadline = Some (a + 75000000000),
     dv_cleanup_reserve_ms = Some 20000, dv_terminalization_reserve_ms = Some 15000,
     dv_provider_send_reserve_ms = Some 30000, dv_process_settlement_reserve_ms = Some 10000,
     dv_receipt_sha256 = Some digest\<rparr>"

definition deadline_values_ok :: "pystr \<Rightarrow> deadline_values \<Rightarrow> bool" where
  "deadline_values_ok schema dv \<longleftrightarrow>
     (if schema = live_schema
      then (\<exists>a digest. dv = live_deadline a digest \<and> 0 < a \<and> a + 75000000000 \<le> u64_max \<and> is_sha256_hex digest)
      else schema = legacy_schema \<and> dv = no_deadline_values)"

definition request_ok :: "tool_request \<Rightarrow> bool" where
  "request_ok q \<longleftrightarrow>
     0 \<le> tr_seq q \<and> text_ok 256 (tr_run_id q) \<and> text_ok 256 (tr_trial_id q)
     \<and> text_ok 256 (tr_attempt_id q) \<and> text_ok 256 (tr_call_id q) \<and> tr_tool_name q \<in> set tool_names
     \<and> tr_arguments_json q \<noteq> [] \<and> int (length (tr_arguments_json q)) \<le> arguments_cap_bytes (tr_limits q)
     \<and> strict_json_object (tr_arguments_json q) = Inr (tr_arguments q)
     \<and> cwd_ok (tr_logical_cwd q)
     \<and> list_all positive_int_ok [tr_timeout_ms q, tr_term_grace_ms q, tr_kill_confirmation_timeout_ms q,
          tr_stdout_cap_bytes q, tr_stderr_cap_bytes q]
     \<and> limits_ok (tr_limits q) \<and> deadline_values_ok (tr_schema_version q) (tr_deadline q)"

lemma strict_json_valid_utf8: "strict_json_object raw = Inr d \<Longrightarrow> valid_utf8 raw"
  by (auto simp: strict_json_object_def split: if_splits)

lemma parse_arguments_Inr:
  "parse_arguments v cap = Inr (s, d) \<longleftrightarrow>
     v = PStr s \<and> s \<noteq> [] \<and> int (length s) \<le> cap \<and> strict_json_object s = Inr d"
  by (cases v) (auto simp: parse_arguments_def rbind_Inr_iff dest: strict_json_valid_utf8)

lemma path_tail_no_dot: "''.'' \<notin> set (path_tail s)"
  by (simp add: path_tail_def)

lemma path_root_not_dots: "fst (path_root s) \<noteq> ''.'' \<and> fst (path_root s) \<noteq> ''..''"
  by (simp add: path_root_def)

lemma path_parts_no_dots:
  "list_all (\<lambda>part. part \<noteq> ''.'' \<and> part \<noteq> ''..'') (path_parts s) \<longleftrightarrow> ''..'' \<notin> set (path_parts s)"
proof -
  have "''.'' \<notin> set (path_parts s)"
    using path_tail_no_dot [of s] path_root_not_dots [of s]
    by (auto simp only: path_parts_def set_append Un_iff list.set insert_iff empty_iff split: if_splits)
  then show ?thesis by (auto simp only: list_all_iff)
qed

lemma parse_logical_cwd_Inr: "parse_logical_cwd v = Inr s \<longleftrightarrow> v = PStr s \<and> cwd_ok s"
  by (cases v) (auto simp: parse_logical_cwd_def cwd_ok_def path_parts_no_dots)

lemma parse_limits_Inr:
  "parse_limits v = Inr l \<longleftrightarrow>
     (\<exists>d. v = PDict d \<and> (keys_are d limit_keys \<or> keys_are d (limit_keys @ optional_limit_keys))
        \<and> rmap (\<lambda>k. require_positive_int (dict_get d k) ''external_request_limits_invalid'') limit_keys
            = Inr [arguments_cap_bytes l, max_path_bytes l, max_read_or_write_bytes l,
                max_directory_entries l, max_grep_matches l, max_replacements l,
                max_background_processes l, process_spool_bytes_per_process l,
                process_spool_bytes_per_run l, background_output_wait_max_ms l]
        \<and> dict_get_default d ''read_file_media_enabled'' (PBool False) = PBool (read_file_media_enabled l))"
  (is "?lhs \<longleftrightarrow> ?rhs")
proof
  assume l: ?lhs
  then obtain d vs where d: "v = PDict d"
    and k: "keys_are d limit_keys \<or> keys_are d (limit_keys @ optional_limit_keys)"
    and vs: "rmap (\<lambda>k. require_positive_int (dict_get d k) ''external_request_limits_invalid'') limit_keys = Inr vs"
    unfolding parse_limits_def by (cases v) (auto simp: rbind_Inr_iff)
  have "length vs = Suc (Suc (Suc (Suc (Suc (Suc (Suc (Suc (Suc (Suc 0)))))))))"
    using rmap_length [OF vs] by (simp add: limit_keys_def)
  then obtain a0 a1 a2 a3 a4 a5 a6 a7 a8 a9 where "vs = [a0, a1, a2, a3, a4, a5, a6, a7, a8, a9]"
    unfolding length_Suc_conv by auto
  with l vs k d show ?rhs
    by (auto simp: parse_limits_def split: pyval.splits)
next
  assume ?rhs
  then show ?lhs by (auto simp: parse_limits_def)
qed

lemma parse_limits_ok: "parse_limits v = Inr l \<Longrightarrow> limits_ok l"
  unfolding parse_limits_Inr limits_ok_def by (auto dest: rmap_list_all [where P = positive_int_ok])

lemma parse_deadline_values_ok:
  assumes "parse_deadline_values d = Inr dv"
  shows "deadline_values_ok live_schema dv"
proof -
  obtain vs digest where "dict_get d ''deadline_receipt_sha256'' = PStr digest" and
    vs: "rmap (\<lambda>k. require_positive_u64 (dict_get d k) ''external_request_deadline_invalid'')
              (butlast live_deadline_keys) = Inr vs"
    using assms unfolding parse_deadline_values_def rbind_Inr_iff
    by (cases "dict_get d ''deadline_receipt_sha256''") auto
  note digest = this(1)
  have "length vs = Suc (Suc (Suc (Suc (Suc (Suc (Suc (Suc (Suc (Suc 0)))))))))"
    using rmap_length [OF vs] by (simp add: live_deadline_keys_def)
  then obtain a t l f c h r0 r1 r2 r3 where v: "vs = [a, t, l, f, c, h, r0, r1, r2, r3]"
    unfolding length_Suc_conv by auto
  have "list_all (\<lambda>i. 0 < i \<and> i \<le> u64_max) vs" by (rule rmap_list_all [OF vs]) simp
  then have pos: "0 < a" "h \<le> u64_max" by (simp_all add: v)
  from v assms vs digest have "dv = live_deadline a digest" "h = a + 75000000000" "is_sha256_hex digest"
    by (auto simp: parse_deadline_values_def rbind_Inr_iff Let_def live_deadline_def)
  then show ?thesis using pos by (auto simp: deadline_values_ok_def)
qed

text \<open>The request an object denotes, field by field.\<close>

lemma request_of_dict_Inr:
  "request_of_dict raw d b = Inr q \<longleftrightarrow>
     schema_of d b = Inr (tr_schema_version q)
     \<and> dict_get d ''message_type'' = PStr ''tool.request''
     \<and> dict_get d ''tool_name'' = PStr (tr_tool_name q) \<and> tr_tool_name q \<in> set tool_names
     \<and> dict_get d ''seq'' = PInt (tr_seq q) \<and> 0 \<le> tr_seq q
     \<and> check_environment (dict_get d ''environment'') = Inr ()
     \<and> parse_limits (dict_get d ''limits'') = Inr (tr_limits q)
     \<and> parse_arguments (dict_get d ''arguments_json'') (arguments_cap_bytes (tr_limits q))
         = Inr (tr_arguments_json q, tr_arguments q)
     \<and> parse_logical_cwd (dict_get d ''logical_cwd'') = Inr (tr_logical_cwd q)
     \<and> (if tr_schema_version q = live_schema then parse_deadline_values d else Inr no_deadline_values)
         = Inr (tr_deadline q)
     \<and> dict_get d ''run_id'' = PStr (tr_run_id q) \<and> text_ok 256 (tr_run_id q)
     \<and> dict_get d ''trial_id'' = PStr (tr_trial_id q) \<and> text_ok 256 (tr_trial_id q)
     \<and> dict_get d ''attempt_id'' = PStr (tr_attempt_id q) \<and> text_ok 256 (tr_attempt_id q)
     \<and> dict_get d ''call_id'' = PStr (tr_call_id q) \<and> text_ok 256 (tr_call_id q)
     \<and> dict_get d (if tr_schema_version q = live_schema then ''operation_timeout_ms'' else ''timeout_ms'')
         = PInt (tr_timeout_ms q) \<and> positive_int_ok (tr_timeout_ms q)
     \<and> dict_get d ''term_grace_ms'' = PInt (tr_term_grace_ms q) \<and> positive_int_ok (tr_term_grace_ms q)
     \<and> dict_get d ''kill_confirmation_timeout_ms'' = PInt (tr_kill_confirmation_timeout_ms q)
     \<and> positive_int_ok (tr_kill_confirmation_timeout_ms q)
     \<and> dict_get d ''stdout_cap_bytes'' = PInt (tr_stdout_cap_bytes q) \<and> positive_int_ok (tr_stdout_cap_bytes q)
     \<and> dict_get d ''stderr_cap_bytes'' = PInt (tr_stderr_cap_bytes q) \<and> positive_int_ok (tr_stderr_cap_bytes q)
     \<and> tr_raw_json q = raw" (is "?lhs \<longleftrightarrow> ?rhs")
proof
  assume l: ?lhs
  then obtain tool where t: "dict_get d ''tool_name'' = PStr tool"
    unfolding request_of_dict_def rbind_Inr_iff ensure_Inr_iff by (cases "dict_get d ''tool_name''") auto
  from l obtain seq where sq: "dict_get d ''seq'' = PInt seq"
    unfolding request_of_dict_def rbind_Inr_iff ensure_Inr_iff t by (cases "dict_get d ''seq''") auto
  from l show ?rhs
    unfolding request_of_dict_def rbind_Inr_iff ensure_Inr_iff t sq pyval.case
    by (elim exE conjE) (simp add: rbind_Inr_iff split: prod.splits, elim exE conjE, hypsubst, simp split: if_splits)
next
  assume ?rhs
  then show ?lhs
    unfolding request_of_dict_def
    by (elim conjE)
      (simp only: require_ok rbind_simps ensure_simps pyval.case prod.case simp_thms, simp)
qed

lemma schema_of_Inr:
  "schema_of d b = Inr sv \<longleftrightarrow>
     dict_get d ''schema_version'' = PStr sv
     \<and> (sv = live_schema \<and> keys_are d live_request_keys
         \<or> sv = legacy_schema \<and> b \<and> keys_are d request_keys)"
  by (auto simp: schema_of_def rbind_Inr_iff live_schema_def legacy_schema_def)

lemma request_of_dict_ok:
  assumes "request_of_dict raw d b = Inr q"
  shows "request_ok q"
proof -
  note r = assms [unfolded request_of_dict_Inr schema_of_Inr parse_arguments_Inr parse_logical_cwd_Inr]
  have "deadline_values_ok (tr_schema_version q) (tr_deadline q)"
  proof (cases "tr_schema_version q = live_schema")
    case True
    then show ?thesis using r parse_deadline_values_ok [of d "tr_deadline q"] by simp
  next
    case False
    then show ?thesis using r by (simp add: deadline_values_ok_def)
  qed
  moreover have "limits_ok (tr_limits q)" using r parse_limits_ok by blast
  ultimately show ?thesis using r by (simp add: request_ok_def)
qed

section \<open>The line of a request\<close>

text \<open>
  The object that denotes a request; the runtime writes it, the bridge only reads it. The
  reader is complete for it: every well-formed request has a line that is read as that request.
\<close>

definition limits_as_dict :: "limits \<Rightarrow> pydict" where
  "limits_as_dict l =
     [(''arguments_cap_bytes'', PInt (arguments_cap_bytes l)),
      (''max_path_bytes'', PInt (max_path_bytes l)),
      (''max_read_or_write_bytes'', PInt (max_read_or_write_bytes l)),
      (''max_directory_entries'', PInt (max_directory_entries l)),
      (''max_grep_matches'', PInt (max_grep_matches l)),
      (''max_replacements'', PInt (max_replacements l)),
      (''max_background_processes'', PInt (max_background_processes l)),
      (''process_spool_bytes_per_process'', PInt (process_spool_bytes_per_process l)),
      (''process_spool_bytes_per_run'', PInt (process_spool_bytes_per_run l)),
      (''background_output_wait_max_ms'', PInt (background_output_wait_max_ms l)),
      (''read_file_media_enabled'', PBool (read_file_media_enabled l))]"

definition environment_dict :: pydict where
  "environment_dict =
     [(''clear'', PBool True), (''inherit_remote'', PList (map PStr remote_environment_allowlist))]"

definition opt_int :: "int option \<Rightarrow> pyval" where
  "opt_int x = (case x of None \<Rightarrow> PNone | Some i \<Rightarrow> PInt i)"

definition deadline_values_as_dict :: "deadline_values \<Rightarrow> pydict" where
  "deadline_values_as_dict dv =
     [(''actor_done_monotonic_ns'', opt_int (dv_actor_done dv)),
      (''tool_settled_monotonic_ns'', opt_int (dv_tool_settled dv)),
      (''last_send_monotonic_ns'', opt_int (dv_last_send dv)),
      (''runtime_final_monotonic_ns'', opt_int (dv_runtime_final dv)),
      (''cleanup_start_monotonic_ns'', opt_int (dv_cleanup_start dv)),
      (''hard_deadline_monotonic_ns'', opt_int (dv_hard_deadline dv)),
      (''cleanup_reserve_ms'', opt_int (dv_cleanup_reserve_ms dv)),
      (''terminalization_reserve_ms'', opt_int (dv_terminalization_reserve_ms dv)),
      (''provider_send_reserve_ms'', opt_int (dv_provider_send_reserve_ms dv)),
      (''process_settlement_reserve_ms'', opt_int (dv_process_settlement_reserve_ms dv)),
      (''deadline_receipt_sha256'', opt_str (dv_receipt_sha256 dv))]"

definition request_as_dict :: "tool_request \<Rightarrow> pydict" where
  "request_as_dict q =
     [(''schema_version'', PStr (tr_schema_version q)), (''message_type'', PStr ''tool.request''),
      (''seq'', PInt (tr_seq q)), (''run_id'', PStr (tr_run_id q)), (''trial_id'', PStr (tr_trial_id q)),
      (''attempt_id'', PStr (tr_attempt_id q)), (''call_id'', PStr (tr_call_id q)),
      (''tool_name'', PStr (tr_tool_name q)), (''arguments_json'', PStr (tr_arguments_json q)),
      (''logical_cwd'', PStr (tr_logical_cwd q)),
      (''term_grace_ms'', PInt (tr_term_grace_ms q)),
      (''kill_confirmation_timeout_ms'', PInt (tr_kill_confirmation_timeout_ms q)),
      (''stdout_cap_bytes'', PInt (tr_stdout_cap_bytes q)),
      (''stderr_cap_bytes'', PInt (tr_stderr_cap_bytes q)),
      (''environment'', PDict environment_dict), (''limits'', PDict (limits_as_dict (tr_limits q)))]
     @ (if tr_schema_version q = live_schema
        then (''operation_timeout_ms'', PInt (tr_timeout_ms q)) # deadline_values_as_dict (tr_deadline q)
        else [(''timeout_ms'', PInt (tr_timeout_ms q))])"

interpretation bridge_reader: json_reader bridge_hooks
  by unfold_locales (simp_all add: bridge_hooks_def, simp add: unique_object_def)

lemma parse_limits_as_dict: "limits_ok l \<Longrightarrow> parse_limits (PDict (limits_as_dict l)) = Inr l"
  unfolding parse_limits_Inr
  by (auto simp: limits_ok_def limit_keys_def optional_limit_keys_def limits_as_dict_def keys_are_def
      dict_keys_def dict_get_def dict_get_default_def positive_int_ok_def rbind_Inr_iff)

lemma check_environment_dict: "check_environment (PDict environment_dict) = Inr ()"
  by (simp add: check_environment_def require_exact_keys_def environment_dict_def keys_are_def dict_keys_def dict_get_def)

lemma request_keys_as_dict:
  "map fst (request_as_dict q) =
     [''schema_version'', ''message_type'', ''seq'', ''run_id'', ''trial_id'', ''attempt_id'', ''call_id'',
      ''tool_name'', ''arguments_json'', ''logical_cwd'', ''term_grace_ms'',
      ''kill_confirmation_timeout_ms'', ''stdout_cap_bytes'', ''stderr_cap_bytes'', ''environment'',
      ''limits'']
     @ (if tr_schema_version q = live_schema then ''operation_timeout_ms'' # live_deadline_keys
        else [''timeout_ms''])"
  by (simp add: request_as_dict_def deadline_values_as_dict_def live_deadline_keys_def)

lemma keys_request_as_dict:
  "tr_schema_version q = live_schema \<Longrightarrow> keys_are (request_as_dict q) live_request_keys"
  "tr_schema_version q \<noteq> live_schema \<Longrightarrow> keys_are (request_as_dict q) request_keys"
  unfolding keys_are_def dict_keys_def request_keys_as_dict live_request_keys_def request_keys_def
  by auto

lemma request_as_dict_get:
  "dict_get (request_as_dict q) ''schema_version'' = PStr (tr_schema_version q)"
  "dict_get (request_as_dict q) ''message_type'' = PStr ''tool.request''"
  "dict_get (request_as_dict q) ''seq'' = PInt (tr_seq q)"
  "dict_get (request_as_dict q) ''run_id'' = PStr (tr_run_id q)"
  "dict_get (request_as_dict q) ''trial_id'' = PStr (tr_trial_id q)"
  "dict_get (request_as_dict q) ''attempt_id'' = PStr (tr_attempt_id q)"
  "dict_get (request_as_dict q) ''call_id'' = PStr (tr_call_id q)"
  "dict_get (request_as_dict q) ''tool_name'' = PStr (tr_tool_name q)"
  "dict_get (request_as_dict q) ''arguments_json'' = PStr (tr_arguments_json q)"
  "dict_get (request_as_dict q) ''logical_cwd'' = PStr (tr_logical_cwd q)"
  "dict_get (request_as_dict q) ''term_grace_ms'' = PInt (tr_term_grace_ms q)"
  "dict_get (request_as_dict q) ''kill_confirmation_timeout_ms'' = PInt (tr_kill_confirmation_timeout_ms q)"
  "dict_get (request_as_dict q) ''stdout_cap_bytes'' = PInt (tr_stdout_cap_bytes q)"
  "dict_get (request_as_dict q) ''stderr_cap_bytes'' = PInt (tr_stderr_cap_bytes q)"
  "dict_get (request_as_dict q) ''environment'' = PDict environment_dict"
  "dict_get (request_as_dict q) ''limits'' = PDict (limits_as_dict (tr_limits q))"
  "dict_get (request_as_dict q)
     (if tr_schema_version q = live_schema then ''operation_timeout_ms'' else ''timeout_ms'')
       = PInt (tr_timeout_ms q)"
  by (simp_all add: request_as_dict_def dict_get_def)

lemma live_deadline_get:
  assumes "tr_schema_version q = live_schema"
  shows "list_all (\<lambda>(k, v). dict_get (request_as_dict q) k = v) (deadline_values_as_dict (tr_deadline q))"
  using assms by (simp add: request_as_dict_def deadline_values_as_dict_def dict_get_def)

lemma parse_deadline_values_as_dict:
  assumes "tr_schema_version q = live_schema" and "deadline_values_ok live_schema (tr_deadline q)"
  shows "parse_deadline_values (request_as_dict q) = Inr (tr_deadline q)"
proof -
  obtain a digest where dv: "tr_deadline q = live_deadline a digest" and a: "0 < a"
    "a + 75000000000 \<le> u64_max" and digest: "is_sha256_hex digest"
    using assms(2) by (auto simp: deadline_values_ok_def)
  have "rmap (\<lambda>k. require_positive_u64 (dict_get (request_as_dict q) k) ''external_request_deadline_invalid'')
      (butlast live_deadline_keys) = Inr [a, a + 10000000000, a + 40000000000, a + 40000000000,
        a + 55000000000, a + 75000000000, 20000, 15000, 30000, 10000]"
    using live_deadline_get [OF assms(1)] a
    by (simp add: dv live_deadline_def deadline_values_as_dict_def live_deadline_keys_def opt_int_def
        rbind_Inr_iff u64_max_def)
  moreover have "derive_stages a (a + 10000000000) 10000 = Inr (stages_at a 10000000000)"
    using a by (simp add: derive_stages_Inr u64_max_def)
  moreover have "dict_get (request_as_dict q) ''deadline_receipt_sha256'' = PStr digest"
    using live_deadline_get [OF assms(1)]
    by (simp add: dv live_deadline_def deadline_values_as_dict_def opt_str_def)
  ultimately show ?thesis
    using digest by (simp add: parse_deadline_values_def Let_def dv live_deadline_def)
qed

lemma request_of_as_dict:
  assumes "request_ok q" and "tr_schema_version q = live_schema \<or> b"
  shows "request_of_dict (tr_raw_json q) (request_as_dict q) b = Inr q"
proof -
  have dv: "deadline_values_ok (tr_schema_version q) (tr_deadline q)"
    using assms(1) by (simp add: request_ok_def)
  have "schema_of (request_as_dict q) b = Inr (tr_schema_version q)"
    using assms(2) dv keys_request_as_dict [of q]
    by (auto simp: schema_of_Inr request_as_dict_get(1) deadline_values_ok_def split: if_splits)
  moreover have "(if tr_schema_version q = live_schema then parse_deadline_values (request_as_dict q)
      else Inr no_deadline_values) = Inr (tr_deadline q)"
    using dv parse_deadline_values_as_dict [of q] by (auto simp: deadline_values_ok_def)
  ultimately show ?thesis
    using assms(1) unfolding request_of_dict_Inr request_as_dict_get
    by (simp add: request_ok_def parse_limits_as_dict check_environment_dict parse_arguments_Inr
        parse_logical_cwd_Inr)
qed

text \<open>A printable protocol key is written as it is.\<close>

lemma valid_utf8_literals [simp]:
  "valid_utf8 live_schema" "valid_utf8 legacy_schema"
  by (simp_all add: live_schema_def legacy_schema_def ord_of_def)

lemma valid_utf8_tool_names: "n \<in> set tool_names \<Longrightarrow> valid_utf8 n"
  by (auto simp: tool_names_def ord_of_def)

lemma dumpable_positive_int: "positive_int_ok i \<Longrightarrow> dumpable (PInt i)"
  by (rule dumpable_u64) (simp_all add: positive_int_ok_def)

lemma opt_int_dumpable: "(\<And>i. x = Some i \<Longrightarrow> 0 < i \<and> i \<le> u64_max) \<Longrightarrow> dumpable (opt_int x)"
  using dumpable_u64 by (auto simp: opt_int_def u64_max_def split: option.splits)

lemma request_dict_writable:
  assumes "request_ok q" and "tr_seq q \<le> u64_max" and "valid_utf8 (tr_logical_cwd q)"
  shows "wf_val (PDict (request_as_dict q))" "strs_ok (PDict (request_as_dict q))"
    "dumpable (PDict (request_as_dict q))"
proof -
  have dv: "deadline_values_ok (tr_schema_version q) (tr_deadline q)"
    and lim: "limits_ok (tr_limits q)"
    using assms(1) by (simp_all add: request_ok_def)
  have schema: "valid_utf8 (tr_schema_version q)" using dv by (auto simp: deadline_values_ok_def split: if_splits)
  have strs: "valid_utf8 (tr_run_id q)" "valid_utf8 (tr_trial_id q)" "valid_utf8 (tr_attempt_id q)"
    "valid_utf8 (tr_call_id q)" "valid_utf8 (tr_tool_name q)" "valid_utf8 (tr_arguments_json q)"
    using assms(1) valid_utf8_tool_names strict_json_valid_utf8
    by (auto simp: request_ok_def text_ok_def)
  have keys: "list_all valid_utf8 (map fst (request_as_dict q))"
    unfolding request_keys_as_dict live_deadline_keys_def by (simp add: ord_of_def)
  have env: "wf_val (PDict environment_dict)" "strs_ok (PDict environment_dict)"
    "dumpable (PDict environment_dict)"
    by (simp_all add: environment_dict_def remote_environment_allowlist_def ord_of_def)
  have lims: "wf_val (PDict (limits_as_dict l))" "strs_ok (PDict (limits_as_dict l))" for l
    by (simp_all add: limits_as_dict_def ord_of_def)
  have lims': "dumpable (PDict (limits_as_dict (tr_limits q)))"
    using lim dumpable_positive_int unfolding limits_ok_def limits_as_dict_def by (simp del: dumpable.simps(1))
  have live: "list_all (\<lambda>kv. wf_val (snd kv) \<and> strs_ok (snd kv) \<and> dumpable (snd kv))
      (deadline_values_as_dict (tr_deadline q))" if sv: "tr_schema_version q = live_schema"
  proof -
    obtain a digest where "tr_deadline q = live_deadline a digest" "0 < a" "a + 75000000000 \<le> u64_max"
      "is_sha256_hex digest" using dv sv by (auto simp: deadline_values_ok_def)
    then show ?thesis
      using dumpable_u64 sha256_hex_valid_utf8
      by (simp add: deadline_values_as_dict_def live_deadline_def opt_int_def opt_str_def u64_max_def
          del: dumpable.simps(1))
  qed
  have ints: "dumpable (PInt (tr_seq q))" "list_all (\<lambda>i. dumpable (PInt i)) [tr_timeout_ms q,
      tr_term_grace_ms q, tr_kill_confirmation_timeout_ms q, tr_stdout_cap_bytes q, tr_stderr_cap_bytes q]"
    using assms(1,2) dumpable_positive_int dumpable_u64
    by (simp_all add: request_ok_def u64_max_def del: dumpable.simps(1))
  have "distinct (map fst (request_as_dict q))"
    unfolding request_keys_as_dict live_deadline_keys_def by simp
  moreover have vals: "list_all (\<lambda>kv. wf_val (snd kv) \<and> strs_ok (snd kv) \<and> dumpable (snd kv)) (request_as_dict q)"
    using schema strs assms(3) env lims lims' live ints unfolding request_as_dict_def
    by (simp add: ord_of_def list_all_iff del: wf_val.simps(1,2) strs_ok.simps(2,3) dumpable.simps(1,4,5))
  ultimately show "wf_val (PDict (request_as_dict q))" "dumpable (PDict (request_as_dict q))"
    by (simp_all add: list_all_iff del: dumpable.simps(1))
  show "strs_ok (PDict (request_as_dict q))" using vals keys by (simp add: list_all_iff)
qed

lemma strict_json_dumps:
  assumes "json_dumps (PDict d) = Some t" and "wf_val (PDict d)" and "strs_ok (PDict d)"
  shows "strict_json_object t = Inr d"
  using bridge_reader.loads_dumps [OF assms(1,2)] valid_utf8_json_dumps(1) [OF assms(1,3)]
  by (simp add: strict_json_object_def)

lemma request_as_dict_raw [simp]: "request_as_dict (q\<lparr>tr_raw_json := t\<rparr>) = request_as_dict q"
  by (simp add: request_as_dict_def)

lemma request_ok_raw [simp]: "request_ok (q\<lparr>tr_raw_json := t\<rparr>) = request_ok q"
  by (simp add: request_ok_def)

lemma parse_line:
  assumes "request_ok q" and "tr_seq q \<le> u64_max" and "valid_utf8 (tr_logical_cwd q)"
    and "tr_schema_version q = live_schema \<or> b"
    and t: "json_dumps (PDict (request_as_dict q)) = Some t" and "length t \<le> max_request_line_bytes"
  shows "parse_tool_request t b = Inr (q\<lparr>tr_raw_json := t\<rparr>)"
proof -
  note w = request_dict_writable [OF assms(1-3)]
  have "t \<noteq> []" using json_dumps_ascii_start [OF t] by simp
  moreover have "list_all (\<lambda>c. ord_of c \<noteq> 10 \<and> ord_of c \<noteq> 13) t"
    using ge32_json_dumps(1) [OF t] by (auto simp: list_all_iff)
  moreover have "request_of_dict t (request_as_dict q) b = Inr (q\<lparr>tr_raw_json := t\<rparr>)"
    using request_of_as_dict [of "q\<lparr>tr_raw_json := t\<rparr>" b] assms(1,4) by simp
  ultimately show ?thesis
    using assms(6) strict_json_dumps [OF t w(1,2)] by (simp add: parse_tool_request_def)
qed

lemma parse_tool_request_Inr:
  assumes "parse_tool_request raw b = Inr q"
  shows "request_ok q" "tr_raw_json q = raw" "tr_schema_version q \<noteq> live_schema \<Longrightarrow> b"
    "length raw \<le> max_request_line_bytes"
proof -
  obtain d where d: "request_of_dict raw d b = Inr q"
    using assms by (auto simp: parse_tool_request_def rbind_Inr_iff)
  then show "request_ok q" by (rule request_of_dict_ok)
  from d show "tr_raw_json q = raw" "tr_schema_version q \<noteq> live_schema \<Longrightarrow> b"
    unfolding request_of_dict_Inr schema_of_Inr by auto
  show "length raw \<le> max_request_line_bytes" using assms by (simp add: parse_tool_request_def)
qed

lemma live_request_stages:
  assumes "request_ok q" and "has_absolute_deadline q"
  obtains a digest where "tr_deadline q = live_deadline a digest" "0 < a" "a + 75000000000 \<le> u64_max"
    "is_sha256_hex digest" "settlement_stages q = Inr (Some (stages_at a 10000000000))"
proof -
  obtain a digest where dv: "tr_deadline q = live_deadline a digest" "0 < a" "a + 75000000000 \<le> u64_max"
    "is_sha256_hex digest"
    using assms by (auto simp: request_ok_def has_absolute_deadline_def deadline_values_ok_def)
  moreover have "derive_stages a (a + 10000000000) 10000 = Inr (stages_at a 10000000000)"
    using dv(2,3) by (simp add: derive_stages_Inr u64_max_def)
  then have "settlement_stages q = Inr (Some (stages_at a 10000000000))"
    using assms(2) dv(1) by (simp add: settlement_stages_def live_deadline_def)
  ultimately show thesis using that by blast
qed

section \<open>Failing closed\<close>

definition request_error :: "py_error \<Rightarrow> bool" where
  "request_error e \<longleftrightarrow> (\<exists>code. e = BridgeError code) \<or> e = UnicodeEncodeError
     \<or> e = ValueError ''int_max_str_digits''"

lemma request_error_simps [simp]: "request_error (BridgeError c)" "request_error UnicodeEncodeError"
  by (auto simp: request_error_def)

lemma strict_json_raises [raises_only_intros]: "raises_only request_error (strict_json_object raw)"
proof -
  have "raises_only (\<lambda>e. request_error e \<or> json_error e) (json_loads bridge_hooks raw)"
    by (rule bridge_reader.json_loads_raises)
      (auto simp: raises_only_def bridge_hooks_def unique_object_def split: if_splits)
  then show ?thesis
    unfolding strict_json_object_def
    by (auto simp: raises_only_def json_error_def request_error_def split: sum.splits pyval.splits)
qed

lemma require_raises [raises_only_intros]:
  "raises_only request_error (require_text v c n)"
  "raises_only request_error (require_positive_int v c)"
  "raises_only request_error (require_positive_u64 v c)"
  "raises_only request_error (require_exact_keys d ks c)"
  by (cases v; simp add: require_text_def require_positive_int_def require_positive_u64_def
        require_exact_keys_def py_encode_def raises_only_def rbind_Inl_iff ensure_Inl_iff)+

lemma parts_of_request_raise [raises_only_intros]:
  "raises_only request_error (check_environment v)"
  "raises_only request_error (parse_arguments v cap)"
  "raises_only request_error (parse_logical_cwd v)"
  "raises_only request_error (derive_stages a t s)"
  "raises_only request_error (schema_of d b)"
  subgoal unfolding check_environment_def by (cases v; simp; (intro raises_only_intros)?; simp)
  subgoal unfolding parse_arguments_def
    by (cases v; simp only: pyval.case; intro raises_only_intros; simp)
  subgoal unfolding parse_logical_cwd_def by (cases v; simp; (intro raises_only_intros)?; simp)
  subgoal unfolding derive_stages_eq by (simp add: raises_only_def)
  subgoal unfolding schema_of_def by (intro raises_only_intros) simp
  done

lemma parse_limits_raises [raises_only_intros]: "raises_only request_error (parse_limits v)"
proof -
  have "raises_only request_error (case m of PBool b \<Rightarrow> Inr (f b) | _ \<Rightarrow> Inl (BridgeError c))"
    for m and f :: "bool \<Rightarrow> limits" and c
    by (cases m) (simp_all add: raises_only_def)
  note r = this
  show ?thesis
    unfolding parse_limits_def by (cases v; simp; (intro raises_only_intros r)?; simp)
qed

lemma parse_deadline_values_raises [raises_only_intros]:
  "raises_only request_error (parse_deadline_values d)"
proof -
  have r: "(\<And>s. raises_only request_error (f s)) \<Longrightarrow>
      raises_only request_error (case v of PStr s \<Rightarrow> f s | _ \<Rightarrow> Inl (BridgeError c))"
    for v and f :: "pystr \<Rightarrow> deadline_values result" and c
    by (cases v) (simp_all add: raises_only_def)
  show ?thesis
    unfolding parse_deadline_values_def by (intro raises_only_intros r; simp)
qed

lemma request_of_dict_raises: "raises_only request_error (request_of_dict raw d b)"
proof -
  have r: "(\<And>s. raises_only request_error (f s)) \<Longrightarrow>
      raises_only request_error (case v of PStr s \<Rightarrow> f s | _ \<Rightarrow> Inl (BridgeError c))"
    "(\<And>i. raises_only request_error (g i)) \<Longrightarrow>
      raises_only request_error (case v of PInt i \<Rightarrow> g i | _ \<Rightarrow> Inl (BridgeError c))"
    for v and f :: "pystr \<Rightarrow> tool_request result" and g :: "int \<Rightarrow> tool_request result" and c
    by (cases v; simp add: raises_only_def)+
  show ?thesis
    unfolding request_of_dict_def by (intro raises_only_intros r; simp)
qed

section \<open>A sample request\<close>

definition sample_limits :: limits where
  "sample_limits = \<lparr>arguments_cap_bytes = 65536, max_path_bytes = 4096,
     max_read_or_write_bytes = 65536, max_directory_entries = 100, max_grep_matches = 100,
     max_replacements = 100, max_background_processes = 4, process_spool_bytes_per_process = 65536,
     process_spool_bytes_per_run = 262144, background_output_wait_max_ms = 1000,
     read_file_media_enabled = False\<rparr>"

text \<open>A foreground command under the sample receipt, whose digest is the argument.\<close>

definition sample_request :: "pystr \<Rightarrow> tool_request" where
  "sample_request digest = \<lparr>tr_raw_json = [], tr_seq = 0, tr_run_id = ''run'', tr_trial_id = ''trial'',
     tr_attempt_id = ''attempt'', tr_call_id = ''call'', tr_tool_name = ''run_terminal_command'',
     tr_arguments_json = ''{}'', tr_arguments = [], tr_logical_cwd = ''/'', tr_timeout_ms = 1000,
     tr_term_grace_ms = 100, tr_kill_confirmation_timeout_ms = 100, tr_stdout_cap_bytes = 65536,
     tr_stderr_cap_bytes = 65536, tr_limits = sample_limits, tr_schema_version = live_schema,
     tr_deadline = live_deadline 25000000001 digest\<rparr>"

lemma sample_text [simp]:
  "text_ok 256 ''run''" "text_ok 256 ''trial''" "text_ok 256 ''attempt''" "text_ok 256 ''call''"
  by (simp_all add: text_ok_def ord_of_def)

lemma sample_request_ok:
  assumes "is_sha256_hex digest"
  shows "request_ok (sample_request digest)"
proof -
  have "strict_json_object ''{}'' = Inr []"
    by (rule strict_json_dumps) simp_all
  moreover have "cwd_ok ''/''"
    by (simp add: cwd_ok_def path_str_def path_parts_def path_root_def path_tail_def)
  moreover have "deadline_values_ok live_schema (live_deadline 25000000001 digest)"
    using assms exI [of "\<lambda>a. \<exists>digest'. live_deadline 25000000001 digest = live_deadline a digest'
      \<and> 0 < a \<and> a + 75000000000 \<le> u64_max \<and> is_sha256_hex digest'" 25000000001]
    by (auto simp: deadline_values_ok_def u64_max_def)
  ultimately show ?thesis
    by (simp add: request_ok_def sample_request_def tool_names_def limits_ok_def sample_limits_def
        positive_int_ok_def)
qed

lemma esc_len_sha256: "is_sha256_hex digest \<Longrightarrow> esc_len digest = 64"
  by (subst esc_len_plain) (auto simp: is_sha256_hex_def is_lower_hex_def is_digit_def list_all_iff)

lemma sample_line_bound:
  assumes "is_sha256_hex digest"
  shows "dump_bound (PDict (request_as_dict (sample_request digest))) < max_request_line_bytes"
  by (simp add: request_as_dict_def sample_request_def deadline_values_as_dict_def live_deadline_def
      limits_as_dict_def sample_limits_def environment_dict_def remote_environment_allowlist_def
      opt_int_def opt_str_def esc_len_sha256 [OF assms] json_escape_def ord_of_def live_schema_def
      max_request_line_bytes_def nat_repr.simps)

lemma live_binding_iff:
  assumes "request_ok q" and "receipt_ok r"
  shows "validate_live_request_binding q r = Inr () \<longleftrightarrow>
    has_absolute_deadline q \<and> tr_run_id q = rcp_run_id r \<and> tr_trial_id q = rcp_trial_id r
    \<and> tr_attempt_id q = rcp_attempt_id r \<and> rcp_reserves r = default_reserves
    \<and> dv_actor_done (tr_deadline q) = Some (actor_done_ns (rcp_cutoffs r))
    \<and> (\<exists>b. receipt_to_bytes r = Inr b \<and> dv_receipt_sha256 (tr_deadline q) = Some (sha256_hex b))"
    (is "?lhs \<longleftrightarrow> ?rhs")
proof (cases "has_absolute_deadline q")
  case True
  obtain a digest where dv: "tr_deadline q = live_deadline a digest"
    using live_request_stages [OF assms(1) True] by blast
  obtain b where b: "receipt_to_bytes r = Inr b" using receipt_from_bytes_canonical [OF assms(2)] by blast
  have c: "rcp_cutoffs r = derived (rcp_deadline r) (rcp_reserves r)" by (rule receipt_ok_cutoffs [OF assms(2)])
  show ?thesis
    using True b unfolding validate_live_request_binding_def receipt_sha256_def dv c derived_def
    by (cases "rcp_reserves r")
      (auto simp: live_deadline_def has_absolute_deadline_def Let_def default_reserves_def ns_per_ms_def)
next
  case False
  then show ?thesis
    by (auto simp: validate_live_request_binding_def rbind_Inr_iff has_absolute_deadline_def)
qed

lemma sample_binding:
  assumes "receipt_to_bytes sample_receipt = Inr b"
  shows "validate_live_request_binding (sample_request (sha256_hex b)) sample_receipt = Inr ()"
proof -
  have "request_ok (sample_request (sha256_hex b))" by (rule sample_request_ok) simp
  from live_binding_iff [OF this sample_receipt_ok] assms show ?thesis
    by (simp add: sample_request_def sample_receipt_def has_absolute_deadline_def live_deadline_def
        derived_def sample_deadline_def default_reserves_def ns_per_ms_def)
qed

text \<open>The line of the sample request.\<close>

lemma sample_line:
  assumes "is_sha256_hex digest"
  obtains t where "parse_tool_request t b = Inr ((sample_request digest)\<lparr>tr_raw_json := t\<rparr>)"
    "length t < max_request_line_bytes"
proof -
  have s: "tr_seq (sample_request digest) \<le> u64_max" "valid_utf8 (tr_logical_cwd (sample_request digest))"
    "tr_schema_version (sample_request digest) = live_schema \<or> b"
    by (simp_all add: sample_request_def u64_max_def ord_of_def)
  note ok = sample_request_ok [OF assms]
  obtain t where t: "json_dumps (PDict (request_as_dict (sample_request digest))) = Some t"
    using request_dict_writable(3) [OF ok s(1,2)] dumpable_iff(1) by blast
  then have "length t < max_request_line_bytes"
    using length_dumps(1) [OF t] sample_line_bound [OF assms] by simp
  with parse_line [OF ok s t] that show thesis by simp
qed

section \<open>Properties\<close>

text \<open>
  C18: the settlement reserve divides into six stages that follow one another: each lasts at
  least a millisecond, the first starts when the actor is done, and the last ends exactly at the
  tool-settled cutoff, on the 64-bit clock.
\<close>

theorem derive_stages_partition:
  assumes "derive_stages actor_done tool_settled reserve_ms = Inr st"
  shows "strictly_increasing (actor_done # stage_values st)
    \<and> probe_ns st - actor_done \<ge> 1000000 \<and> output_ns st - probe_ns st \<ge> 1000000
    \<and> encode_ns st - output_ns st \<ge> 1000000 \<and> drain_ns st - encode_ns st \<ge> 1000000
    \<and> parse_ns st - drain_ns st \<ge> 1000000 \<and> history_commit_ns st - parse_ns st \<ge> 1000000
    \<and> history_commit_ns st = tool_settled \<and> tool_settled \<le> u64_max"
proof -
  define w where "w = tool_settled - actor_done"
  define d1 d2 d3 d4 d5 where d: "d1 = w * 1 div 6" "d2 = w * 2 div 6" "d3 = w * 3 div 6"
    "d4 = w * 4 div 6" "d5 = w * 5 div 6"
  have st: "st = stages_at actor_done w" and "w = reserve_ms * 1000000" and "6 \<le> reserve_ms"
    and t: "tool_settled \<le> u64_max"
    using assms unfolding derive_stages_Inr w_def by blast+
  then have w: "6000000 \<le> w" by linarith
  have widths: "1000000 \<le> d1" "1000000 \<le> d2 - d1" "1000000 \<le> d3 - d2" "1000000 \<le> d4 - d3"
    "1000000 \<le> d5 - d4" "1000000 \<le> w - d5"
    unfolding d by (rule stage_width; use w in simp)+
  have st': "st = \<lparr>probe_ns = actor_done + d1, output_ns = actor_done + d2, encode_ns = actor_done + d3,
      drain_ns = actor_done + d4, parse_ns = actor_done + d5, history_commit_ns = actor_done + w\<rparr>"
    unfolding st stages_at_def d ..
  show ?thesis using widths t unfolding st' stage_values_def by (simp add: w_def)
qed

theorem derive_stages_partition_witness:
  "derive_stages 25000000001 35000000001 10000 = Inr (stages_at 25000000001 10000000000)
   \<and> history_commit_ns (stages_at 25000000001 10000000000) = 35000000001"
proof -
  have "derive_stages 25000000001 35000000001 10000 = Inr (stages_at 25000000001 10000000000)"
    by (simp add: derive_stages_Inr u64_max_def)
  from this derive_stages_partition [OF this] show ?thesis by simp
qed

text \<open>
  C26: what the bridge accepts as a request is well formed in every field, keeps the very line it
  was read from, and, on a live connection, carries exact cutoffs for the frozen reserves, from
  which the settlement stages can always be derived.
\<close>

theorem parsed_request_sound:
  assumes "parse_tool_request raw allow_legacy = Inr q"
  shows "request_ok q \<and> tr_raw_json q = raw \<and> request_sha256 q = sha256_hex raw
    \<and> (if has_absolute_deadline q
       then \<exists>a st. dv_actor_done (tr_deadline q) = Some a
          \<and> dv_hard_deadline (tr_deadline q) = Some (a + total_ms default_reserves * ns_per_ms)
          \<and> settlement_stages q = Inr (Some st) \<and> strictly_increasing (a # stage_values st)
          \<and> dv_tool_settled (tr_deadline q) = Some (history_commit_ns st)
       else allow_legacy \<and> settlement_stages q = Inr None)"
proof (cases "has_absolute_deadline q")
  case True
  note p = parse_tool_request_Inr [OF assms]
  obtain a digest where "tr_deadline q = live_deadline a digest"
    "settlement_stages q = Inr (Some (stages_at a 10000000000))"
    using live_request_stages [OF p(1) True] by blast
  then show ?thesis
    using p(1,2) True stages_at_increasing [of 10000000000 a]
    by (simp add: request_sha256_def live_deadline_def total_ms_default ns_per_ms_def stages_at_def)
next
  case False
  then show ?thesis
    using parse_tool_request_Inr [OF assms]
    by (simp add: request_sha256_def has_absolute_deadline_def settlement_stages_def)
qed

theorem parsed_request_sound_witness:
  "\<exists>raw q. parse_tool_request raw False = Inr q \<and> request_ok q \<and> tr_raw_json q = raw"
proof -
  obtain t where t: "parse_tool_request t False = Inr ((sample_request (replicate 64 (CHR ''0'')))\<lparr>tr_raw_json := t\<rparr>)"
    by (rule sample_line [OF sample_spec])
  from parsed_request_sound [OF t] t show ?thesis by blast
qed




text \<open>
  C5: a request is bound to the deadline receipt of its run exactly when it is live, names the
  same run, trial and attempt, carries the receipt's digest and stops work at the receipt's first
  cutoff; and only a receipt with the frozen reserves can be bound at all.
\<close>

theorem live_binding_exact:
  assumes "request_ok q" and "receipt_ok r"
  shows "validate_live_request_binding q r = Inr () \<longleftrightarrow>
    has_absolute_deadline q \<and> tr_run_id q = rcp_run_id r \<and> tr_trial_id q = rcp_trial_id r
    \<and> tr_attempt_id q = rcp_attempt_id r \<and> rcp_reserves r = default_reserves
    \<and> dv_actor_done (tr_deadline q) = Some (actor_done_ns (rcp_cutoffs r))
    \<and> (\<exists>b. receipt_to_bytes r = Inr b \<and> dv_receipt_sha256 (tr_deadline q) = Some (sha256_hex b))"
  by (rule live_binding_iff [OF assms])

theorem live_binding_exact_witness:
  "\<exists>b. receipt_to_bytes sample_receipt = Inr b
    \<and> validate_live_request_binding (sample_request (sha256_hex b)) sample_receipt = Inr ()
    \<and> dv_receipt_sha256 (tr_deadline (sample_request (sha256_hex b))) = Some (sha256_hex b)"
proof -
  obtain b where b: "receipt_to_bytes sample_receipt = Inr b"
    using receipt_from_bytes_canonical [OF sample_receipt_ok] by blast
  have "request_ok (sample_request (sha256_hex b))" by (rule sample_request_ok) simp
  from live_binding_exact [OF this sample_receipt_ok] sample_binding [OF b] b show ?thesis by auto
qed

end
