(* ===== verification/Actor_Receipt.thy ===== *)
theory Actor_Receipt
  imports Bridge_Request
begin

text \<open>
  Terminal actor receipts (\<open>adapter/stdio_bridge.py\<close>): the typed evidence that a foreground
  command's outcome carries, its digest, the rule table that says which phase, origin and
  recovery a receipt may have, and the results of a tool (\<open>ToolExecution\<close>, \<open>ToolFailure\<close>).

  The fields are typed here, so the \<open>isinstance\<close> and \<open>type(...) is\<close> tests of the code, which
  guard against untyped callers, hold by construction.
\<close>

section \<open>Closed vocabularies\<close>

datatype process_disposition =
  NO_PROCESS | FOREGROUND_CLEANED | BACKGROUND_RETAINED | BACKGROUND_TERMINATED

fun disposition_value :: "process_disposition \<Rightarrow> pystr" where
  "disposition_value NO_PROCESS = ''no_process''"
| "disposition_value FOREGROUND_CLEANED = ''foreground_cleaned''"
| "disposition_value BACKGROUND_RETAINED = ''background_retained''"
| "disposition_value BACKGROUND_TERMINATED = ''background_terminated''"

datatype background_start_kind = NOT_STARTED | QUICK_EXIT

fun start_kind_value :: "background_start_kind \<Rightarrow> pystr" where
  "start_kind_value NOT_STARTED = ''not_started''"
| "start_kind_value QUICK_EXIT = ''quick_exit''"

definition background_start_proof_version :: pystr where
  "background_start_proof_version = ''background-start-no-id-proof-v1''"

record background_start_observation =
  bo_proof_version :: pystr
  bo_kind :: background_start_kind
  bo_task_id_published :: bool
  bo_child_exit_code :: "int option"

datatype actor_phase =
    MAPPING_PREFLIGHT | REMOTE_SETUP | COMMAND_UPLOAD | REMOTE_EXEC | RECOVERY_DOWNLOAD
  | RESULT_DOWNLOAD | META_VALIDATE | CLEANUP | CENSUS | ACTOR_DONE

fun phase_value :: "actor_phase \<Rightarrow> pystr" where
  "phase_value MAPPING_PREFLIGHT = ''mapping_preflight''"
| "phase_value REMOTE_SETUP = ''remote_setup''"
| "phase_value COMMAND_UPLOAD = ''command_upload''"
| "phase_value REMOTE_EXEC = ''remote_exec''"
| "phase_value RECOVERY_DOWNLOAD = ''recovery_download''"
| "phase_value RESULT_DOWNLOAD = ''result_download''"
| "phase_value META_VALIDATE = ''meta_validate''"
| "phase_value CLEANUP = ''cleanup''"
| "phase_value CENSUS = ''census''"
| "phase_value ACTOR_DONE = ''actor_done''"

datatype actor_origin = SEMANTIC | TRANSPORT | PROTOCOL | ACTOR

fun origin_value :: "actor_origin \<Rightarrow> pystr" where
  "origin_value SEMANTIC = ''semantic''"
| "origin_value TRANSPORT = ''transport''"
| "origin_value PROTOCOL = ''protocol''"
| "origin_value ACTOR = ''actor''"

datatype actor_subtype =
    COMPLETED | SEMANTIC_EXECUTION_TIMED_OUT | ACTOR_DEADLINE_EXCEEDED
  | WORKSPACE_MAPPING_CHECK_TIMEOUT | WORKSPACE_MAPPING_CHANGED | REQUEST_SETUP_FAILED
  | COMMAND_UPLOAD_FAILED | RUN_TRANSPORT_TIMEOUT | RUN_TRANSPORT_FAILED | RUN_RESPONSE_NONZERO
  | RECOVERED_SETTLED | RECOVERY_DOWNLOAD_FAILED | META_INVALID | OUTPUT_DOWNLOAD_FAILED
  | OUTPUT_LIMIT_EXCEEDED | CLEANUP_UNVERIFIED | CANCELLED | UNEXPECTED_FAILURE

fun subtype_value :: "actor_subtype \<Rightarrow> pystr" where
  "subtype_value COMPLETED = ''completed''"
| "subtype_value SEMANTIC_EXECUTION_TIMED_OUT = ''semantic_execution_timed_out''"
| "subtype_value ACTOR_DEADLINE_EXCEEDED = ''actor_deadline_exceeded''"
| "subtype_value WORKSPACE_MAPPING_CHECK_TIMEOUT = ''workspace_mapping_check_timeout''"
| "subtype_value WORKSPACE_MAPPING_CHANGED = ''workspace_mapping_changed''"
| "subtype_value REQUEST_SETUP_FAILED = ''request_setup_failed''"
| "subtype_value COMMAND_UPLOAD_FAILED = ''command_upload_failed''"
| "subtype_value RUN_TRANSPORT_TIMEOUT = ''run_transport_timeout''"
| "subtype_value RUN_TRANSPORT_FAILED = ''run_transport_failed''"
| "subtype_value RUN_RESPONSE_NONZERO = ''run_response_nonzero''"
| "subtype_value RECOVERED_SETTLED = ''recovered_settled''"
| "subtype_value RECOVERY_DOWNLOAD_FAILED = ''recovery_download_failed''"
| "subtype_value META_INVALID = ''meta_invalid''"
| "subtype_value OUTPUT_DOWNLOAD_FAILED = ''output_download_failed''"
| "subtype_value OUTPUT_LIMIT_EXCEEDED = ''output_limit_exceeded''"
| "subtype_value CLEANUP_UNVERIFIED = ''cleanup_unverified''"
| "subtype_value CANCELLED = ''cancelled''"
| "subtype_value UNEXPECTED_FAILURE = ''unexpected_failure''"

section \<open>Receipts\<close>

definition actor_receipt_schema :: pystr where
  "actor_receipt_schema = ''terminal-actor-receipt-v1''"

record actor_receipt =
  ar_schema_version :: pystr
  ar_phase :: actor_phase
  ar_origin :: actor_origin
  ar_primary_subtype :: actor_subtype
  ar_recovery_subtype :: "actor_subtype option"
  ar_execution_may_have_started :: bool
  ar_effective_cutoff_ns :: int
  ar_cleanup_verified :: "bool option"
  ar_census_verified :: "bool option"
  ar_digest :: pystr

definition opt_bool :: "bool option \<Rightarrow> pyval" where
  "opt_bool x = (case x of None \<Rightarrow> PNone | Some b \<Rightarrow> PBool b)"

definition diagnostic_value :: "actor_receipt \<Rightarrow> pydict" where
  "diagnostic_value r =
     [(''schema_version'', PStr (ar_schema_version r)),
      (''phase'', PStr (phase_value (ar_phase r))),
      (''origin'', PStr (origin_value (ar_origin r))),
      (''primary_subtype'', PStr (subtype_value (ar_primary_subtype r))),
      (''recovery_subtype'', opt_str (map_option subtype_value (ar_recovery_subtype r))),
      (''execution_may_have_started'', PBool (ar_execution_may_have_started r)),
      (''effective_cutoff_monotonic_ns'', PInt (ar_effective_cutoff_ns r)),
      (''cleanup_verified'', opt_bool (ar_cleanup_verified r)),
      (''census_verified'', opt_bool (ar_census_verified r))]"

text \<open>
  \<open>json.dumps(value, ensure_ascii=False, separators=(",", ":"), sort_keys=...).encode("utf-8")\<close>.
\<close>

definition json_bytes :: "bool \<Rightarrow> pyval \<Rightarrow> bytes result" where
  "json_bytes sorted_keys v =
     (case json_dumps (if sorted_keys then sort_keys v else v) of
        None \<Rightarrow> Inl (ValueError ''json'')
      | Some t \<Rightarrow> py_encode t)"

definition create_receipt ::
  "actor_phase \<Rightarrow> actor_origin \<Rightarrow> actor_subtype \<Rightarrow> actor_subtype option \<Rightarrow> bool \<Rightarrow> int \<Rightarrow> bool option
     \<Rightarrow> bool option \<Rightarrow> actor_receipt result" where
  "create_receipt phase origin primary recovery started cutoff cleanup census =
     (let r = \<lparr>ar_schema_version = actor_receipt_schema, ar_phase = phase, ar_origin = origin,
               ar_primary_subtype = primary, ar_recovery_subtype = recovery,
               ar_execution_may_have_started = started, ar_effective_cutoff_ns = cutoff,
               ar_cleanup_verified = cleanup, ar_census_verified = census, ar_digest = []\<rparr>
      in rbind (json_bytes True (PDict (diagnostic_value r))) (\<lambda>b.
           Inr (r\<lparr>ar_digest := sha256_hex b\<rparr>)))"

definition receipt_dict :: "actor_receipt \<Rightarrow> pydict" where
  "receipt_dict r = diagnostic_value r @ [(''diagnostic_digest_sha256'', PStr (ar_digest r))]"

definition with_containment ::
  "actor_receipt \<Rightarrow> actor_phase option \<Rightarrow> bool option \<Rightarrow> bool option \<Rightarrow> actor_receipt result" where
  "with_containment r phase cleanup census =
     create_receipt (case phase of None \<Rightarrow> ar_phase r | Some p \<Rightarrow> p) (ar_origin r)
       (ar_primary_subtype r) (ar_recovery_subtype r) (ar_execution_may_have_started r)
       (ar_effective_cutoff_ns r) cleanup census"

section \<open>Results of a tool\<close>

record media_payload =
  mp_logical_path :: pystr
  mp_mime_type :: pystr
  mp_width :: int
  mp_height :: int
  mp_source_byte_length :: int
  mp_source_sha256 :: pystr
  mp_canonical_byte_length :: int
  mp_canonical_sha256 :: pystr
  mp_content :: bytes

record tool_execution =
  te_return_code :: int
  te_timed_out :: bool
  te_stdout :: bytes
  te_stderr :: bytes
  te_stdout_truncated :: bool
  te_stderr_truncated :: bool
  te_cleanup_attempted :: bool
  te_term_sent :: bool
  te_kill_sent :: bool
  te_cleanup_verified :: bool
  te_census_verified :: bool
  te_survivor_count :: int
  te_process_disposition :: process_disposition
  te_target_task_id :: "pystr option"
  te_media :: "media_payload option"
  te_wait_clamped :: bool
  te_wait_reason :: "pystr option"
  te_background_start_observation :: "background_start_observation option"
  te_actor_receipt :: "actor_receipt option"

record tool_failure =
  tf_code :: pystr
  tf_execution_may_have_started :: bool
  tf_cleanup_verified :: "bool option"
  tf_census_verified :: "bool option"
  tf_actor_receipt :: "actor_receipt option"

datatype tool_result = Execution tool_execution | Failure tool_failure

fun result_receipt :: "tool_result \<Rightarrow> actor_receipt option" where
  "result_receipt (Execution x) = te_actor_receipt x"
| "result_receipt (Failure f) = tf_actor_receipt f"

text \<open>\<open>result.cleanup_verified\<close> and \<open>result.census_verified\<close>, which both classes have.\<close>

fun result_cleanup :: "tool_result \<Rightarrow> bool option" where
  "result_cleanup (Execution x) = Some (te_cleanup_verified x)"
| "result_cleanup (Failure f) = tf_cleanup_verified f"

fun result_census :: "tool_result \<Rightarrow> bool option" where
  "result_census (Execution x) = Some (te_census_verified x)"
| "result_census (Failure f) = tf_census_verified f"

section \<open>The rule table\<close>

definition recovery_receipt_subtypes :: "actor_subtype list" where
  "recovery_receipt_subtypes =
     [RECOVERED_SETTLED, RECOVERY_DOWNLOAD_FAILED, META_INVALID, OUTPUT_DOWNLOAD_FAILED,
      OUTPUT_LIMIT_EXCEEDED, CLEANUP_UNVERIFIED, ACTOR_DEADLINE_EXCEEDED]"

definition recovery_primary_subtypes :: "actor_subtype list" where
  "recovery_primary_subtypes = [RUN_TRANSPORT_TIMEOUT, RUN_TRANSPORT_FAILED, RUN_RESPONSE_NONZERO]"

definition all_phases :: "actor_phase list" where
  "all_phases = [MAPPING_PREFLIGHT, REMOTE_SETUP, COMMAND_UPLOAD, REMOTE_EXEC, RECOVERY_DOWNLOAD,
     RESULT_DOWNLOAD, META_VALIDATE, CLEANUP, CENSUS, ACTOR_DONE]"

fun primary_receipt_rule :: "actor_subtype \<Rightarrow> (actor_phase list \<times> actor_origin list) option" where
  "primary_receipt_rule COMPLETED = Some ([META_VALIDATE], [ACTOR])"
| "primary_receipt_rule SEMANTIC_EXECUTION_TIMED_OUT = Some ([META_VALIDATE], [SEMANTIC])"
| "primary_receipt_rule ACTOR_DEADLINE_EXCEEDED = Some (all_phases, [ACTOR])"
| "primary_receipt_rule WORKSPACE_MAPPING_CHECK_TIMEOUT = Some ([MAPPING_PREFLIGHT], [TRANSPORT])"
| "primary_receipt_rule WORKSPACE_MAPPING_CHANGED = Some ([MAPPING_PREFLIGHT], [PROTOCOL])"
| "primary_receipt_rule REQUEST_SETUP_FAILED = Some ([REMOTE_SETUP, CLEANUP], [PROTOCOL, TRANSPORT])"
| "primary_receipt_rule COMMAND_UPLOAD_FAILED = Some ([COMMAND_UPLOAD, CLEANUP], [TRANSPORT])"
| "primary_receipt_rule RUN_TRANSPORT_TIMEOUT = Some ([RECOVERY_DOWNLOAD, META_VALIDATE, CLEANUP], [TRANSPORT])"
| "primary_receipt_rule RUN_TRANSPORT_FAILED = Some ([RECOVERY_DOWNLOAD, META_VALIDATE, CLEANUP], [TRANSPORT])"
| "primary_receipt_rule RUN_RESPONSE_NONZERO = Some ([RECOVERY_DOWNLOAD, META_VALIDATE, CLEANUP], [PROTOCOL])"
| "primary_receipt_rule META_INVALID = Some ([META_VALIDATE, CLEANUP], [PROTOCOL])"
| "primary_receipt_rule OUTPUT_DOWNLOAD_FAILED = Some ([RESULT_DOWNLOAD, CLEANUP], [TRANSPORT])"
| "primary_receipt_rule OUTPUT_LIMIT_EXCEEDED = Some ([META_VALIDATE, CLEANUP], [PROTOCOL])"
| "primary_receipt_rule CLEANUP_UNVERIFIED = Some ([CLEANUP, CENSUS], [ACTOR])"
| "primary_receipt_rule CANCELLED = Some ([CLEANUP, ACTOR_DONE], [ACTOR])"
| "primary_receipt_rule UNEXPECTED_FAILURE = Some (all_phases, [ACTOR])"
| "primary_receipt_rule RECOVERED_SETTLED = None"
| "primary_receipt_rule RECOVERY_DOWNLOAD_FAILED = None"

definition fatal_recovery_subtypes :: "actor_subtype list" where
  "fatal_recovery_subtypes = filter (\<lambda>s. s \<noteq> RECOVERED_SETTLED) recovery_receipt_subtypes"

text \<open>The guards of \<open>_validate_actor_receipt\<close>, in its order: the rule of the receipt itself, ...\<close>

definition receipt_rule_ok :: "actor_receipt \<Rightarrow> bool" where
  "receipt_rule_ok r \<longleftrightarrow>
     (case primary_receipt_rule (ar_primary_subtype r) of
        None \<Rightarrow> False
      | Some (phases, origins) \<Rightarrow> ar_phase r \<in> set phases \<and> ar_origin r \<in> set origins)
     \<and> (ar_primary_subtype r \<in> set recovery_primary_subtypes) = (ar_recovery_subtype r \<noteq> None)
     \<and> \<not> (\<not> ar_execution_may_have_started r
           \<and> (ar_cleanup_verified r \<noteq> None \<or> ar_census_verified r \<noteq> None))
     \<and> (case ar_recovery_subtype r of None \<Rightarrow> True | Some s \<Rightarrow> s \<in> set recovery_receipt_subtypes)
     \<and> \<not> (ar_phase r = RECOVERY_DOWNLOAD \<and> ar_recovery_subtype r = None)
     \<and> \<not> (ar_phase r = CLEANUP \<and> ar_cleanup_verified r = Some True)
     \<and> \<not> (ar_phase r = ACTOR_DONE
           \<and> (ar_primary_subtype r \<notin> {ACTOR_DEADLINE_EXCEEDED, CANCELLED, UNEXPECTED_FAILURE}
               \<or> ar_recovery_subtype r \<noteq> None))"

text \<open>... its agreement with an execution, ...\<close>

definition receipt_fits_execution :: "actor_receipt \<Rightarrow> tool_execution \<Rightarrow> bool" where
  "receipt_fits_execution r x \<longleftrightarrow>
     ar_execution_may_have_started r
     \<and> ar_cleanup_verified r = Some (te_cleanup_verified x)
     \<and> ar_census_verified r = Some (te_census_verified x)
     \<and> \<not> (te_timed_out x \<and> ar_recovery_subtype r = None
           \<and> (ar_origin r \<noteq> SEMANTIC \<or> ar_primary_subtype r \<noteq> SEMANTIC_EXECUTION_TIMED_OUT))
     \<and> \<not> (\<not> te_timed_out x \<and> ar_recovery_subtype r = None
           \<and> (ar_origin r \<noteq> ACTOR \<or> ar_primary_subtype r \<noteq> COMPLETED))
     \<and> \<not> (ar_recovery_subtype r = Some RECOVERED_SETTLED
           \<and> (ar_primary_subtype r \<notin> set recovery_primary_subtypes
               \<or> ar_phase r \<noteq> META_VALIDATE
               \<or> \<not> ar_execution_may_have_started r
               \<or> ar_cleanup_verified r \<noteq> Some True
               \<or> ar_census_verified r \<noteq> Some True))
     \<and> \<not> (ar_recovery_subtype r \<noteq> None \<and> ar_recovery_subtype r \<noteq> Some RECOVERED_SETTLED)"

text \<open>... or with a failure.\<close>

definition receipt_fits_failure :: "actor_receipt \<Rightarrow> tool_failure \<Rightarrow> bool" where
  "receipt_fits_failure r f \<longleftrightarrow>
     ar_execution_may_have_started r = tf_execution_may_have_started f
     \<and> ar_cleanup_verified r = tf_cleanup_verified f
     \<and> ar_census_verified r = tf_census_verified f
     \<and> ar_recovery_subtype r \<noteq> Some RECOVERED_SETTLED
     \<and> (case ar_recovery_subtype r of None \<Rightarrow> True | Some s \<Rightarrow> s \<in> set fatal_recovery_subtypes)
     \<and> ar_primary_subtype r \<notin> {COMPLETED, SEMANTIC_EXECUTION_TIMED_OUT}"

abbreviation actor_receipt_error :: py_error where
  "actor_receipt_error \<equiv> BridgeError ''external_response_actor_receipt_invalid''"

definition receipt_required :: "tool_request \<Rightarrow> bool" where
  "receipt_required q \<longleftrightarrow> tr_schema_version q = live_schema \<and> is_foreground_terminal_request q"

definition validate_actor_receipt :: "tool_request \<Rightarrow> tool_result \<Rightarrow> unit result" where
  "validate_actor_receipt q res =
     (if \<not> receipt_required q
      then ensure (result_receipt res = None) actor_receipt_error (Inr ())
      else case result_receipt res of
        None \<Rightarrow> Inl actor_receipt_error
      | Some r \<Rightarrow>
          ensure (ar_schema_version r = actor_receipt_schema
                  \<and> (case dv_actor_done (tr_deadline q) of
                       None \<Rightarrow> False
                     | Some a \<Rightarrow> 0 < ar_effective_cutoff_ns r \<and> ar_effective_cutoff_ns r \<le> a)
                  \<and> is_sha256_hex (ar_digest r)) actor_receipt_error
          (rbind (create_receipt (ar_phase r) (ar_origin r) (ar_primary_subtype r)
                    (ar_recovery_subtype r) (ar_execution_may_have_started r)
                    (ar_effective_cutoff_ns r) (ar_cleanup_verified r) (ar_census_verified r)) (\<lambda>expected.
           ensure (ar_digest expected = ar_digest r) actor_receipt_error
           (ensure (receipt_rule_ok r) actor_receipt_error
            (ensure (case res of Execution x \<Rightarrow> receipt_fits_execution r x
                     | Failure f \<Rightarrow> receipt_fits_failure r f) actor_receipt_error (Inr ()))))))"

definition encoded_actor_receipt :: "actor_receipt option \<Rightarrow> pyval" where
  "encoded_actor_receipt r = (case r of None \<Rightarrow> PNone | Some x \<Rightarrow> PDict (receipt_dict x))"

section \<open>Fallback receipts\<close>

definition fallback_actor_receipt ::
  "tool_request \<Rightarrow> bool \<Rightarrow> int option \<Rightarrow> bool option \<Rightarrow> bool option \<Rightarrow> actor_receipt option
     \<Rightarrow> actor_receipt option result" where
  "fallback_actor_receipt q started cutoff cleanup census existing =
     (if \<not> receipt_required q then Inr None
      else case existing of
        Some r \<Rightarrow> rbind (with_containment r None cleanup census) (\<lambda>r'. Inr (Some r'))
      | None \<Rightarrow>
        (case dv_actor_done (tr_deadline q) of
           None \<Rightarrow> Inr None
         | Some actor_done \<Rightarrow>
             (let cutoff_ns = (case cutoff of
                  Some c \<Rightarrow> if 0 < c \<and> c \<le> actor_done then c else actor_done
                | None \<Rightarrow> actor_done)
              in rbind (create_receipt ACTOR_DONE ACTOR UNEXPECTED_FAILURE None started cutoff_ns
                          cleanup census) (\<lambda>r'. Inr (Some r')))))"

definition tool_settlement_deadline_failure :: "tool_request \<Rightarrow> tool_failure result" where
  "tool_settlement_deadline_failure q =
     rbind (if receipt_required q then
              (case dv_actor_done (tr_deadline q) of
                 None \<Rightarrow> Inl AssertionError
               | Some actor_done \<Rightarrow>
                   rbind (create_receipt ACTOR_DONE ACTOR ACTOR_DEADLINE_EXCEEDED None True actor_done
                            None None) (\<lambda>r. Inr (Some r)))
            else Inr None) (\<lambda>receipt.
       Inr \<lparr>tf_code = ''tool_settlement_deadline_exceeded'', tf_execution_may_have_started = True,
            tf_cleanup_verified = None, tf_census_verified = None, tf_actor_receipt = receipt\<rparr>)"

text \<open>
  \<open>_valid_failure_code\<close>: one to 128 bytes of lower-case ASCII letters, digits, underscores, dots
  and dashes; asking encodes the text first, which a lone surrogate makes fail.
\<close>

definition failure_code_char :: "char \<Rightarrow> bool" where
  "failure_code_char c \<longleftrightarrow>
     97 \<le> ord_of c \<and> ord_of c \<le> 122 \<or> is_digit c \<or> c = CHR ''_'' \<or> c = CHR ''.'' \<or> c = CHR ''-''"

definition valid_failure_code :: "pystr \<Rightarrow> bool result" where
  "valid_failure_code s =
     rbind (py_encode s) (\<lambda>b.
       Inr (0 < length b \<and> length b \<le> 128 \<and> list_all failure_code_char s))"

definition fallback_serialization_failure ::
  "tool_request \<Rightarrow> tool_result \<Rightarrow> pystr \<Rightarrow> tool_failure result" where
  "fallback_serialization_failure q res code =
     (let started = (case res of Failure f \<Rightarrow> tf_execution_may_have_started f | Execution _ \<Rightarrow> True);
          existing = (case res of
              Failure f \<Rightarrow>
                if code \<noteq> ''external_response_actor_receipt_invalid'' then tf_actor_receipt f else None
            | Execution _ \<Rightarrow> None)
      in rbind (valid_failure_code code) (\<lambda>valid.
         rbind (fallback_actor_receipt q started
                  (map_option ar_effective_cutoff_ns (result_receipt res))
                  (result_cleanup res) (result_census res) existing) (\<lambda>receipt.
           Inr \<lparr>tf_code = (if valid then code else ''response_serialization_failure''),
                tf_execution_may_have_started = started,
                tf_cleanup_verified = result_cleanup res, tf_census_verified = result_census res,
                tf_actor_receipt = receipt\<rparr>)))"

section \<open>Creating receipts\<close>

lemma json_bytes_Inr: "json_bytes b v = Inr t \<longleftrightarrow> json_dumps (if b then sort_keys v else v) = Some t \<and> valid_utf8 t"
  by (auto simp: json_bytes_def split: option.splits)

lemma json_bytes_defined: "dumpable v \<Longrightarrow> strs_ok v \<Longrightarrow> \<exists>t. json_bytes b v = Inr t"
  unfolding json_bytes_Inr
  by (metis (full_types) dumpable_iff(1) dumpable_sort_keys strs_ok_sort_keys valid_utf8_json_dumps(1))

lemma valid_utf8_values [simp]:
  "valid_utf8 (phase_value p)" "valid_utf8 (origin_value u)" "valid_utf8 (subtype_value s)"
  "valid_utf8 (disposition_value d)" "valid_utf8 (start_kind_value k)" "valid_utf8 actor_receipt_schema"
  subgoal by (cases p; simp add: ord_of_def)
  subgoal by (cases u; simp add: ord_of_def)
  subgoal by (cases s; simp add: ord_of_def)
  subgoal by (cases d; simp add: ord_of_def)
  subgoal by (cases k; simp add: ord_of_def)
  subgoal by (simp add: actor_receipt_schema_def ord_of_def)
  done

lemma opt_value_ok [simp]:
  "strs_ok (opt_bool b)" "dumpable (opt_bool b)" "wf_val (opt_bool b)"
  "dumpable (opt_str t)" "wf_val (opt_str t)" "wf_val (opt_int i)" "strs_ok (opt_int i)"
  "strs_ok (opt_str (map_option subtype_value s))"
  by (auto simp: opt_bool_def opt_str_def opt_int_def split: option.splits)

text \<open>A receipt whose fields can be written: its schema and a 64-bit cutoff.\<close>

definition receipt_writable :: "actor_receipt \<Rightarrow> bool" where
  "receipt_writable r \<longleftrightarrow> ar_schema_version r = actor_receipt_schema
     \<and> 0 \<le> ar_effective_cutoff_ns r \<and> ar_effective_cutoff_ns r \<le> u64_max"

lemma diagnostic_value_ok:
  assumes "receipt_writable r"
  shows "wf_val (PDict (diagnostic_value r))" "strs_ok (PDict (diagnostic_value r))"
    "dumpable (PDict (diagnostic_value r))"
  using assms dumpable_u64 [of "ar_effective_cutoff_ns r"]
  by (simp_all add: diagnostic_value_def receipt_writable_def u64_max_def ord_of_def del: dumpable.simps(1))

lemma diagnostic_value_digest [simp]: "diagnostic_value (r\<lparr>ar_digest := d\<rparr>) = diagnostic_value r"
  by (simp add: diagnostic_value_def)

definition digest_ok :: "actor_receipt \<Rightarrow> bool" where
  "digest_ok r \<longleftrightarrow> (\<exists>b. json_bytes True (PDict (diagnostic_value r)) = Inr b \<and> ar_digest r = sha256_hex b)"

lemma create_receipt_Inr:
  "create_receipt ph og pr rc st cu cl ce = Inr r \<longleftrightarrow>
     ar_schema_version r = actor_receipt_schema \<and> ar_phase r = ph \<and> ar_origin r = og
     \<and> ar_primary_subtype r = pr \<and> ar_recovery_subtype r = rc
     \<and> ar_execution_may_have_started r = st \<and> ar_effective_cutoff_ns r = cu
     \<and> ar_cleanup_verified r = cl \<and> ar_census_verified r = ce \<and> digest_ok r"
proof -
  have "digest_ok r \<longleftrightarrow> (\<exists>b. json_bytes True (PDict (diagnostic_value (r\<lparr>ar_digest := []\<rparr>))) = Inr b
      \<and> ar_digest r = sha256_hex b)" by (simp add: digest_ok_def)
  then show ?thesis
    by (cases r) (auto simp: create_receipt_def rbind_Inr_iff)
qed

lemma create_receipt_defined:
  assumes "0 \<le> cu" and "cu \<le> u64_max"
  shows "\<exists>r. create_receipt ph og pr rc st cu cl ce = Inr r"
proof -
  let ?r = "\<lparr>ar_schema_version = actor_receipt_schema, ar_phase = ph, ar_origin = og,
    ar_primary_subtype = pr, ar_recovery_subtype = rc, ar_execution_may_have_started = st,
    ar_effective_cutoff_ns = cu, ar_cleanup_verified = cl, ar_census_verified = ce, ar_digest = []\<rparr>"
  have "receipt_writable ?r" using assms by (simp add: receipt_writable_def)
  from json_bytes_defined [OF diagnostic_value_ok(3,2) [OF this], of True]
  show ?thesis by (auto simp: create_receipt_def)
qed

lemma digest_ok_hex: "digest_ok r \<Longrightarrow> is_sha256_hex (ar_digest r)"
  by (auto simp: digest_ok_def)

text \<open>Creating a receipt from the fields of another reproduces it exactly when its digest is right.\<close>

lemma create_again:
  assumes "ar_schema_version r = actor_receipt_schema"
  shows "create_receipt (ar_phase r) (ar_origin r) (ar_primary_subtype r) (ar_recovery_subtype r)
      (ar_execution_may_have_started r) (ar_effective_cutoff_ns r) (ar_cleanup_verified r)
      (ar_census_verified r) = Inr r' \<and> ar_digest r' = ar_digest r \<longleftrightarrow> r' = r \<and> digest_ok r"
  unfolding create_receipt_Inr using assms by (cases r; cases r') auto

lemma validate_actor_receipt_required:
  assumes "receipt_required q"
  shows "validate_actor_receipt q res = Inr () \<longleftrightarrow>
    (\<exists>r a. result_receipt res = Some r \<and> dv_actor_done (tr_deadline q) = Some a
       \<and> ar_schema_version r = actor_receipt_schema
       \<and> 0 < ar_effective_cutoff_ns r \<and> ar_effective_cutoff_ns r \<le> a \<and> digest_ok r
       \<and> receipt_rule_ok r
       \<and> (case res of Execution x \<Rightarrow> receipt_fits_execution r x | Failure f \<Rightarrow> receipt_fits_failure r f))"
    (is "_ \<longleftrightarrow> ?rhs")
proof (cases "result_receipt res")
  case None
  then show ?thesis using assms by (simp add: validate_actor_receipt_def)
next
  case (Some r)
  show ?thesis
  proof (cases "ar_schema_version r = actor_receipt_schema")
    case True
    have "(\<exists>x. create_receipt (ar_phase r) (ar_origin r) (ar_primary_subtype r) (ar_recovery_subtype r)
      (ar_execution_may_have_started r) (ar_effective_cutoff_ns r) (ar_cleanup_verified r)
      (ar_census_verified r) = Inr x \<and> ar_digest x = ar_digest r \<and> P) \<longleftrightarrow> digest_ok r \<and> P" for P
      using create_again [OF True] by blast
    then show ?thesis
      using assms True Some digest_ok_hex [of r]
      by (auto simp: validate_actor_receipt_def rbind_Inr_iff split: option.splits)
  next
    case False
    then show ?thesis using assms Some by (simp add: validate_actor_receipt_def)
  qed
qed

lemma validate_actor_receipt_not_required:
  "\<not> receipt_required q \<Longrightarrow> validate_actor_receipt q res = Inr () \<longleftrightarrow> result_receipt res = None"
  by (simp add: validate_actor_receipt_def)

text \<open>On a well-formed request the check has a single error.\<close>

lemma validate_actor_receipt_error:
  assumes "request_ok q" and "validate_actor_receipt q res = Inl e"
  shows "e = actor_receipt_error"
proof (cases "receipt_required q")
  case False
  then show ?thesis using assms(2) by (simp add: validate_actor_receipt_def ensure_Inl_iff)
next
  case req: True
  then have "has_absolute_deadline q" by (simp add: receipt_required_def has_absolute_deadline_def)
  from live_request_stages [OF assms(1) this] obtain a digest where
    dv: "tr_deadline q = live_deadline a digest" "0 < a" "a + 75000000000 \<le> u64_max" by blast
  show ?thesis
  proof (cases "result_receipt res")
    case None
    then show ?thesis using assms(2) req by (simp add: validate_actor_receipt_def)
  next
    case (Some r)
    show ?thesis
    proof (cases "0 < ar_effective_cutoff_ns r \<and> ar_effective_cutoff_ns r \<le> a")
      case True
      then obtain x where "create_receipt (ar_phase r) (ar_origin r) (ar_primary_subtype r)
          (ar_recovery_subtype r) (ar_execution_may_have_started r) (ar_effective_cutoff_ns r)
          (ar_cleanup_verified r) (ar_census_verified r) = Inr x"
        using create_receipt_defined [of "ar_effective_cutoff_ns r" "ar_phase r" "ar_origin r"
            "ar_primary_subtype r" "ar_recovery_subtype r" "ar_execution_may_have_started r"
            "ar_cleanup_verified r" "ar_census_verified r"] dv(3) by auto
      then show ?thesis
        using assms(2) req Some by (auto simp: validate_actor_receipt_def ensure_Inl_iff)
    next
      case False
      then show ?thesis
        using assms(2) req Some dv(1)
        by (auto simp: validate_actor_receipt_def ensure_Inl_iff live_deadline_def)
    qed
  qed
qed

section \<open>Fallbacks validate\<close>

lemma deadline_failure_receipt:
  assumes "request_ok q"
  shows "\<exists>f. tool_settlement_deadline_failure q = Inr f \<and> validate_actor_receipt q (Failure f) = Inr ()
    \<and> tf_code f = ''tool_settlement_deadline_exceeded''
    \<and> (receipt_required q \<longrightarrow> (\<exists>r. tf_actor_receipt f = Some r \<and> receipt_writable r))"
proof (cases "receipt_required q")
  case True
  then have "has_absolute_deadline q" by (simp add: receipt_required_def has_absolute_deadline_def)
  from live_request_stages [OF assms this] obtain a digest where
    a: "tr_deadline q = live_deadline a digest" "0 < a" "a + 75000000000 \<le> u64_max" by blast
  then obtain r where r: "create_receipt ACTOR_DONE ACTOR ACTOR_DEADLINE_EXCEEDED None True a None None = Inr r"
    using create_receipt_defined [of a ACTOR_DONE ACTOR ACTOR_DEADLINE_EXCEEDED None True None None]
    by auto
  then have fields: "ar_schema_version r = actor_receipt_schema" "ar_phase r = ACTOR_DONE" "ar_origin r = ACTOR"
    "ar_primary_subtype r = ACTOR_DEADLINE_EXCEEDED" "ar_recovery_subtype r = None"
    "ar_execution_may_have_started r" "ar_effective_cutoff_ns r = a" "ar_cleanup_verified r = None"
    "ar_census_verified r = None" "digest_ok r"
    unfolding create_receipt_Inr by simp_all
  have "receipt_rule_ok r"
    by (simp add: receipt_rule_ok_def fields all_phases_def recovery_primary_subtypes_def)
  moreover have "dv_actor_done (tr_deadline q) = Some a" by (simp add: a live_deadline_def)
  ultimately show ?thesis
    using True r a(2,3) fields
    by (auto simp: tool_settlement_deadline_failure_def validate_actor_receipt_required
        receipt_fits_failure_def receipt_writable_def)
next
  case False
  then show ?thesis
    by (simp add: tool_settlement_deadline_failure_def validate_actor_receipt_not_required)
qed

text \<open>A fresh fallback receipt for a failure with the given containment.\<close>

lemma fallback_receipt_fresh:
  assumes "request_ok q" and "receipt_required q" and "started \<or> cleanup = None \<and> census = None"
  shows "\<exists>r. fallback_actor_receipt q started cutoff cleanup census None = Inr (Some r)
    \<and> receipt_writable r
    \<and> validate_actor_receipt q (Failure \<lparr>tf_code = code, tf_execution_may_have_started = started,
        tf_cleanup_verified = cleanup, tf_census_verified = census, tf_actor_receipt = Some r\<rparr>) = Inr ()"
proof -
  have "has_absolute_deadline q" using assms(2) by (simp add: receipt_required_def has_absolute_deadline_def)
  from live_request_stages [OF assms(1) this] obtain a digest where
    a: "tr_deadline q = live_deadline a digest" "0 < a" "a + 75000000000 \<le> u64_max" by blast
  define c where "c = (case cutoff of Some c \<Rightarrow> if 0 < c \<and> c \<le> a then c else a | None \<Rightarrow> a)"
  have c: "0 < c" "c \<le> a" using a(2) by (auto simp: c_def split: option.splits)
  then obtain r where r: "create_receipt ACTOR_DONE ACTOR UNEXPECTED_FAILURE None started c cleanup census = Inr r"
    using create_receipt_defined [of c ACTOR_DONE ACTOR UNEXPECTED_FAILURE None started cleanup census] a(3)
    by auto
  then have fields: "ar_schema_version r = actor_receipt_schema" "ar_phase r = ACTOR_DONE" "ar_origin r = ACTOR"
    "ar_primary_subtype r = UNEXPECTED_FAILURE" "ar_recovery_subtype r = None"
    "ar_execution_may_have_started r = started" "ar_effective_cutoff_ns r = c"
    "ar_cleanup_verified r = cleanup" "ar_census_verified r = census" "digest_ok r"
    unfolding create_receipt_Inr by simp_all
  have "receipt_rule_ok r" using assms(3)
    by (auto simp: receipt_rule_ok_def fields all_phases_def recovery_primary_subtypes_def)
  moreover have ad: "dv_actor_done (tr_deadline q) = Some a" by (simp add: a live_deadline_def)
  moreover have "fallback_actor_receipt q started cutoff cleanup census None = Inr (Some r)"
    using assms(2) r ad by (simp add: fallback_actor_receipt_def c_def Let_def)
  ultimately show ?thesis
    using assms(2) a(3) c fields
    by (auto simp: validate_actor_receipt_required receipt_fits_failure_def receipt_writable_def)
qed

lemma with_containment_same:
  assumes "ar_schema_version r = actor_receipt_schema" and "digest_ok r"
  shows "with_containment r None (ar_cleanup_verified r) (ar_census_verified r) = Inr r"
  using create_again [OF assms(1), of r] assms(2) by (simp add: with_containment_def)

lemma valid_failure_code_ascii: "list_all failure_code_char s \<Longrightarrow> valid_utf8 s"
  by (rule valid_utf8_ascii) (auto simp: list_all_iff failure_code_char_def is_digit_def ord_of_def)

text \<open>
  The failure that replaces a result whose encoding failed carries a receipt the bridge itself
  accepts. The result was refused for its receipt, or was an execution, or its receipt is kept.
\<close>

lemma fallback_failure_validates:
  assumes q: "request_ok q" and code: "valid_utf8 code"
    and started: "case res of Execution _ \<Rightarrow> True
      | Failure f \<Rightarrow> tf_execution_may_have_started f \<or> tf_cleanup_verified f = None \<and> tf_census_verified f = None"
    and valid: "case res of Execution _ \<Rightarrow> True
      | Failure f \<Rightarrow> code = ''external_response_actor_receipt_invalid'' \<or> validate_actor_receipt q res = Inr ()"
  shows "\<exists>f. fallback_serialization_failure q res code = Inr f \<and> validate_actor_receipt q (Failure f) = Inr ()
    \<and> (receipt_required q \<longrightarrow> (\<exists>r. tf_actor_receipt f = Some r \<and> receipt_writable r))
    \<and> valid_failure_code (tf_code f) = Inr True"
proof -
  obtain v where v: "valid_failure_code code = Inr v" using code by (simp add: valid_failure_code_def py_encode_def)
  define code' where "code' = (if v then code else ''response_serialization_failure'')"
  have code': "valid_failure_code code' = Inr True"
    using v
    by (simp add: code'_def valid_failure_code_def failure_code_char_def ord_of_def is_digit_def rbind_Inr_iff)
  let ?st = "case res of Failure f \<Rightarrow> tf_execution_may_have_started f | Execution _ \<Rightarrow> True"
  let ?ex = "case res of Failure f \<Rightarrow>
      if code \<noteq> ''external_response_actor_receipt_invalid'' then tf_actor_receipt f else None
    | Execution _ \<Rightarrow> None"
  let ?fb = "fallback_actor_receipt q ?st (map_option ar_effective_cutoff_ns (result_receipt res))
      (result_cleanup res) (result_census res) ?ex"
  let ?f = "\<lambda>r. \<lparr>tf_code = code', tf_execution_may_have_started = ?st,
      tf_cleanup_verified = result_cleanup res, tf_census_verified = result_census res,
      tf_actor_receipt = r\<rparr>"
  have "\<exists>r. ?fb = Inr r \<and> validate_actor_receipt q (Failure (?f r)) = Inr ()
      \<and> (receipt_required q \<longrightarrow> (\<exists>x. r = Some x \<and> receipt_writable x))"
  proof (cases "receipt_required q")
    case False
    then show ?thesis by (simp add: fallback_actor_receipt_def validate_actor_receipt_not_required)
  next
    case req: True
    have "?st \<or> result_cleanup res = None \<and> result_census res = None"
      using started by (cases res) auto
    from fallback_receipt_fresh [OF q req this] have fresh: ?thesis if "?ex = None"
      unfolding that by blast
    show ?thesis
    proof (cases ?ex)
      case None
      then show ?thesis by (rule fresh)
    next
      case (Some r)
      then obtain f where f: "res = Failure f" "tf_actor_receipt f = Some r"
        "code \<noteq> ''external_response_actor_receipt_invalid''"
        by (cases res) (auto split: if_splits)
      obtain a where a: "dv_actor_done (tr_deadline q) = Some a" "ar_schema_version r = actor_receipt_schema"
        "0 < ar_effective_cutoff_ns r" "ar_effective_cutoff_ns r \<le> a" "digest_ok r" "receipt_rule_ok r"
        "receipt_fits_failure r f"
        using valid f req by (auto simp: validate_actor_receipt_required)
      have fits: "ar_cleanup_verified r = tf_cleanup_verified f" "ar_census_verified r = tf_census_verified f"
        using a(7) by (simp_all add: receipt_fits_failure_def)
      have "has_absolute_deadline q" using req by (simp add: receipt_required_def has_absolute_deadline_def)
      from live_request_stages [OF q this] obtain a' digest where
        "tr_deadline q = live_deadline a' digest" "a' + 75000000000 \<le> u64_max" by blast
      with a(1) have "a \<le> u64_max" by (simp add: live_deadline_def)
      then have "receipt_writable r" using a by (simp add: receipt_writable_def)
      moreover have "?fb = Inr (Some r)"
        using with_containment_same [OF a(2,5)] f req fits by (simp add: fallback_actor_receipt_def)
      moreover have "receipt_fits_failure r (?f (Some r))"
        using a(7) f(1) by (simp add: receipt_fits_failure_def)
      ultimately show ?thesis
        using req a by (simp add: validate_actor_receipt_required)
    qed
  qed
  then show ?thesis
    using v code' by (auto simp: fallback_serialization_failure_def Let_def code'_def)
qed

section \<open>A sample execution\<close>

definition sample_execution :: "actor_receipt \<Rightarrow> tool_execution" where
  "sample_execution r = \<lparr>te_return_code = 0, te_timed_out = False, te_stdout = ''ok'', te_stderr = [],
    te_stdout_truncated = False, te_stderr_truncated = False, te_cleanup_attempted = True,
    te_term_sent = False, te_kill_sent = False, te_cleanup_verified = True, te_census_verified = True,
    te_survivor_count = 0, te_process_disposition = FOREGROUND_CLEANED, te_target_task_id = None,
    te_media = None, te_wait_clamped = False, te_wait_reason = None,
    te_background_start_observation = None, te_actor_receipt = Some r\<rparr>"

lemma sample_receipt_required: "receipt_required (sample_request digest)"
  by (simp add: receipt_required_def is_foreground_terminal_request_def sample_request_def dict_get_default_def)

lemma sample_actor_receipt:
  obtains r where "create_receipt META_VALIDATE ACTOR COMPLETED None True 25000000001 (Some True) (Some True) = Inr r"
  using create_receipt_defined [of 25000000001 META_VALIDATE ACTOR COMPLETED None True "Some True" "Some True"]
  by (auto simp: u64_max_def)

lemma sample_execution_validates:
  assumes "create_receipt META_VALIDATE ACTOR COMPLETED None True 25000000001 (Some True) (Some True) = Inr r"
  shows "validate_actor_receipt (sample_request digest) (Execution (sample_execution r)) = Inr ()"
  using assms unfolding validate_actor_receipt_required [OF sample_receipt_required] create_receipt_Inr
  by (auto simp: receipt_rule_ok_def receipt_fits_execution_def sample_request_def live_deadline_def
      recovery_primary_subtypes_def sample_execution_def)

section \<open>Properties\<close>

text \<open>
  A receipt verifies itself: whatever fields it is created with, its digest is the SHA-256 of
  its canonical diagnostic value, creating it again from its own fields gives the same receipt,
  and so does re-stating its containment; every 64-bit cutoff gives one.
\<close>

theorem created_receipt_verifies:
  assumes "0 \<le> cutoff" and "cutoff \<le> u64_max"
  shows "\<exists>r. create_receipt phase origin primary recovery started cutoff cleanup census = Inr r
    \<and> is_sha256_hex (ar_digest r)
    \<and> (\<exists>b. json_bytes True (PDict (diagnostic_value r)) = Inr b \<and> ar_digest r = sha256_hex b)
    \<and> with_containment r None cleanup census = Inr r
    \<and> (\<forall>r'. create_receipt phase origin primary recovery started cutoff cleanup census = Inr r' \<longrightarrow> r' = r)"
proof -
  obtain r where r: "create_receipt phase origin primary recovery started cutoff cleanup census = Inr r"
    using create_receipt_defined [OF assms] by blast
  then have f: "ar_schema_version r = actor_receipt_schema" "digest_ok r" "ar_cleanup_verified r = cleanup"
    "ar_census_verified r = census"
    unfolding create_receipt_Inr by auto
  from r f with_containment_same [OF f(1,2)] digest_ok_hex [OF f(2)] show ?thesis
    by (auto simp: digest_ok_def)
qed

theorem created_receipt_verifies_witness:
  "\<exists>r. create_receipt META_VALIDATE ACTOR COMPLETED None True 25000000001 (Some True) (Some True) = Inr r
    \<and> is_sha256_hex (ar_digest r)"
  using created_receipt_verifies [of 25000000001 META_VALIDATE ACTOR COMPLETED None True "Some True" "Some True"]
  by (auto simp: u64_max_def)

text \<open>
  C14: the receipt of an execution tells the truth about it: when the bridge accepts an execution of
  a foreground command, its receipt was settled in the metadata phase before the actor's cutoff,
  agrees with the reported containment, and says \<open>completed\<close> for a command that ended,
  \<open>semantic_execution_timed_out\<close> for one that timed out, or a recovered transport failure with
  verified cleanup and census; nothing else.
\<close>

theorem accepted_execution_receipt:
  assumes "receipt_required q" and "validate_actor_receipt q (Execution x) = Inr ()"
  shows "\<exists>r a. te_actor_receipt x = Some r \<and> dv_actor_done (tr_deadline q) = Some a
    \<and> 0 < ar_effective_cutoff_ns r \<and> ar_effective_cutoff_ns r \<le> a
    \<and> ar_phase r = META_VALIDATE \<and> ar_execution_may_have_started r
    \<and> ar_cleanup_verified r = Some (te_cleanup_verified x)
    \<and> ar_census_verified r = Some (te_census_verified x)
    \<and> (ar_primary_subtype r = COMPLETED \<and> ar_origin r = ACTOR \<and> ar_recovery_subtype r = None
         \<and> \<not> te_timed_out x
       \<or> ar_primary_subtype r = SEMANTIC_EXECUTION_TIMED_OUT \<and> ar_origin r = SEMANTIC
         \<and> ar_recovery_subtype r = None \<and> te_timed_out x
       \<or> ar_primary_subtype r \<in> {RUN_TRANSPORT_TIMEOUT, RUN_TRANSPORT_FAILED, RUN_RESPONSE_NONZERO}
         \<and> ar_recovery_subtype r = Some RECOVERED_SETTLED
         \<and> te_cleanup_verified x \<and> te_census_verified x)"
proof -
  obtain r a where r: "te_actor_receipt x = Some r" "dv_actor_done (tr_deadline q) = Some a"
    "0 < ar_effective_cutoff_ns r" "ar_effective_cutoff_ns r \<le> a" "receipt_rule_ok r"
    "receipt_fits_execution r x"
    using assms by (auto simp: validate_actor_receipt_required)
  from r(6) have fits: "ar_execution_may_have_started r" "ar_cleanup_verified r = Some (te_cleanup_verified x)"
    "ar_census_verified r = Some (te_census_verified x)" by (simp_all add: receipt_fits_execution_def)
  show ?thesis
  proof (cases "ar_recovery_subtype r")
    case None
    then have "te_timed_out x \<and> ar_primary_subtype r = SEMANTIC_EXECUTION_TIMED_OUT
        \<or> \<not> te_timed_out x \<and> ar_primary_subtype r = COMPLETED"
      using r(6) by (auto simp: receipt_fits_execution_def)
    then show ?thesis
      using r(1-5) fits None by (auto simp: receipt_rule_ok_def)
  next
    case (Some s)
    then show ?thesis
      using r fits by (auto simp: receipt_fits_execution_def recovery_primary_subtypes_def)
  qed
qed

theorem accepted_execution_receipt_witness:
  "\<exists>r. validate_actor_receipt (sample_request (replicate 64 (CHR ''0''))) (Execution (sample_execution r)) = Inr ()
    \<and> ar_phase r = META_VALIDATE \<and> ar_effective_cutoff_ns r \<le> 25000000001"
proof -
  obtain r where "create_receipt META_VALIDATE ACTOR COMPLETED None True 25000000001 (Some True) (Some True) = Inr r"
    by (rule sample_actor_receipt)
  note v = sample_execution_validates [OF this, of "replicate 64 (CHR ''0'')"]
  from v accepted_execution_receipt [OF sample_receipt_required v] show ?thesis
    by (auto simp: sample_execution_def sample_request_def live_deadline_def)
qed

text \<open>
  Evidence cannot serve both verdicts: a receipt that is accepted for an execution is refused
  for every failure of every foreground request.
\<close>

theorem receipt_separates_verdicts:
  assumes "receipt_required q" and "validate_actor_receipt q (Execution x) = Inr ()"
    and "receipt_required q'" and "validate_actor_receipt q' (Failure f) = Inr ()"
  shows "te_actor_receipt x \<noteq> tf_actor_receipt f"
proof
  assume eq: "te_actor_receipt x = tf_actor_receipt f"
  obtain r where r: "te_actor_receipt x = Some r" "receipt_fits_execution r x"
    using assms(1,2) by (auto simp: validate_actor_receipt_required)
  obtain r' where r': "tf_actor_receipt f = Some r'" "receipt_fits_failure r' f"
    using assms(3,4) by (auto simp: validate_actor_receipt_required)
  from r r' eq have "receipt_fits_execution r x" "receipt_fits_failure r f" by auto
  then show False
    by (cases "ar_recovery_subtype r")
      (auto simp: receipt_fits_execution_def receipt_fits_failure_def)
qed

theorem receipt_separates_verdicts_witness:
  "\<exists>x f. let q = sample_request (replicate 64 (CHR ''0'')) in
     validate_actor_receipt q (Execution x) = Inr () \<and> validate_actor_receipt q (Failure f) = Inr ()
     \<and> te_actor_receipt x \<noteq> tf_actor_receipt f"
proof -
  let ?q = "sample_request (replicate 64 (CHR ''0''))"
  have ok: "request_ok ?q" by (rule sample_request_ok) simp
  obtain r where r: "create_receipt META_VALIDATE ACTOR COMPLETED None True 25000000001 (Some True) (Some True) = Inr r"
    by (rule sample_actor_receipt)
  note x = sample_execution_validates [OF r, of "replicate 64 (CHR ''0'')"]
  obtain f where f: "validate_actor_receipt ?q (Failure f) = Inr ()"
    using deadline_failure_receipt [OF ok] by blast
  from receipt_separates_verdicts [OF sample_receipt_required x sample_receipt_required f] x f
  show ?thesis by (auto simp: Let_def)
qed

end
