(* ===== verification/Bridge_Response.thy ===== *)
theory Bridge_Response
  imports Actor_Receipt
begin

text \<open>
  The response half of the stdio bridge (\<open>adapter/stdio_bridge.py\<close>): the checks on a tool's result
  (process disposition, background start proof, media), the response frame with its base64
  payloads, and the size envelope of a response line.
\<close>

section \<open>Base64\<close>

text \<open>The standard alphabet: upper case, lower case, digits, plus and slash.\<close>

definition b64_char :: "nat \<Rightarrow> char" where
  "b64_char n = char_of
     (if n < 26 then 65 + n else if n < 52 then 71 + n else if n < 62 then n - 4
      else if n = 62 then 43 else 47)"

text \<open>\<open>base64.b64encode(data).decode("ascii")\<close>.\<close>

fun b64encode :: "bytes \<Rightarrow> pystr" where
  "b64encode [] = []"
| "b64encode [x] =
     [b64_char (ord_of x div 4), b64_char (ord_of x mod 4 * 16), CHR ''='', CHR ''='']"
| "b64encode [x, y] =
     [b64_char (ord_of x div 4), b64_char (ord_of x mod 4 * 16 + ord_of y div 16),
      b64_char (ord_of y mod 16 * 4), CHR ''='']"
| "b64encode (x # y # z # r) =
     [b64_char (ord_of x div 4), b64_char (ord_of x mod 4 * 16 + ord_of y div 16),
      b64_char (ord_of y mod 16 * 4 + ord_of z div 64), b64_char (ord_of z mod 64)] @ b64encode r"

definition base64_encoded_len :: "int \<Rightarrow> int" where
  "base64_encoded_len n = (n + 2) div 3 * 4"

section \<open>Size envelope\<close>

definition response_protocol_overhead_bytes :: int where
  "response_protocol_overhead_bytes = 32 * 1024"

definition read_file_media_max_bytes :: int where
  "read_file_media_max_bytes = 4 * 1024 * 1024"

definition read_file_media_max_dimension :: int where
  "read_file_media_max_dimension = 8192"

definition read_file_media_max_pixels :: int where
  "read_file_media_max_pixels = 25000000"

definition response_line_limit_bytes :: "tool_request \<Rightarrow> int" where
  "response_line_limit_bytes q =
     base64_encoded_len (tr_stdout_cap_bytes q) + base64_encoded_len (tr_stderr_cap_bytes q)
     + (if read_file_media_enabled (tr_limits q) then base64_encoded_len read_file_media_max_bytes else 0)
     + response_protocol_overhead_bytes"

definition preflight_response_serialization :: "tool_request \<Rightarrow> tool_result \<Rightarrow> unit result" where
  "preflight_response_serialization q res =
     rbind (validate_actor_receipt q res) (\<lambda>_.
       (let bound = (case res of
            Failure _ \<Rightarrow> response_protocol_overhead_bytes
          | Execution x \<Rightarrow>
              base64_encoded_len (int (length (te_stdout x))) + base64_encoded_len (int (length (te_stderr x)))
              + response_protocol_overhead_bytes
              + (case te_media x of None \<Rightarrow> 0 | Some m \<Rightarrow> base64_encoded_len (int (length (mp_content m)))))
        in ensure (bound \<le> response_line_limit_bytes q)
             (BridgeError ''response_serialization_size_limit_exceeded'') (Inr ())))"

section \<open>Checks on an execution\<close>

definition valid_background_start_observation :: "tool_request \<Rightarrow> tool_execution \<Rightarrow> bool" where
  "valid_background_start_observation q x =
     (case te_background_start_observation x of
        None \<Rightarrow> False
      | Some ob \<Rightarrow>
          bo_proof_version ob = background_start_proof_version
          \<and> \<not> bo_task_id_published ob
          \<and> is_background_start_request q
          \<and> te_process_disposition x = NO_PROCESS
          \<and> te_target_task_id x = None
          \<and> \<not> te_timed_out x
          \<and> te_cleanup_verified x \<and> te_census_verified x
          \<and> te_survivor_count x = 0
          \<and> \<not> te_term_sent x \<and> \<not> te_kill_sent x
          \<and> (case bo_kind ob of
               NOT_STARTED \<Rightarrow>
                 bo_child_exit_code ob = None \<and> te_return_code x = 2 \<and> \<not> te_cleanup_attempted x
             | QUICK_EXIT \<Rightarrow>
                 (case bo_child_exit_code ob of
                    None \<Rightarrow> False
                  | Some code \<Rightarrow>
                      - (2 ^ 31) \<le> code \<and> code \<le> 2 ^ 31 - 1
                      \<and> te_return_code x = (if code = 0 then 0 else 2)
                      \<and> te_cleanup_attempted x)))"

text \<open>\<open>target_ok\<close>: asking encodes the task id.\<close>

definition target_ok :: "tool_execution \<Rightarrow> bool result" where
  "target_ok x =
     (case te_target_task_id x of
        None \<Rightarrow> Inr False
      | Some t \<Rightarrow> rbind (py_encode t) (\<lambda>b.
          Inr (0 < length b \<and> length b \<le> 256 \<and> list_all (\<lambda>c. 32 \<le> ord_of c) t)))"

definition live_background_no_process :: "tool_request \<Rightarrow> tool_execution \<Rightarrow> bool" where
  "live_background_no_process q x \<longleftrightarrow>
     tr_schema_version q = live_schema \<and> is_background_start_request q
     \<and> te_process_disposition x = NO_PROCESS"

definition process_valid :: "tool_request \<Rightarrow> tool_execution \<Rightarrow> bool \<Rightarrow> bool" where
  "process_valid q x target =
     ((case te_process_disposition x of
         NO_PROCESS \<Rightarrow>
           te_target_task_id x = None
           \<and> te_cleanup_verified x \<and> te_census_verified x
           \<and> te_survivor_count x = 0
           \<and> (if live_background_no_process q x then valid_background_start_observation q x
              else if is_background_start_request q then
                tr_schema_version q = legacy_schema
                \<and> te_background_start_observation x = None \<and> te_return_code x = 2
              else
                \<not> is_foreground_terminal_request q \<and> te_background_start_observation x = None)
       | FOREGROUND_CLEANED \<Rightarrow>
           is_foreground_terminal_request q
           \<and> te_target_task_id x = None
           \<and> te_cleanup_attempted x
           \<and> te_cleanup_verified x \<and> te_census_verified x
           \<and> te_survivor_count x = 0
       | BACKGROUND_RETAINED \<Rightarrow>
           is_background_start_request q
           \<and> target
           \<and> \<not> te_cleanup_attempted x
           \<and> te_cleanup_verified x \<and> te_census_verified x
           \<and> te_survivor_count x > 0
       | BACKGROUND_TERMINATED \<Rightarrow>
           tr_tool_name q = ''kill_terminal_command''
           \<and> target
           \<and> te_cleanup_attempted x
           \<and> te_cleanup_verified x \<and> te_census_verified x
           \<and> te_survivor_count x = 0)
      \<and> \<not> (te_background_start_observation x \<noteq> None \<and> \<not> live_background_no_process q x))"

definition validate_process_result :: "tool_request \<Rightarrow> tool_execution \<Rightarrow> unit result" where
  "validate_process_result q x =
     rbind (target_ok x) (\<lambda>target.
       ensure (process_valid q x target) (BridgeError ''external_response_process_invalid'') (Inr ()))"

definition mime_magic :: "pystr \<Rightarrow> bytes option" where
  "mime_magic m =
     (if m = ''image/png'' then Some (map char_of [137, 80, 78, 71, 13, 10, 26, 10 :: nat])
      else if m = ''image/jpeg'' then Some (map char_of [255, 216, 255 :: nat]) else None)"

text \<open>The conjuncts before and after the one that encodes the path.\<close>

definition media_context_ok :: "tool_request \<Rightarrow> tool_execution \<Rightarrow> media_payload \<Rightarrow> bool" where
  "media_context_ok q x m \<longleftrightarrow>
     read_file_media_enabled (tr_limits q)
     \<and> tr_tool_name q = ''read_file''
     \<and> te_return_code x = 0
     \<and> \<not> te_timed_out x
     \<and> te_stderr x = []
     \<and> \<not> te_stdout_truncated x
     \<and> \<not> te_stderr_truncated x
     \<and> te_process_disposition x = NO_PROCESS
     \<and> mp_logical_path m \<noteq> []
     \<and> take 1 (mp_logical_path m) \<noteq> ''/''
     \<and> path_str (mp_logical_path m) = mp_logical_path m
     \<and> list_all (\<lambda>part. part \<noteq> [] \<and> part \<noteq> ''.'' \<and> part \<noteq> ''..'') (path_parts (mp_logical_path m))"

definition media_content_ok :: "media_payload \<Rightarrow> bool" where
  "media_content_ok m \<longleftrightarrow>
     length (mp_logical_path m) \<le> 4096
     \<and> list_all (\<lambda>c. 32 \<le> ord_of c) (mp_logical_path m)
     \<and> mime_magic (mp_mime_type m) \<noteq> None
     \<and> 0 < mp_width m \<and> mp_width m \<le> read_file_media_max_dimension
     \<and> 0 < mp_height m \<and> mp_height m \<le> read_file_media_max_dimension
     \<and> mp_width m * mp_height m \<le> read_file_media_max_pixels
     \<and> 0 < mp_source_byte_length m \<and> mp_source_byte_length m \<le> read_file_media_max_bytes
     \<and> mp_canonical_byte_length m = int (length (mp_content m))
     \<and> mp_canonical_byte_length m \<le> read_file_media_max_bytes
     \<and> is_sha256_hex (mp_source_sha256 m)
     \<and> is_sha256_hex (mp_canonical_sha256 m)
     \<and> sha256_hex (mp_content m) = mp_canonical_sha256 m
     \<and> (case mime_magic (mp_mime_type m) of None \<Rightarrow> False | Some magic \<Rightarrow> starts magic (mp_content m))"

definition validate_media :: "tool_request \<Rightarrow> tool_execution \<Rightarrow> unit result" where
  "validate_media q x =
     (case te_media x of
        None \<Rightarrow> Inr ()
      | Some m \<Rightarrow>
          ensure (media_context_ok q x m) (BridgeError ''external_response_media_invalid'')
            (rbind (py_encode (mp_logical_path m)) (\<lambda>_.
             ensure (media_content_ok m) (BridgeError ''external_response_media_invalid'') (Inr ()))))"

section \<open>Response frames\<close>

definition response_identity :: "tool_request \<Rightarrow> pydict" where
  "response_identity q =
     [(''schema_version'', PStr (tr_schema_version q)), (''message_type'', PStr ''tool.response''),
      (''seq'', PInt (tr_seq q)), (''run_id'', PStr (tr_run_id q)), (''trial_id'', PStr (tr_trial_id q)),
      (''attempt_id'', PStr (tr_attempt_id q)), (''call_id'', PStr (tr_call_id q)),
      (''tool_name'', PStr (tr_tool_name q)), (''request_sha256'', PStr (request_sha256 q))]"

definition failure_value :: "tool_request \<Rightarrow> tool_failure \<Rightarrow> pydict" where
  "failure_value q f =
     [(''code'', PStr (tf_code f)),
      (''execution_may_have_started'', PBool (tf_execution_may_have_started f)),
      (''cleanup_verified'', opt_bool (tf_cleanup_verified f)),
      (''census_verified'', opt_bool (tf_census_verified f)),
      (''recoverability'', PStr ''fatal'')]
     @ (if tr_schema_version q = live_schema
        then [(''actor_receipt'', encoded_actor_receipt (tf_actor_receipt f))] else [])"

definition media_value :: "media_payload option \<Rightarrow> pyval" where
  "media_value media =
     (case media of
        None \<Rightarrow> PNone
      | Some m \<Rightarrow> PDict
          [(''logical_path'', PStr (mp_logical_path m)), (''mime_type'', PStr (mp_mime_type m)),
           (''width'', PInt (mp_width m)), (''height'', PInt (mp_height m)),
           (''source_byte_length'', PInt (mp_source_byte_length m)),
           (''source_sha256'', PStr (mp_source_sha256 m)),
           (''canonical_byte_length'', PInt (mp_canonical_byte_length m)),
           (''canonical_sha256'', PStr (mp_canonical_sha256 m)),
           (''content_base64'', PStr (b64encode (mp_content m)))])"

definition observation_value :: "background_start_observation option \<Rightarrow> pyval" where
  "observation_value observation =
     (case observation of
        None \<Rightarrow> PNone
      | Some ob \<Rightarrow> PDict
          [(''proof_version'', PStr (bo_proof_version ob)),
           (''kind'', PStr (start_kind_value (bo_kind ob))),
           (''task_id_published'', PBool (bo_task_id_published ob)),
           (''child_exit_code'', opt_int (bo_child_exit_code ob))])"

definition result_value :: "tool_request \<Rightarrow> tool_execution \<Rightarrow> pydict" where
  "result_value q x =
     [(''return_code'', PInt (te_return_code x)),
      (''timed_out'', PBool (te_timed_out x)),
      (''stdout_base64'', PStr (b64encode (te_stdout x))),
      (''stderr_base64'', PStr (b64encode (te_stderr x))),
      (''stdout_truncated'', PBool (te_stdout_truncated x)),
      (''stderr_truncated'', PBool (te_stderr_truncated x)),
      (''process_disposition'', PStr (disposition_value (te_process_disposition x))),
      (''target_task_id'', opt_str (te_target_task_id x)),
      (''cleanup'', PDict
         [(''attempted'', PBool (te_cleanup_attempted x)), (''term_sent'', PBool (te_term_sent x)),
          (''kill_sent'', PBool (te_kill_sent x)), (''verified'', PBool (te_cleanup_verified x))]),
      (''census'', PDict
         [(''verified'', PBool (te_census_verified x)),
          (''owned_processes_alive'', PInt (te_survivor_count x))]),
      (''media'', media_value (te_media x))]
     @ (if tr_schema_version q = live_schema
        then [(''wait_clamped'', PBool (te_wait_clamped x)), (''wait_reason'', opt_str (te_wait_reason x)),
              (''background_start_observation'', observation_value (te_background_start_observation x)),
              (''actor_receipt'', encoded_actor_receipt (te_actor_receipt x))]
        else [])"

definition response_value :: "tool_request \<Rightarrow> tool_result \<Rightarrow> pydict" where
  "response_value q res =
     response_identity q
     @ (case res of
          Failure f \<Rightarrow> [(''settlement'', PStr ''fatal''), (''failure'', PDict (failure_value q f))]
        | Execution x \<Rightarrow> [(''settlement'', PStr ''completed''), (''result'', PDict (result_value q x))])"

definition encode_failure :: "tool_request \<Rightarrow> tool_failure \<Rightarrow> bytes result" where
  "encode_failure q f =
     rbind (valid_failure_code (tf_code f)) (\<lambda>valid.
     ensure valid (BridgeError ''external_response_failure_invalid'')
       (rbind (validate_actor_receipt q (Failure f)) (\<lambda>_.
          json_bytes False (PDict (response_value q (Failure f))))))"

definition encode_execution :: "tool_request \<Rightarrow> tool_execution \<Rightarrow> bytes result" where
  "encode_execution q x =
     ensure (- (2 ^ 31) \<le> te_return_code x \<and> te_return_code x \<le> 2 ^ 31 - 1)
       (BridgeError ''external_response_return_code_invalid'')
     (ensure ((te_wait_reason x = None \<or> te_wait_reason x = Some ''runtime_budget'')
              \<and> (te_wait_reason x = None) = (\<not> te_wait_clamped x))
       (BridgeError ''external_response_wait_invalid'')
     (ensure (int (length (te_stdout x)) \<le> tr_stdout_cap_bytes q
              \<and> int (length (te_stderr x)) \<le> tr_stderr_cap_bytes q
              \<and> te_survivor_count x \<ge> 0)
       (BridgeError ''external_response_bounds_invalid'')
     (rbind (validate_process_result q x) (\<lambda>_.
      rbind (validate_actor_receipt q (Execution x)) (\<lambda>_.
      rbind (validate_media q x) (\<lambda>_.
        json_bytes False (PDict (response_value q (Execution x)))))))))"

definition encode_tool_response :: "tool_request \<Rightarrow> tool_result \<Rightarrow> bytes result" where
  "encode_tool_response q res =
     (case res of Failure f \<Rightarrow> encode_failure q f | Execution x \<Rightarrow> encode_execution q x)"

section \<open>Facts on base64\<close>

definition b64_digit :: "char \<Rightarrow> nat" where
  "b64_digit c =
     (let x = ord_of c in
      if 65 \<le> x \<and> x \<le> 90 then x - 65
      else if 97 \<le> x \<and> x \<le> 122 then x - 71
      else if 48 \<le> x \<and> x \<le> 57 then x + 4
      else if x = 43 then 62 else 63)"

lemma b64_char:
  assumes "n < 64"
  shows "b64_digit (b64_char n) = n" "b64_char n \<noteq> CHR ''=''" "35 \<le> ord_of (b64_char n)"
    "ord_of (b64_char n) < 128" "ord_of (b64_char n) \<noteq> 92"
proof -
  have c: "ord_of (b64_char n) = (if n < 26 then 65 + n else if n < 52 then 71 + n else if n < 62 then n - 4
      else if n = 62 then 43 else 47)" using assms by (simp add: b64_char_def)
  then show "b64_digit (b64_char n) = n" using assms by (simp add: b64_digit_def Let_def) arith
  have "ord_of (b64_char n) \<noteq> 61" using assms by (simp add: c) arith
  then show "b64_char n \<noteq> CHR ''=''" by (auto simp: ord_of_def)
  show "35 \<le> ord_of (b64_char n)" "ord_of (b64_char n) < 128" "ord_of (b64_char n) \<noteq> 92"
    using assms by (simp_all add: c) arith+
qed

text \<open>The decoder that undoes it.\<close>

fun b64decode :: "pystr \<Rightarrow> bytes" where
  "b64decode (a # b # c # d # r) =
     (let x = char_of (b64_digit a * 4 + b64_digit b div 16);
          y = char_of (b64_digit b mod 16 * 16 + b64_digit c div 4);
          z = char_of (b64_digit c mod 4 * 64 + b64_digit d)
      in (if c = CHR ''='' then [x] else if d = CHR ''='' then [x, y] else [x, y, z]) @ b64decode r)"
| "b64decode _ = []"

lemma six_bits: "ord_of x div 4 < 64" "ord_of x mod 4 * 16 + ord_of y div 16 < 64"
  "ord_of y mod 16 * 4 + ord_of z div 64 < 64" "ord_of z mod 64 < 64"
  "ord_of x mod 4 * 16 < 64" "ord_of y mod 16 * 4 < 64"
proof -
  have step: "a * n + b < m * n" if "a < m" "b < n" for a b m n :: nat
  proof -
    have "Suc a * n \<le> m * n" using that(1) by (intro mult_le_mono1) simp
    then show ?thesis using that(2) by simp
  qed
  have "ord_of x div 4 < 64" "ord_of y div 16 < 16" "ord_of z div 64 < 4"
    by (simp_all add: less_mult_imp_div_less)
  then show "ord_of x div 4 < 64" "ord_of x mod 4 * 16 + ord_of y div 16 < 64"
    "ord_of y mod 16 * 4 + ord_of z div 64 < 64" "ord_of z mod 64 < 64"
    "ord_of x mod 4 * 16 < 64" "ord_of y mod 16 * 4 < 64"
    using step [of "ord_of x mod 4" 4 "ord_of y div 16" 16] step [of "ord_of y mod 16" 16 "ord_of z div 64" 4]
      step [of "ord_of x mod 4" 4 0 16] step [of "ord_of y mod 16" 16 0 4]
    by simp_all
qed

lemma regroup:
  "ord_of y div 16 div 16 = 0" "ord_of y div 16 mod 16 * 16 + ord_of y mod 16 = ord_of y"
  "ord_of z div 64 div 4 = 0" "ord_of z div 64 mod 4 * 64 + ord_of z mod 64 = ord_of z"
proof -
  have "ord_of y div 16 < 16" "ord_of z div 64 < 4"
    by (simp_all add: less_mult_imp_div_less)
  then show "ord_of y div 16 div 16 = 0" "ord_of y div 16 mod 16 * 16 + ord_of y mod 16 = ord_of y"
    "ord_of z div 64 div 4 = 0" "ord_of z div 64 mod 4 * 64 + ord_of z mod 64 = ord_of z"
    by (simp_all add: div_mult_mod_eq)
qed

lemma b64decode_encode: "b64decode (b64encode s) = s"
  by (induction s rule: b64encode.induct) (simp_all add: Let_def b64_char six_bits regroup)

lemma length_b64encode: "int (length (b64encode s)) = base64_encoded_len (int (length s))"
proof (induction s rule: b64encode.induct)
  case (4 x y z r)
  have "(5 + int (length r)) div 3 = (int (length r) + 2) div 3 + 1"
    using div_add_self2 [of 3 "int (length r) + 2"] by (simp add: algebra_simps)
  then show ?case using 4 by (simp add: base64_encoded_len_def)
qed (simp_all add: base64_encoded_len_def)

lemma b64encode_plain: "list_all (\<lambda>c. 35 \<le> ord_of c \<and> ord_of c \<noteq> 92 \<and> ord_of c < 128) (b64encode s)"
  by (induction s rule: b64encode.induct)
    (simp_all add: b64_char six_bits ord_of_def [of "CHR ''=''"])

section \<open>Frames can be written\<close>

definition small_count :: "int \<Rightarrow> bool" where
  "small_count i \<longleftrightarrow> - (2 ^ 31) \<le> i \<and> i \<le> u64_max"

lemma digits_small: "small_count i \<Longrightarrow> length (nat_repr (nat \<bar>i\<bar>)) \<le> 20"
  by (rule length_nat_repr) (auto simp: small_count_def u64_max_def)

lemma dumpable_small: "small_count i \<Longrightarrow> dumpable (PInt i)"
  using digits_small [of i] by (simp add: int_max_str_digits_def)

lemma bound_small: "small_count i \<Longrightarrow> dump_bound (PInt i) \<le> 21"
  using digits_small [of i] by simp

lemma esc_len_values:
  "esc_len (phase_value p) \<le> 40" "esc_len (origin_value u) \<le> 40" "esc_len (subtype_value s) \<le> 40"
  "esc_len (disposition_value d) \<le> 40" "esc_len (start_kind_value k) \<le> 40"
  subgoal by (cases p; simp add: json_escape_def ord_of_def)
  subgoal by (cases u; simp add: json_escape_def ord_of_def)
  subgoal by (cases s; simp add: json_escape_def ord_of_def)
  subgoal by (cases d; simp add: json_escape_def ord_of_def)
  subgoal by (cases k; simp add: json_escape_def ord_of_def)
  done

lemma esc_len_text: "text_ok n s \<Longrightarrow> esc_len s \<le> 2 * n"
  using esc_len_printable [of s] by (simp add: text_ok_def)

lemma esc_len_tool: "n \<in> set tool_names \<Longrightarrow> esc_len n \<le> 40"
  by (auto simp: tool_names_def json_escape_def ord_of_def)

lemma opt_bounds:
  "dump_bound (opt_bool b) \<le> 5" "dump_bound (opt_str (map_option subtype_value s)) \<le> 42"
  using esc_len_values(3) by (auto simp: opt_bool_def opt_str_def split: option.splits)

text \<open>A frame part that can be written, within a number of bytes.\<close>

definition fits :: "nat \<Rightarrow> pyval \<Rightarrow> bool" where
  "fits n v \<longleftrightarrow> wf_val v \<and> strs_ok v \<and> dumpable v \<and> dump_bound v \<le> n"

lemma fits_mono: "fits n v \<Longrightarrow> n \<le> m \<Longrightarrow> fits m v"
  by (simp add: fits_def)

lemma fits_scalars [simp]:
  "fits n PNone \<longleftrightarrow> 4 \<le> n" "fits n (PBool b) \<longleftrightarrow> 5 \<le> n"
  "fits n (PStr s) \<longleftrightarrow> valid_utf8 s \<and> 2 + esc_len s \<le> n"
  by (auto simp: fits_def)

lemma fits_int: "small_count i \<Longrightarrow> fits 21 (PInt i)"
  unfolding fits_def using dumpable_small bound_small by simp

lemma fits_dict:
  assumes "distinct (map fst d)" and "list_all2 (\<lambda>kv n. valid_utf8 (fst kv) \<and> fits n (snd kv)) d ns"
    and "2 + sum_list ns + sum_list (map (\<lambda>k. esc_len k + 4) (map fst d)) \<le> m"
  shows "fits m (PDict d)"
proof -
  have "list_all (\<lambda>kv. wf_val (snd kv) \<and> valid_utf8 (fst kv) \<and> strs_ok (snd kv) \<and> dumpable (snd kv)) d"
    using assms(2) by (induction rule: list_all2_induct) (auto simp: fits_def)
  moreover have "sum_list (map (\<lambda>kv. esc_len (fst kv) + dump_bound (snd kv) + 4) d)
      \<le> sum_list ns + sum_list (map (\<lambda>k. esc_len k + 4) (map fst d))"
    using assms(2) by (induction rule: list_all2_induct) (auto simp: fits_def)
  ultimately show ?thesis using assms(1,3) by (simp add: fits_def list_all_iff)
qed

text \<open>Literal keys: their length and validity are computed.\<close>

lemmas literal_simps = json_escape_def ord_of_def

lemma fits_receipt:
  assumes "receipt_writable r" and "is_sha256_hex (ar_digest r)"
  shows "fits 800 (PDict (receipt_dict r))"
proof -
  have c: "small_count (ar_effective_cutoff_ns r)"
    using assms(1) by (simp add: small_count_def receipt_writable_def u64_max_def)
  show ?thesis
  proof (rule fits_dict)
    show "distinct (map fst (receipt_dict r))" by (simp add: receipt_dict_def diagnostic_value_def)
    show "list_all2 (\<lambda>kv n. valid_utf8 (fst kv) \<and> fits n (snd kv)) (receipt_dict r)
        [42, 42, 42, 42, 42, 5, 21, 5, 5, 66]"
      using assms fits_int [OF c] esc_len_values opt_bounds
      by (simp add: receipt_dict_def diagnostic_value_def receipt_writable_def ord_of_def fits_def [of _ "opt_bool _"]
          fits_def [of _ "opt_str _"] esc_len_sha256 sha256_hex_valid_utf8)
        (simp add: actor_receipt_schema_def literal_simps)
  qed (simp add: receipt_dict_def diagnostic_value_def literal_simps)
qed

lemma fits_encoded_receipt:
  assumes "validate_actor_receipt q res = Inr ()" and "request_ok q"
  shows "fits 800 (encoded_actor_receipt (result_receipt res))"
proof (cases "receipt_required q")
  case True
  then obtain r a where r: "result_receipt res = Some r" "dv_actor_done (tr_deadline q) = Some a"
    "ar_schema_version r = actor_receipt_schema" "0 < ar_effective_cutoff_ns r"
    "ar_effective_cutoff_ns r \<le> a" "digest_ok r"
    using assms(1) by (auto simp: validate_actor_receipt_required)
  have "has_absolute_deadline q" using True by (simp add: receipt_required_def has_absolute_deadline_def)
  from live_request_stages [OF assms(2) this] obtain a' digest where
    "tr_deadline q = live_deadline a' digest" "a' + 75000000000 \<le> u64_max" by blast
  with r have "receipt_writable r" by (simp add: receipt_writable_def live_deadline_def)
  then show ?thesis
    using fits_receipt [OF _ digest_ok_hex [OF r(6)]] r(1) by (simp add: encoded_actor_receipt_def)
next
  case False
  then show ?thesis
    using assms(1) by (simp add: validate_actor_receipt_not_required encoded_actor_receipt_def)
qed

lemma esc_len_failure_code: "list_all failure_code_char s \<Longrightarrow> esc_len s = length s"
  by (rule esc_len_plain) (auto simp: list_all_iff failure_code_char_def is_digit_def ord_of_def)

lemma fits_failure:
  assumes "valid_failure_code (tf_code f) = Inr True" and "validate_actor_receipt q (Failure f) = Inr ()"
    and "request_ok q"
  shows "fits 1500 (PDict (failure_value q f))"
proof -
  have code: "valid_utf8 (tf_code f)" "esc_len (tf_code f) \<le> 128"
    using assms(1) esc_len_failure_code by (auto simp: valid_failure_code_def rbind_Inr_iff)
  have rcpt: "fits 800 (encoded_actor_receipt (tf_actor_receipt f))"
    using fits_encoded_receipt [OF assms(2,3)] by simp
  have ob: "fits 5 (opt_bool b)" for b using opt_bounds(1) [of b] by (simp add: fits_def)
  show ?thesis
  proof (rule fits_dict)
    show "distinct (map fst (failure_value q f))" by (simp add: failure_value_def)
    show "list_all2 (\<lambda>kv n. valid_utf8 (fst kv) \<and> fits n (snd kv)) (failure_value q f)
        (if tr_schema_version q = live_schema then [130, 5, 5, 5, 42, 800] else [130, 5, 5, 5, 42])"
      using code rcpt ob by (simp add: failure_value_def literal_simps)
  qed (simp add: failure_value_def literal_simps)
qed

lemma fits_opt_text: "(\<And>t. x = Some t \<Longrightarrow> text_ok 256 t) \<Longrightarrow> fits 514 (opt_str x)"
proof (cases x)
  case (Some t)
  assume "\<And>t. x = Some t \<Longrightarrow> text_ok 256 t"
  with Some have "text_ok 256 t" by simp
  with esc_len_text [OF this] Some show ?thesis by (simp add: opt_str_def text_ok_def)
qed (simp add: opt_str_def)

lemma plain_b64: "list_all (\<lambda>c. 35 \<le> ord_of c \<and> ord_of c \<noteq> 92) (b64encode s)" "valid_utf8 (b64encode s)"
  using b64encode_plain [of s] by (auto simp: list_all_iff intro!: valid_utf8_ascii)

lemma fits_b64: "fits (2 + length (b64encode s)) (PStr (b64encode s))"
  using plain_b64 [of s] by (simp add: esc_len_plain)

lemma fits_media:
  assumes "media_content_ok m" and "valid_utf8 (mp_logical_path m)"
  shows "fits (8700 + length (b64encode (mp_content m))) (media_value (Some m))"
proof -
  have path: "esc_len (mp_logical_path m) \<le> 8192"
    using assms(1) esc_len_printable [of "mp_logical_path m"] by (simp add: media_content_ok_def)
  have mime: "mp_mime_type m = ''image/png'' \<or> mp_mime_type m = ''image/jpeg''"
    using assms(1) by (auto simp: media_content_ok_def mime_magic_def split: if_splits)
  have ints: "small_count (mp_width m)" "small_count (mp_height m)" "small_count (mp_source_byte_length m)"
    "small_count (mp_canonical_byte_length m)"
    using assms(1) by (simp_all add: media_content_ok_def small_count_def u64_max_def
        read_file_media_max_dimension_def read_file_media_max_bytes_def)
  have hex: "is_sha256_hex (mp_source_sha256 m)" "is_sha256_hex (mp_canonical_sha256 m)"
    using assms(1) by (simp_all add: media_content_ok_def)
  have m: "valid_utf8 (mp_mime_type m)" "esc_len (mp_mime_type m) \<le> 20"
    using mime by (auto simp: literal_simps)
  show ?thesis
    unfolding media_value_def option.case
  proof (rule fits_dict)
    show "list_all2 (\<lambda>kv n. valid_utf8 (fst kv) \<and> fits n (snd kv))
       [(''logical_path'', PStr (mp_logical_path m)), (''mime_type'', PStr (mp_mime_type m)),
           (''width'', PInt (mp_width m)), (''height'', PInt (mp_height m)),
           (''source_byte_length'', PInt (mp_source_byte_length m)),
           (''source_sha256'', PStr (mp_source_sha256 m)),
           (''canonical_byte_length'', PInt (mp_canonical_byte_length m)),
           (''canonical_sha256'', PStr (mp_canonical_sha256 m)),
           (''content_base64'', PStr (b64encode (mp_content m)))]
       [8194, 22, 21, 21, 21, 66, 21, 66, 2 + length (b64encode (mp_content m))]"
      using path m assms(2) ints [THEN fits_int] hex fits_b64 [of "mp_content m"]
      by (simp add: esc_len_sha256 sha256_hex_valid_utf8 ord_of_def)
  qed (simp_all add: literal_simps)
qed

lemma fits_observation:
  assumes "process_valid q x target"
  shows "fits 200 (observation_value (te_background_start_observation x))"
proof (cases "te_background_start_observation x")
  case (Some ob)
  then have "live_background_no_process q x" using assms by (simp add: process_valid_def)
  then have v: "valid_background_start_observation q x"
    using assms by (auto simp: process_valid_def live_background_no_process_def)
  have c: "fits 21 (opt_int (bo_child_exit_code ob))"
  proof (cases "bo_child_exit_code ob")
    case (Some code)
    then have "small_count code"
      using v \<open>te_background_start_observation x = Some ob\<close>
      by (auto simp: valid_background_start_observation_def small_count_def u64_max_def
          split: background_start_kind.splits)
    then show ?thesis using Some fits_int by (simp add: opt_int_def)
  qed (simp add: opt_int_def)
  have p: "bo_proof_version ob = background_start_proof_version"
    using v Some by (simp add: valid_background_start_observation_def)
  show ?thesis
    unfolding Some observation_value_def option.case
  proof (rule fits_dict)
    show "list_all2 (\<lambda>kv n. valid_utf8 (fst kv) \<and> fits n (snd kv))
      [(''proof_version'', PStr (bo_proof_version ob)), (''kind'', PStr (start_kind_value (bo_kind ob))),
       (''task_id_published'', PBool (bo_task_id_published ob)),
       (''child_exit_code'', opt_int (bo_child_exit_code ob))] [42, 42, 5, 21]"
      using c esc_len_values(5) [of "bo_kind ob"]
      by (simp add: p background_start_proof_version_def literal_simps)
  qed (simp_all add: literal_simps)
qed (simp add: observation_value_def)

definition media_len :: "tool_execution \<Rightarrow> nat" where
  "media_len x = (case te_media x of None \<Rightarrow> 0 | Some m \<Rightarrow> length (b64encode (mp_content m)))"

lemma encode_execution_Inr:
  "encode_execution q x = Inr b \<longleftrightarrow>
     - (2 ^ 31) \<le> te_return_code x \<and> te_return_code x \<le> 2 ^ 31 - 1
     \<and> (te_wait_reason x = None \<or> te_wait_reason x = Some ''runtime_budget'')
     \<and> (te_wait_reason x = None) = (\<not> te_wait_clamped x)
     \<and> int (length (te_stdout x)) \<le> tr_stdout_cap_bytes q
     \<and> int (length (te_stderr x)) \<le> tr_stderr_cap_bytes q \<and> te_survivor_count x \<ge> 0
     \<and> validate_process_result q x = Inr () \<and> validate_actor_receipt q (Execution x) = Inr ()
     \<and> validate_media q x = Inr () \<and> json_bytes False (PDict (response_value q (Execution x))) = Inr b"
  by (auto simp: encode_execution_def rbind_Inr_iff)

lemma validate_process_Inr:
  "validate_process_result q x = Inr () \<longleftrightarrow> (\<exists>t. target_ok x = Inr t \<and> process_valid q x t)"
  by (auto simp: validate_process_result_def rbind_Inr_iff)

lemma fits_result:
  assumes q: "request_ok q" and p: "validate_process_result q x = Inr ()"
    and v: "validate_actor_receipt q (Execution x) = Inr ()" and m: "validate_media q x = Inr ()"
    and rc: "- (2 ^ 31) \<le> te_return_code x" "te_return_code x \<le> 2 ^ 31 - 1"
    and w: "te_wait_reason x = None \<or> te_wait_reason x = Some ''runtime_budget''"
    and s: "0 \<le> te_survivor_count x" "te_survivor_count x \<le> u64_max"
  shows "fits (12000 + length (b64encode (te_stdout x)) + length (b64encode (te_stderr x)) + media_len x)
    (PDict (result_value q x))"
proof -
  obtain t where t: "target_ok x = Inr t" "process_valid q x t" using p validate_process_Inr by blast
  have target: "text_ok 256 i" if "te_target_task_id x = Some i" for i
    using t that
    by (auto simp: target_ok_def process_valid_def rbind_Inr_iff text_ok_def split: process_disposition.splits)
  have cleanup: "fits 120 (PDict
         [(''attempted'', PBool (te_cleanup_attempted x)), (''term_sent'', PBool (te_term_sent x)),
          (''kill_sent'', PBool (te_kill_sent x)), (''verified'', PBool (te_cleanup_verified x))])"
    by (rule fits_dict [where ns = "[5, 5, 5, 5]"]) (simp_all add: literal_simps)
  have census: "fits 120 (PDict [(''verified'', PBool (te_census_verified x)),
          (''owned_processes_alive'', PInt (te_survivor_count x))])"
    using s fits_int [of "te_survivor_count x"]
    by (intro fits_dict [where ns = "[5, 21]"]) (simp_all add: literal_simps small_count_def)
  have media: "fits (8700 + media_len x) (media_value (te_media x))"
  proof (cases "te_media x")
    case (Some y)
    then show ?thesis
      using m fits_media [of y] by (simp add: validate_media_def rbind_Inr_iff media_len_def)
  qed (simp add: media_value_def media_len_def)
  have wait: "fits 16 (opt_str (te_wait_reason x))" using w by (auto simp: opt_str_def literal_simps)
  have ret: "fits 21 (PInt (te_return_code x))"
    using rc by (intro fits_int) (simp add: small_count_def u64_max_def)
  have tgt: "fits 514 (opt_str (te_target_task_id x))" by (rule fits_opt_text) (rule target)
  let ?ns = "[21, 5, 2 + length (b64encode (te_stdout x)), 2 + length (b64encode (te_stderr x)), 5, 5,
      42, 514, 120, 120, 8700 + media_len x]
      @ (if tr_schema_version q = live_schema then [5, 16, 200, 800] else [])"
  show ?thesis
  proof (rule fits_dict)
    show "distinct (map fst (result_value q x))"
      by (cases "tr_schema_version q = live_schema") (simp_all add: result_value_def)
    show "list_all2 (\<lambda>kv n. valid_utf8 (fst kv) \<and> fits n (snd kv)) (result_value q x) ?ns"
      using fits_observation [OF t(2)] fits_encoded_receipt [OF v q] cleanup census media wait ret tgt
        fits_b64 [of "te_stdout x"] fits_b64 [of "te_stderr x"] esc_len_values(4) [of "te_process_disposition x"]
      by (cases "tr_schema_version q = live_schema") (simp_all add: result_value_def ord_of_def)
    show "2 + sum_list ?ns + sum_list (map (\<lambda>k. esc_len k + 4) (map fst (result_value q x)))
        \<le> 12000 + length (b64encode (te_stdout x)) + length (b64encode (te_stderr x)) + media_len x"
      by (cases "tr_schema_version q = live_schema") (simp_all add: result_value_def literal_simps)
  qed
qed

lemma schema_values: "request_ok q \<Longrightarrow> tr_schema_version q = live_schema \<or> tr_schema_version q = legacy_schema"
  by (auto simp: request_ok_def deadline_values_ok_def split: if_splits)

text \<open>The whole frame: the identity of the request and one settlement.\<close>

lemma fits_response:
  assumes q: "request_ok q" "tr_seq q \<le> u64_max"
    and body: "fits n (snd (last (response_value q res)))"
  shows "fits (3000 + n) (PDict (response_value q res))"
proof -
  have ids: "text_ok 256 (tr_run_id q)" "text_ok 256 (tr_trial_id q)" "text_ok 256 (tr_attempt_id q)"
    "text_ok 256 (tr_call_id q)" "tr_tool_name q \<in> set tool_names" "small_count (tr_seq q)"
    using q by (simp_all add: request_ok_def small_count_def)
  have utf: "valid_utf8 (tr_run_id q)" "valid_utf8 (tr_trial_id q)" "valid_utf8 (tr_attempt_id q)"
    "valid_utf8 (tr_call_id q)" using ids(1-4) by (simp_all add: text_ok_def)
  note id_lens = esc_len_text [OF ids(1)] esc_len_text [OF ids(2)] esc_len_text [OF ids(3)] esc_len_text [OF ids(4)]
  have sv: "valid_utf8 (tr_schema_version q)" "esc_len (tr_schema_version q) \<le> 40"
    using schema_values [OF q(1)] by (auto simp: live_schema_def legacy_schema_def literal_simps)
  have sha: "valid_utf8 (request_sha256 q)" "esc_len (request_sha256 q) = 64"
    by (simp_all add: request_sha256_def sha256_hex_valid_utf8 esc_len_sha256)
  let ?ns = "[42, 42, 21, 514, 514, 514, 514, 42, 66, 42, n]"
  show ?thesis
  proof (rule fits_dict)
    show "distinct (map fst (response_value q res))"
      by (cases res) (simp_all add: response_value_def response_identity_def)
    show "list_all2 (\<lambda>kv n. valid_utf8 (fst kv) \<and> fits n (snd kv)) (response_value q res) ?ns"
      using body utf id_lens sv sha fits_int [OF ids(6)] valid_utf8_tool_names [OF ids(5)] esc_len_tool [OF ids(5)]
      by (cases res) (simp_all add: response_value_def response_identity_def literal_simps)
    show "2 + sum_list ?ns + sum_list (map (\<lambda>k. esc_len k + 4) (map fst (response_value q res))) \<le> 3000 + n"
      by (cases res) (simp_all add: response_value_def response_identity_def literal_simps)
  qed
qed

lemma fits_json_bytes:
  assumes "fits n v"
  shows "\<exists>b. json_bytes False v = Inr b \<and> length b \<le> n"
proof -
  obtain b where b: "json_bytes False v = Inr b"
    using assms json_bytes_defined by (auto simp: fits_def)
  then have "length b \<le> dump_bound v" using length_dumps(1) by (auto simp: json_bytes_Inr)
  with b assms show ?thesis by (auto simp: fits_def)
qed

lemma encode_failure_Inr:
  "encode_failure q f = Inr b \<longleftrightarrow> valid_failure_code (tf_code f) = Inr True
     \<and> validate_actor_receipt q (Failure f) = Inr () \<and> json_bytes False (PDict (response_value q (Failure f))) = Inr b"
  by (auto simp: encode_failure_def rbind_Inr_iff)

lemma encode_json_bytes:
  "encode_tool_response q res = Inr b \<Longrightarrow> json_bytes False (PDict (response_value q res)) = Inr b"
  by (cases res) (auto simp: encode_tool_response_def encode_failure_Inr encode_execution_Inr)

text \<open>A failure with an admissible code and an accepted receipt is always encoded.\<close>

lemma encode_failure_defined:
  assumes "request_ok q" and "tr_seq q \<le> u64_max" and "valid_failure_code (tf_code f) = Inr True"
    and "validate_actor_receipt q (Failure f) = Inr ()"
  shows "\<exists>b. encode_tool_response q (Failure f) = Inr b \<and> length b \<le> 4500"
proof -
  have "fits (3000 + 1500) (PDict (response_value q (Failure f)))"
    by (rule fits_response [OF assms(1,2)])
      (use fits_failure [OF assms(3,4,1)] in \<open>simp add: response_value_def\<close>)
  from fits_json_bytes [OF this] assms(3,4) show ?thesis
    by (auto simp: encode_tool_response_def encode_failure_Inr)
qed

lemma base64_len_mono: "m \<le> n \<Longrightarrow> base64_encoded_len m \<le> base64_encoded_len n"
  unfolding base64_encoded_len_def by (simp add: zdiv_mono1)

lemma base64_len_nonneg: "0 \<le> n \<Longrightarrow> 0 \<le> base64_encoded_len n"
  by (simp add: base64_encoded_len_def)

lemma caps_positive: "request_ok q \<Longrightarrow> 0 < tr_stdout_cap_bytes q \<and> 0 < tr_stderr_cap_bytes q"
  by (simp add: request_ok_def positive_int_ok_def)

lemma overhead_within_limit:
  assumes "request_ok q"
  shows "response_protocol_overhead_bytes \<le> response_line_limit_bytes q"
  using caps_positive [OF assms] base64_len_nonneg [of "tr_stdout_cap_bytes q"]
    base64_len_nonneg [of "tr_stderr_cap_bytes q"] base64_len_nonneg [of read_file_media_max_bytes]
  by (simp add: response_line_limit_bytes_def read_file_media_max_bytes_def)

lemma preflight_failure:
  "request_ok q \<Longrightarrow> preflight_response_serialization q (Failure f) = validate_actor_receipt q (Failure f)"
  using overhead_within_limit [of q]
  by (cases "validate_actor_receipt q (Failure f)") (simp_all add: preflight_response_serialization_def)

text \<open>The frame of an accepted result fits the envelope of its request.\<close>

lemma media_within_limit:
  assumes "validate_media q x = Inr ()"
  shows "int (media_len x) \<le> (if read_file_media_enabled (tr_limits q)
    then base64_encoded_len read_file_media_max_bytes else 0)"
proof (cases "te_media x")
  case (Some m)
  with assms have m: "media_context_ok q x m" "media_content_ok m"
    by (auto simp: validate_media_def rbind_Inr_iff)
  then have "int (length (mp_content m)) \<le> read_file_media_max_bytes" "read_file_media_enabled (tr_limits q)"
    by (simp_all add: media_content_ok_def media_context_ok_def)
  then show ?thesis
    using base64_len_mono Some by (simp add: media_len_def length_b64encode)
qed (simp add: media_len_def base64_len_nonneg read_file_media_max_bytes_def)

definition survivors_counted :: "tool_result \<Rightarrow> bool" where
  "survivors_counted res = (case res of Failure _ \<Rightarrow> True | Execution x \<Rightarrow> te_survivor_count x \<le> u64_max)"

lemma accepted_frame_fits:
  assumes q: "request_ok q" "tr_seq q \<le> u64_max" and e: "encode_tool_response q res = Inr b"
    and s: "survivors_counted res"
  shows "\<exists>n. fits n (PDict (response_value q res)) \<and> int n < response_line_limit_bytes q"
proof (cases res)
  case (Failure f)
  then have "fits (3000 + 1500) (PDict (response_value q res))"
    using e by (intro fits_response [OF q])
      (auto simp: encode_tool_response_def encode_failure_Inr response_value_def intro!: fits_failure q(1))
  then show ?thesis
    using overhead_within_limit [OF q(1)]
    by (intro exI [of _ "3000 + 1500 :: nat"]) (simp add: response_protocol_overhead_bytes_def)
next
  case (Execution x)
  then have x: "encode_execution q x = Inr b" using e by (simp add: encode_tool_response_def)
  note v = x [unfolded encode_execution_Inr]
  let ?n = "12000 + length (b64encode (te_stdout x)) + length (b64encode (te_stderr x)) + media_len x"
  have "fits ?n (PDict (result_value q x))"
    using v s Execution by (intro fits_result q(1)) (auto simp: survivors_counted_def)
  then have "fits (3000 + ?n) (PDict (response_value q res))"
    by (intro fits_response [OF q]) (simp add: response_value_def Execution)
  moreover have "int (length (b64encode (te_stdout x))) \<le> base64_encoded_len (tr_stdout_cap_bytes q)"
    "int (length (b64encode (te_stderr x))) \<le> base64_encoded_len (tr_stderr_cap_bytes q)"
    using v base64_len_mono by (simp_all add: length_b64encode)
  moreover have "int (media_len x) \<le> (if read_file_media_enabled (tr_limits q)
    then base64_encoded_len read_file_media_max_bytes else 0)"
    using v by (intro media_within_limit) simp
  ultimately show ?thesis
    by (intro exI [of _ "3000 + ?n"])
      (simp add: response_line_limit_bytes_def response_protocol_overhead_bytes_def)
qed

section \<open>A sample response\<close>

lemma sample_encodes:
  assumes "create_receipt META_VALIDATE ACTOR COMPLETED None True 25000000001 (Some True) (Some True) = Inr r"
    and "is_sha256_hex digest"
  shows "\<exists>b. encode_tool_response (sample_request digest) (Execution (sample_execution r)) = Inr b"
proof -
  let ?q = "sample_request digest" and ?x = "sample_execution r"
  have p: "validate_process_result ?q ?x = Inr ()"
    by (simp add: validate_process_result_def target_ok_def process_valid_def sample_execution_def
        is_foreground_terminal_request_def sample_request_def dict_get_default_def)
  have m: "validate_media ?q ?x = Inr ()" by (simp add: validate_media_def sample_execution_def)
  have seq: "tr_seq ?q \<le> u64_max" by (simp add: sample_request_def u64_max_def)
  note ok = sample_request_ok [OF assms(2)]
  note v = sample_execution_validates [OF assms(1), of digest]
  have "fits (12000 + length (b64encode (te_stdout ?x)) + length (b64encode (te_stderr ?x)) + media_len ?x)
    (PDict (result_value ?q ?x))"
    by (rule fits_result [OF ok p v m]) (simp_all add: sample_execution_def u64_max_def)
  then obtain b where "json_bytes False (PDict (response_value ?q (Execution ?x))) = Inr b"
    using fits_json_bytes [OF fits_response [OF ok seq, of _ "Execution ?x"]]
    by (fastforce simp: response_value_def)
  then show ?thesis
    using p v m by (simp add: encode_tool_response_def encode_execution_Inr)
      (simp add: sample_execution_def sample_request_def)
qed

lemma sample_seq: "tr_seq (sample_request digest) \<le> u64_max"
  by (simp add: sample_request_def u64_max_def)

section \<open>Properties\<close>

text \<open>
  C4: every response fits the line the reader on the other side allows for its request: with
  64-bit sequence and survivor counts, an encoded response and its newline stay within
  \<open>_response_line_limit_bytes\<close>, whatever the output, the media or the receipt.
\<close>

theorem response_within_line_limit:
  assumes "request_ok q" and "tr_seq q \<le> u64_max" and "survivors_counted res"
    and "encode_tool_response q res = Inr b"
  shows "int (length (b @ [char_of (10 :: nat)])) \<le> response_line_limit_bytes q"
proof -
  obtain n where n: "fits n (PDict (response_value q res))" "int n < response_line_limit_bytes q"
    using accepted_frame_fits [OF assms(1,2,4,3)] by blast
  then have "length b \<le> n"
    using fits_json_bytes [OF n(1)] encode_json_bytes [OF assms(4)] by auto
  then show ?thesis using n(2) by simp
qed

theorem response_within_line_limit_witness:
  "\<exists>r b. encode_tool_response (sample_request (replicate 64 (CHR ''0''))) (Execution (sample_execution r)) = Inr b
    \<and> int (length (b @ [char_of (10 :: nat)])) \<le> response_line_limit_bytes (sample_request (replicate 64 (CHR ''0'')))"
proof -
  obtain r where r: "create_receipt META_VALIDATE ACTOR COMPLETED None True 25000000001 (Some True) (Some True) = Inr r"
    by (rule sample_actor_receipt)
  obtain b where b: "encode_tool_response (sample_request (replicate 64 (CHR ''0''))) (Execution (sample_execution r)) = Inr b"
    using sample_encodes [OF r sample_spec] by blast
  have "survivors_counted (Execution (sample_execution r))"
    by (simp add: survivors_counted_def sample_execution_def u64_max_def)
  from response_within_line_limit [OF sample_request_ok [OF sample_spec] sample_seq this b] b
  show ?thesis by blast
qed

text \<open>
  C33: a response is one line that says what it should: no newline can occur in it, reading it as
  JSON gives back the frame, the frame names the request by sequence number and by the SHA-256
  of the very line that was read, and the output of an execution is recovered byte for byte.
\<close>

theorem response_frame_faithful:
  assumes "request_ok q" and "tr_seq q \<le> u64_max" and "survivors_counted res"
    and "encode_tool_response q res = Inr b"
  shows "list_all (\<lambda>c. 32 \<le> ord_of c) b
    \<and> json_loads default_hooks b = Inr (PDict (response_value q res))
    \<and> dict_get (response_value q res) ''seq'' = PInt (tr_seq q)
    \<and> dict_get (response_value q res) ''request_sha256'' = PStr (sha256_hex (tr_raw_json q))
    \<and> (case res of
         Failure f \<Rightarrow> dict_get (response_value q res) ''failure'' = PDict (failure_value q f)
       | Execution x \<Rightarrow>
           (\<exists>out err. dict_get (response_value q res) ''result'' = PDict (result_value q x)
              \<and> dict_get (result_value q x) ''stdout_base64'' = PStr out \<and> b64decode out = te_stdout x
              \<and> dict_get (result_value q x) ''stderr_base64'' = PStr err \<and> b64decode err = te_stderr x))"
proof -
  have d: "json_dumps (PDict (response_value q res)) = Some b"
    using encode_json_bytes [OF assms(4)] by (simp add: json_bytes_Inr)
  have w: "wf_val (PDict (response_value q res))"
    using accepted_frame_fits [OF assms(1,2,4,3)] by (auto simp: fits_def)
  show ?thesis
    using ge32_json_dumps(1) [OF d] default_reader.loads_dumps [OF d w]
    by (cases res) (simp_all add: response_value_def response_identity_def dict_get_def request_sha256_def
        result_value_def b64decode_encode)
qed

theorem response_frame_faithful_witness:
  "\<exists>r b. encode_tool_response (sample_request (replicate 64 (CHR ''0''))) (Execution (sample_execution r)) = Inr b
    \<and> list_all (\<lambda>c. 32 \<le> ord_of c) b"
proof -
  obtain r where r: "create_receipt META_VALIDATE ACTOR COMPLETED None True 25000000001 (Some True) (Some True) = Inr r"
    by (rule sample_actor_receipt)
  obtain b where b: "encode_tool_response (sample_request (replicate 64 (CHR ''0''))) (Execution (sample_execution r)) = Inr b"
    using sample_encodes [OF r sample_spec] by blast
  have "survivors_counted (Execution (sample_execution r))"
    by (simp add: survivors_counted_def sample_execution_def u64_max_def)
  from response_frame_faithful [OF sample_request_ok [OF sample_spec] sample_seq this b] b
  show ?thesis by blast
qed



text \<open>
  C35: the proviso is needed: a failure that denies execution but claims containment, and whose
  receipt is missing, is refused, and so is the frame built in its place; the request is then left
  without any response.
\<close>

theorem fallback_gap:
  assumes "request_ok q" and "receipt_required q" and "tf_actor_receipt f = None"
    and "\<not> tf_execution_may_have_started f" and "tf_cleanup_verified f \<noteq> None"
  shows "preflight_response_serialization q (Failure f) = Inl actor_receipt_error
    \<and> (\<exists>f'. fallback_serialization_failure q (Failure f) ''external_response_actor_receipt_invalid'' = Inr f'
         \<and> preflight_response_serialization q (Failure f') = Inl actor_receipt_error)"
proof -
  have "has_absolute_deadline q" using assms(2) by (simp add: receipt_required_def has_absolute_deadline_def)
  from live_request_stages [OF assms(1) this] obtain a digest where
    a: "tr_deadline q = live_deadline a digest" "0 < a" "a + 75000000000 \<le> u64_max" by blast
  then have ad: "dv_actor_done (tr_deadline q) = Some a" by (simp add: live_deadline_def)
  obtain r where r: "create_receipt ACTOR_DONE ACTOR UNEXPECTED_FAILURE None False a (tf_cleanup_verified f)
      (tf_census_verified f) = Inr r"
    using create_receipt_defined [of a ACTOR_DONE ACTOR UNEXPECTED_FAILURE None False "tf_cleanup_verified f"
        "tf_census_verified f"] a(2,3) by auto
  then have "\<not> receipt_rule_ok r" using assms(5) by (auto simp: create_receipt_Inr receipt_rule_ok_def)
  let ?f = "\<lparr>tf_code = ''external_response_actor_receipt_invalid'', tf_execution_may_have_started = False,
      tf_cleanup_verified = tf_cleanup_verified f, tf_census_verified = tf_census_verified f,
      tf_actor_receipt = Some r\<rparr>"
  have "valid_failure_code ''external_response_actor_receipt_invalid'' = Inr True"
    by (simp add: valid_failure_code_def failure_code_char_def ord_of_def is_digit_def rbind_Inr_iff)
  then have fb: "fallback_serialization_failure q (Failure f) ''external_response_actor_receipt_invalid'' = Inr ?f"
    using assms(2-4) r ad by (simp add: fallback_serialization_failure_def fallback_actor_receipt_def)
  have no: "validate_actor_receipt q (Failure g) = Inl actor_receipt_error"
    if "validate_actor_receipt q (Failure g) \<noteq> Inr ()" for g
    using that validate_actor_receipt_error [OF assms(1)]
    by (cases "validate_actor_receipt q (Failure g)") auto
  have n: "validate_actor_receipt q (Failure f) \<noteq> Inr ()" "validate_actor_receipt q (Failure ?f) \<noteq> Inr ()"
    using assms(2,3) \<open>\<not> receipt_rule_ok r\<close> by (simp_all add: validate_actor_receipt_required)
  show ?thesis using no [OF n(1)] no [OF n(2)] fb by (simp add: preflight_failure [OF assms(1)])
qed

theorem fallback_gap_witness:
  "let q = sample_request (replicate 64 (CHR ''0''));
       f = \<lparr>tf_code = ''refused'', tf_execution_may_have_started = False, tf_cleanup_verified = Some True,
            tf_census_verified = None, tf_actor_receipt = None\<rparr>
   in preflight_response_serialization q (Failure f) = Inl actor_receipt_error"
  using fallback_gap [OF sample_request_ok [OF sample_spec] sample_receipt_required,
      of "\<lparr>tf_code = ''refused'', tf_execution_may_have_started = False, tf_cleanup_verified = Some True,
            tf_census_verified = None, tf_actor_receipt = None\<rparr>"]
  by (simp add: Let_def)

text \<open>
  C36: an accepted execution accounts for its processes: cleanup and census are verified, only a
  retained background command leaves survivors, a foreground command never does, and a background
  start either publishes a task id with a live process or proves that none was started.
\<close>

theorem accepted_execution_accounts:
  assumes "encode_tool_response q (Execution x) = Inr b"
  shows "te_cleanup_verified x \<and> te_census_verified x
    \<and> (te_survivor_count x = 0 \<or> te_process_disposition x = BACKGROUND_RETAINED \<and> te_survivor_count x > 0)
    \<and> (is_foreground_terminal_request q \<longrightarrow>
         te_process_disposition x = FOREGROUND_CLEANED \<and> te_cleanup_attempted x \<and> te_survivor_count x = 0)
    \<and> (is_background_start_request q \<longrightarrow>
         te_process_disposition x = BACKGROUND_RETAINED \<and> te_survivor_count x > 0
           \<and> (\<exists>t. te_target_task_id x = Some t \<and> text_ok 256 t)
         \<or> te_process_disposition x = NO_PROCESS \<and> te_target_task_id x = None
           \<and> (has_absolute_deadline q \<longrightarrow> valid_background_start_observation q x))"
proof -
  obtain t where t: "target_ok x = Inr t" "process_valid q x t" and s: "te_survivor_count x \<ge> 0"
    using assms by (auto simp: encode_tool_response_def encode_execution_Inr validate_process_Inr)
  have excl: "\<not> (is_foreground_terminal_request q \<and> is_background_start_request q)"
    by (simp add: is_foreground_terminal_request_def is_background_start_request_def)
  have kill: "is_foreground_terminal_request q \<or> is_background_start_request q \<Longrightarrow>
      tr_tool_name q \<noteq> ''kill_terminal_command''"
    by (auto simp: is_foreground_terminal_request_def is_background_start_request_def)
  have task: "\<exists>i. te_target_task_id x = Some i \<and> text_ok 256 i" if t
    using t(1) that by (auto simp: target_ok_def rbind_Inr_iff text_ok_def split: option.splits)
  show ?thesis
  proof (cases "te_process_disposition x")
    case NO_PROCESS
    with t(2) have np: "te_target_task_id x = None" "te_cleanup_verified x" "te_census_verified x"
      "te_survivor_count x = 0"
      "if live_background_no_process q x then valid_background_start_observation q x
       else if is_background_start_request q then tr_schema_version q = legacy_schema
         \<and> te_background_start_observation x = None \<and> te_return_code x = 2
       else \<not> is_foreground_terminal_request q \<and> te_background_start_observation x = None"
      unfolding process_valid_def by simp_all
    have "live_background_no_process q x \<longleftrightarrow> has_absolute_deadline q \<and> is_background_start_request q"
      using NO_PROCESS by (simp add: live_background_no_process_def has_absolute_deadline_def)
    with np NO_PROCESS excl show ?thesis
      by (cases "is_background_start_request q"; cases "has_absolute_deadline q") simp_all
  qed (use t(2) excl kill task in \<open>auto simp: process_valid_def\<close>)
qed

theorem accepted_execution_accounts_witness:
  "\<exists>r b. encode_tool_response (sample_request (replicate 64 (CHR ''0''))) (Execution (sample_execution r)) = Inr b
    \<and> te_cleanup_verified (sample_execution r) \<and> te_survivor_count (sample_execution r) = 0"
proof -
  obtain r where r: "create_receipt META_VALIDATE ACTOR COMPLETED None True 25000000001 (Some True) (Some True) = Inr r"
    by (rule sample_actor_receipt)
  obtain b where b: "encode_tool_response (sample_request (replicate 64 (CHR ''0''))) (Execution (sample_execution r)) = Inr b"
    using sample_encodes [OF r sample_spec] by blast
  from accepted_execution_accounts [OF b] b show ?thesis
    by (auto simp: sample_execution_def)
qed

end
