(* ===== verification/Bridge_Loop.thy ===== *)
theory Bridge_Loop
  imports Bridge_Response
begin

text \<open>
  The exchange itself (\<open>run_stdio_bridge\<close> of \<open>adapter/stdio_bridge.py\<close>). One iteration reads a
  line from the runtime, checks it, hands the request to the tool handler, settles the result as
  a response frame and writes it. Everything the iteration gets from outside is an argument: the
  clock readings at each point where the code asks for the time, the line, what the handler
  did, and whether the pipe drained. A reading carries both clocks of the code, the monotonic
  nanoseconds of live requests and the event loop time (in seconds, exact here) of legacy ones.
\<close>

section \<open>The environment of an iteration\<close>

record reading =
  mono_ns :: int
  loop_time :: rat

datatype read_outcome = Line bytes | Read_failed

text \<open>What the handler's task did: returned, raised (four kinds), or was still running.\<close>

datatype handler_outcome =
    Returned tool_result
  | Raised_fatal tool_failure
  | Raised_bridge pystr
  | Raised_other
  | Was_cancelled
  | Not_done

record iteration =
  it_read :: reading
  it_line :: read_outcome
  it_dispatch :: reading
  it_handler :: handler_outcome
  it_encode_before :: reading
  it_encode_after :: reading
  it_write_before :: reading
  it_write_after :: reading
  it_drain :: reading
  it_drained :: bool

section \<open>Configuration\<close>

record config =
  cfg_receipt :: "deadline_receipt option"
  cfg_operation_deadline :: rat

definition legacy :: "config \<Rightarrow> bool" where
  "legacy cfg \<longleftrightarrow> cfg_receipt cfg = None"

text \<open>\<open>deadline_sec\<close> as a number: a float that is not finite is outside the model.\<close>

definition seconds :: "pyval \<Rightarrow> rat option" where
  "seconds v = (case v of PInt i \<Rightarrow> Some (of_int i) | PFloat q \<Rightarrow> Some q | _ \<Rightarrow> None)"

text \<open>
  The checks before the child is started, and the configuration of its loop; \<open>now\<close> is the
  monotonic clock, \<open>start\<close> the event loop time after the start.
\<close>

definition configure :: "pystr list \<Rightarrow> pyval \<Rightarrow> deadline_receipt option \<Rightarrow> int \<Rightarrow> rat \<Rightarrow> config result" where
  "configure command deadline_sec receipt now start =
     (case receipt of
        None \<Rightarrow>
          (case seconds deadline_sec of
             None \<Rightarrow>
               (case deadline_sec of
                  PNonFinite c \<Rightarrow> Inl Outside_model
                | _ \<Rightarrow> Inl (BridgeError ''external_bridge_configuration_invalid''))
           | Some d \<Rightarrow>
               ensure (command \<noteq> [] \<and> d > 0) (BridgeError ''external_bridge_configuration_invalid'')
                 (Inr \<lparr>cfg_receipt = None,
                       cfg_operation_deadline = start + d - min 1 (max (5 / 100) (d * (1 / 100)))\<rparr>))
      | Some r \<Rightarrow>
          ensure (command \<noteq> [] \<and> deadline_sec = PNone)
            (BridgeError ''external_bridge_configuration_invalid'')
            (ensure (now < actor_done_ns (rcp_cutoffs r)) (BridgeError ''deadline_before_dispatch'')
               (Inr \<lparr>cfg_receipt = Some r, cfg_operation_deadline = 0\<rparr>)))"

section \<open>State\<close>

text \<open>
  \<open>expected_seq\<close> and \<open>fatal_sent\<close> are the variables of the code; the calls made to the handler
  and the lines written to the child, each with the reading that admitted it, are its effects.
\<close>

record written =
  wr_request :: tool_request
  wr_result :: tool_result
  wr_response :: bytes
  wr_at :: reading

record loop_state =
  ls_expected_seq :: int
  ls_fatal_sent :: bool
  ls_dispatched :: "(tool_request \<times> reading) list"
  ls_written :: "written list"

definition initial_state :: loop_state where
  "initial_state = \<lparr>ls_expected_seq = 0, ls_fatal_sent = False, ls_dispatched = [], ls_written = []\<rparr>"

section \<open>One iteration\<close>

definition read_remaining :: "config \<Rightarrow> reading \<Rightarrow> rat" where
  "read_remaining cfg t =
     (case cfg_receipt cfg of
        None \<Rightarrow> cfg_operation_deadline cfg - loop_time t
      | Some r \<Rightarrow> strict_remaining_sec (cleanup_start_ns (rcp_cutoffs r)) (mono_ns t))"

definition accept_request :: "config \<Rightarrow> int \<Rightarrow> bytes \<Rightarrow> tool_request result" where
  "accept_request cfg expected line =
     ensure (length line \<le> max_request_line_bytes \<and> ord_of (last line) = 10)
       (BridgeError ''external_request_framing_invalid'')
     (rbind (parse_tool_request (butlast line) (legacy cfg)) (\<lambda>q.
      rbind (case cfg_receipt cfg of None \<Rightarrow> Inr () | Some r \<Rightarrow> validate_live_request_binding q r) (\<lambda>_.
      ensure (tr_seq q = expected) (BridgeError ''external_request_sequence_mismatch'') (Inr q))))"

text \<open>\<open>stages = request.settlement_stages; assert stages is not None\<close>.\<close>

definition stages_of :: "tool_request \<Rightarrow> stages result" where
  "stages_of q =
     rbind (settlement_stages q) (\<lambda>st. case st of None \<Rightarrow> Inl AssertionError | Some x \<Rightarrow> Inr x)"

definition dispatch_remaining :: "config \<Rightarrow> tool_request \<Rightarrow> reading \<Rightarrow> rat result" where
  "dispatch_remaining cfg q t =
     (if has_absolute_deadline q then
        rbind (stages_of q) (\<lambda>st.
          if tr_tool_name q = ''get_terminal_command_output''
          then Inr (strict_remaining_sec (output_ns st) (mono_ns t))
          else case dv_actor_done (tr_deadline q) of
            None \<Rightarrow> Inl AssertionError
          | Some a \<Rightarrow> Inr (strict_remaining_sec a (mono_ns t)))
      else if legacy cfg then Inr (cfg_operation_deadline cfg - loop_time t)
      else Inl AssertionError)"

definition actor_failure :: "tool_request \<Rightarrow> pystr \<Rightarrow> tool_failure result" where
  "actor_failure q code =
     rbind (fallback_actor_receipt q True None None None None) (\<lambda>receipt.
       Inr \<lparr>tf_code = code, tf_execution_may_have_started = True, tf_cleanup_verified = None,
            tf_census_verified = None, tf_actor_receipt = receipt\<rparr>)"

text \<open>The result to settle, and whether the deadline of the tool ends the loop afterwards.\<close>

definition handler_result :: "tool_request \<Rightarrow> handler_outcome \<Rightarrow> (tool_result \<times> bool) result" where
  "handler_result q out =
     (case out of
        Not_done \<Rightarrow>
          if \<not> has_absolute_deadline q
          then Inl (BridgeError ''external_bridge_handler_deadline_exceeded'')
          else rbind (tool_settlement_deadline_failure q) (\<lambda>f. Inr (Failure f, True))
      | Returned res \<Rightarrow> Inr (res, False)
      | Was_cancelled \<Rightarrow> Inl CancelledError
      | Raised_fatal f \<Rightarrow> Inr (Failure f, False)
      | Raised_bridge code \<Rightarrow>
          rbind (valid_failure_code code) (\<lambda>valid.
          rbind (actor_failure q (if valid then code else ''terminal_actor_failure'')) (\<lambda>f.
            Inr (Failure f, False)))
      | Raised_other \<Rightarrow>
          rbind (actor_failure q ''terminal_actor_unexpected_failure'') (\<lambda>f. Inr (Failure f, False)))"

abbreviation serialization_deadline :: py_error where
  "serialization_deadline \<equiv> BridgeError ''response_serialization_deadline_exceeded''"

text \<open>The encoding inside the \<open>try\<close> block, ...\<close>

definition encode_in_time :: "tool_request \<Rightarrow> tool_result \<Rightarrow> reading \<Rightarrow> bytes result" where
  "encode_in_time q res t =
     rbind (if has_absolute_deadline q then
              rbind (stages_of q) (\<lambda>st.
                ensure (strict_remaining_sec (encode_ns st) (mono_ns t) > 0) serialization_deadline
                  (preflight_response_serialization q res))
            else Inr ()) (\<lambda>_.
       encode_tool_response q res)"

text \<open>... its handler, and the check after it.\<close>

definition settle :: "tool_request \<Rightarrow> tool_result \<Rightarrow> reading \<Rightarrow> reading \<Rightarrow> (tool_result \<times> bytes) result" where
  "settle q res before_encode after_encode =
     rbind (case encode_in_time q res before_encode of
              Inr response \<Rightarrow> Inr (res, response)
            | Inl e \<Rightarrow>
                (case e of
                   BridgeError code \<Rightarrow>
                     if \<not> has_absolute_deadline q \<or> code = ''response_serialization_deadline_exceeded''
                     then Inl e
                     else rbind (fallback_serialization_failure q res code) (\<lambda>f.
                       rbind (preflight_response_serialization q (Failure f)) (\<lambda>_.
                       rbind (encode_tool_response q (Failure f)) (\<lambda>response.
                         Inr (Failure f, response))))
                 | _ \<Rightarrow> Inl e)) (\<lambda>settled.
     if has_absolute_deadline q then
       rbind (stages_of q) (\<lambda>st.
         ensure (strict_remaining_sec (encode_ns st) (mono_ns after_encode) > 0) serialization_deadline
           (Inr settled))
     else Inr settled)"

definition is_failure :: "tool_result \<Rightarrow> bool" where
  "is_failure res = (case res of Failure _ \<Rightarrow> True | Execution _ \<Rightarrow> False)"

text \<open>Writing, draining, and the end of the iteration; \<open>st\<close> is the state after the dispatch.\<close>

definition write_response ::
  "config \<Rightarrow> tool_request \<Rightarrow> loop_state \<Rightarrow> iteration \<Rightarrow> tool_result \<Rightarrow> bytes \<Rightarrow> bool \<Rightarrow> loop_state outcome" where
  "write_response cfg q st it res response control_error =
     (let sent = st\<lparr>ls_written := ls_written st @
            [\<lparr>wr_request = q, wr_result = res, wr_response = response, wr_at = it_write_before it\<rparr>]\<rparr>;
          drained = sent\<lparr>ls_expected_seq := ls_expected_seq st + 1, ls_fatal_sent := is_failure res\<rparr>;
          late = (if has_absolute_deadline q then serialization_deadline
                  else BridgeError ''external_bridge_write_deadline_exceeded'')
      in if has_absolute_deadline q then
           (case stages_of q of
              Inl e \<Rightarrow> Raised st e
            | Inr stg \<Rightarrow>
                if mono_ns (it_write_before it) \<ge> drain_ns stg then Raised st serialization_deadline
                else if mono_ns (it_write_after it) \<ge> drain_ns stg then Raised sent serialization_deadline
                else if strict_remaining_sec (drain_ns stg) (mono_ns (it_drain it)) \<le> 0 \<or> \<not> it_drained it
                then Raised sent late
                else if control_error
                then Raised drained (BridgeError ''tool_settlement_deadline_exceeded'')
                else Next drained)
         else if cfg_operation_deadline cfg - loop_time (it_drain it) \<le> 0 \<or> \<not> it_drained it
         then Raised sent late
         else if control_error then Raised drained (BridgeError ''tool_settlement_deadline_exceeded'')
         else Next drained)"

definition serve :: "config \<Rightarrow> tool_request \<Rightarrow> loop_state \<Rightarrow> iteration \<Rightarrow> loop_state outcome" where
  "serve cfg q st it =
     (case dispatch_remaining cfg q (it_dispatch it) of
        Inl e \<Rightarrow> Raised st e
      | Inr remaining \<Rightarrow>
          if remaining \<le> 0 then
            Raised st (BridgeError (if has_absolute_deadline q then ''deadline_before_dispatch''
                                    else ''external_bridge_handler_deadline_exceeded''))
          else
            (let called = st\<lparr>ls_dispatched := ls_dispatched st @ [(q, it_dispatch it)]\<rparr> in
             case handler_result q (it_handler it) of
               Inl e \<Rightarrow> Raised called e
             | Inr (res, control_error) \<Rightarrow>
                 (case settle q res (it_encode_before it) (it_encode_after it) of
                    Inl e \<Rightarrow> Raised called e
                  | Inr (settled, response) \<Rightarrow>
                      write_response cfg q called it settled response control_error)))"

definition bridge_iteration :: "config \<Rightarrow> loop_state \<Rightarrow> iteration \<Rightarrow> loop_state outcome" where
  "bridge_iteration cfg st it =
     (if read_remaining cfg (it_read it) \<le> 0 then
        Raised st (BridgeError (if legacy cfg then ''external_bridge_deadline_exceeded''
                                else ''runtime_publication_deadline_exceeded''))
      else case it_line it of
        Read_failed \<Rightarrow>
          Raised st (BridgeError (if legacy cfg then ''external_bridge_read_failed''
                                  else ''runtime_publication_deadline_exceeded''))
      | Line line \<Rightarrow>
          if line = [] then Finished st
          else if ls_fatal_sent st then Raised st (BridgeError ''external_request_after_fatal'')
          else case accept_request cfg (ls_expected_seq st) line of
            Inl e \<Rightarrow> Raised st e
          | Inr q \<Rightarrow> serve cfg q st it)"

definition bridge_run :: "config \<Rightarrow> iteration list \<Rightarrow> loop_state outcome" where
  "bridge_run cfg its = run_loop (bridge_iteration cfg) initial_state its"

section \<open>The end of a run\<close>

text \<open>\<open>_bounded_stderr\<close>: the chunks read until end of file, capped.\<close>

definition max_stderr_bytes :: nat where
  "max_stderr_bytes = 1024 * 1024"

primrec bounded_stderr :: "bytes \<Rightarrow> bytes list \<Rightarrow> bytes" where
  "bounded_stderr captured [] = captured"
| "bounded_stderr captured (chunk # chunks) =
     (if chunk = [] then captured
      else let remaining = max_stderr_bytes - length captured in
        bounded_stderr (if remaining > 0 then captured @ take remaining chunk else captured) chunks)"

text \<open>
  The names used in diagnostics: an argument of the call, else an attribute of the handler, else
  \<open>unknown\<close>; whatever is not a string becomes \<open>unknown\<close>.
\<close>

definition bridge_handler_identity ::
  "pyval option \<Rightarrow> pyval option \<Rightarrow> pyval option \<Rightarrow> pyval option \<Rightarrow> pystr \<times> pystr" where
  "bridge_handler_identity handler_image handler_family task_image trial_family =
     (let pick = (\<lambda>arg attr. case arg of Some v \<Rightarrow> v
            | None \<Rightarrow> (case attr of Some v \<Rightarrow> v | None \<Rightarrow> PStr ''unknown''));
          text_or = (\<lambda>v. case v of PStr s \<Rightarrow> s | _ \<Rightarrow> ''unknown'')
      in (text_or (pick task_image handler_image), text_or (pick trial_family handler_family)))"

definition runtime_exit_failure_receipt :: "pystr \<times> pystr \<Rightarrow> int \<Rightarrow> bytes \<Rightarrow> pydict" where
  "runtime_exit_failure_receipt names return_code stderr =
     [(''schema_version'', PStr ''external-bridge-failure-v1''),
      (''code'', PStr ''external_runtime_nonzero''), (''phase'', PStr ''runtime_exit''),
      (''task_image'', PStr (fst names)), (''trial_family'', PStr (snd names)),
      (''return_code'', PInt return_code),
      (''stderr_byte_length'', PInt (int (length stderr))),
      (''stderr_sha256'', PStr (sha256_hex stderr))]"

record bridge_outcome =
  bo_request_count :: int
  bo_stderr :: bytes

text \<open>After end of file: wait for the child (\<open>None\<close>: it did not exit in time).\<close>

definition finish_bridge :: "loop_state \<Rightarrow> int option \<Rightarrow> bytes \<Rightarrow> bridge_outcome result" where
  "finish_bridge st exit_code stderr =
     (case exit_code of
        None \<Rightarrow> Inl TimeoutError
      | Some code \<Rightarrow>
          ensure (code = 0) (BridgeError ''external_runtime_nonzero'')
            (Inr \<lparr>bo_request_count = ls_expected_seq st, bo_stderr = stderr\<rparr>))"

text \<open>
  What the cleanup of a failed run observed: which of the three owned tasks completed and with
  which value, and which of them was interrupted by a cancellation of the caller.
\<close>

record cleanup_report =
  cr_execution_completed :: bool
  cr_execution_value :: bool
  cr_cleanup_completed :: bool
  cr_cleanup_value :: bool
  cr_stop_completed :: bool
  cr_cancelled :: bool

definition components_verified :: "cleanup_report \<Rightarrow> (pystr \<times> bool) list" where
  "components_verified r =
     [(''execution'', cr_execution_completed r \<and> cr_execution_value r),
      (''cleanup'', cr_cleanup_completed r \<and> cr_cleanup_value r),
      (''stop'', cr_stop_completed r)]"

definition cleanup_ok :: "cleanup_report \<Rightarrow> bool" where
  "cleanup_ok r \<longleftrightarrow>
     cr_execution_completed r \<and> cr_execution_value r \<and> cr_cleanup_completed r \<and> cr_cleanup_value r
     \<and> cr_stop_completed r"

definition failed_component :: "cleanup_report \<Rightarrow> pystr option" where
  "failed_component r =
     map_option fst (List.find (\<lambda>nv. \<not> snd nv) (components_verified r))"

definition cleanup_receipt :: "cleanup_report \<Rightarrow> pystr \<Rightarrow> pydict" where
  "cleanup_receipt r failed =
     [(''schema_version'', PStr ''external-bridge-cleanup-receipt-v1''),
      (''failed_component'', PStr failed),
      (''component_completion'', PDict
         [(''execution'', PBool (cr_execution_completed r)), (''cleanup'', PBool (cr_cleanup_completed r)),
          (''stop'', PBool (cr_stop_completed r))]),
      (''components_verified'', PDict (map (\<lambda>nv. (fst nv, PBool (snd nv))) (components_verified r))),
      (''census_scope'', PStr ''remote_actor_owned_processes''),
      (''census_source'', PStr ''unavailable''),
      (''census_verified'', PBool False),
      (''survivor_count'', PNone)]"

text \<open>The exception a failed run ends with, and its cleanup receipt when the cleanup failed.\<close>

definition conclude_failure ::
  "bool \<Rightarrow> rat \<Rightarrow> cleanup_report \<Rightarrow> py_error \<Rightarrow> py_error \<times> pydict option" where
  "conclude_failure is_legacy hard_remaining r original =
     (if \<not> cleanup_ok r then
        (BridgeError (if \<not> is_legacy \<and> hard_remaining \<le> 0 then ''cleanup_deadline_exceeded''
                      else ''external_bridge_cleanup_unverified''),
         map_option (cleanup_receipt r) (failed_component r))
      else if cr_cancelled r then (CancelledError, None)
      else (original, None))"

section \<open>Inversion of an iteration\<close>

lemma remaining_pos: "strict_remaining_sec c t > 0 \<longleftrightarrow> t < c"
  by (simp add: strict_remaining_sec_def)

lemma remaining_nonpos: "strict_remaining_sec c t \<le> 0 \<longleftrightarrow> c \<le> t"
  by (simp add: strict_remaining_sec_def)

lemma accept_request_Inr:
  assumes "accept_request cfg n line = Inr q"
  shows "request_ok q" "tr_seq q = n" "tr_raw_json q = butlast line"
    "cfg_receipt cfg = Some r \<Longrightarrow> validate_live_request_binding q r = Inr ()"
    "\<not> legacy cfg \<Longrightarrow> has_absolute_deadline q"
proof -
  have p: "parse_tool_request (butlast line) (legacy cfg) = Inr q" "tr_seq q = n"
    and b: "(case cfg_receipt cfg of None \<Rightarrow> Inr () | Some r \<Rightarrow> validate_live_request_binding q r) = Inr ()"
    using assms by (auto simp: accept_request_def rbind_Inr_iff)
  show "request_ok q" "tr_raw_json q = butlast line" "tr_seq q = n"
    using parse_tool_request_Inr [OF p(1)] p(2) by simp_all
  show "cfg_receipt cfg = Some r \<Longrightarrow> validate_live_request_binding q r = Inr ()" using b by simp
  show "\<not> legacy cfg \<Longrightarrow> has_absolute_deadline q"
    using parse_tool_request_Inr(3) [OF p(1)] by (auto simp: has_absolute_deadline_def)
qed

lemma settle_encodes:
  assumes "settle q res t t' = Inr (res', response)"
  shows "encode_tool_response q res' = Inr response"
    "has_absolute_deadline q \<Longrightarrow> \<exists>st. stages_of q = Inr st \<and> mono_ns t' < encode_ns st"
proof -
  show "encode_tool_response q res' = Inr response"
    using assms by (auto simp: settle_def encode_in_time_def rbind_Inr_iff split: sum.splits py_error.splits if_splits)
  assume "has_absolute_deadline q"
  then show "\<exists>st. stages_of q = Inr st \<and> mono_ns t' < encode_ns st"
    using assms by (auto simp: settle_def rbind_Inr_iff remaining_pos)
qed

section \<open>Invariants of the exchange\<close>

text \<open>A call to the handler that the contract allows, and a response that it allows.\<close>

definition dispatch_ok :: "config \<Rightarrow> tool_request \<times> reading \<Rightarrow> bool" where
  "dispatch_ok cfg d \<longleftrightarrow>
     request_ok (fst d)
     \<and> (\<forall>r. cfg_receipt cfg = Some r \<longrightarrow> validate_live_request_binding (fst d) r = Inr ())
     \<and> (has_absolute_deadline (fst d) \<longrightarrow>
          (\<exists>st. stages_of (fst d) = Inr st
             \<and> (if tr_tool_name (fst d) = ''get_terminal_command_output''
                then mono_ns (snd d) < output_ns st
                else \<exists>a. dv_actor_done (tr_deadline (fst d)) = Some a \<and> mono_ns (snd d) < a)))"

definition written_ok :: "written \<Rightarrow> bool" where
  "written_ok w \<longleftrightarrow>
     encode_tool_response (wr_request w) (wr_result w) = Inr (wr_response w)
     \<and> (has_absolute_deadline (wr_request w) \<longrightarrow>
          (\<exists>st. stages_of (wr_request w) = Inr st \<and> mono_ns (wr_at w) < drain_ns st))"

definition numbered :: "tool_request list \<Rightarrow> bool" where
  "numbered qs \<longleftrightarrow> (\<forall>i < length qs. tr_seq (qs ! i) = int i)"

definition history_ok :: "config \<Rightarrow> loop_state \<Rightarrow> bool" where
  "history_ok cfg st \<longleftrightarrow>
     numbered (map fst (ls_dispatched st))
     \<and> list_all (dispatch_ok cfg) (ls_dispatched st)
     \<and> list_all written_ok (ls_written st)
     \<and> list_all (\<lambda>w. \<not> is_failure (wr_result w)) (butlast (ls_written st))"

definition loop_inv :: "config \<Rightarrow> loop_state \<Rightarrow> bool" where
  "loop_inv cfg st \<longleftrightarrow>
     history_ok cfg st
     \<and> map wr_request (ls_written st) = map fst (ls_dispatched st)
     \<and> ls_expected_seq st = int (length (ls_written st))
     \<and> ls_fatal_sent st = (ls_written st \<noteq> [] \<and> is_failure (wr_result (last (ls_written st))))"

text \<open>Where a run can stop: at most the last call is unanswered, at most the last write undrained.\<close>

definition loop_post :: "config \<Rightarrow> loop_state \<Rightarrow> bool" where
  "loop_post cfg st \<longleftrightarrow>
     history_ok cfg st
     \<and> (\<exists>rest. map fst (ls_dispatched st) = map wr_request (ls_written st) @ rest \<and> length rest \<le> 1)
     \<and> ls_expected_seq st \<le> int (length (ls_written st))
     \<and> int (length (ls_written st)) \<le> ls_expected_seq st + 1"

definition history_grows :: "loop_state \<Rightarrow> loop_state \<Rightarrow> bool" where
  "history_grows s t \<longleftrightarrow>
     (\<exists>ds ws. ls_dispatched t = ls_dispatched s @ ds \<and> ls_written t = ls_written s @ ws)"

lemma history_grows_refl: "history_grows s s"
  by (simp add: history_grows_def)

lemma history_grows_trans: "history_grows s t \<Longrightarrow> history_grows t u \<Longrightarrow> history_grows s u"
  by (force simp: history_grows_def)

text \<open>What one iteration can leave behind.\<close>

definition called :: "loop_state \<Rightarrow> tool_request \<Rightarrow> reading \<Rightarrow> loop_state" where
  "called st q t = st\<lparr>ls_dispatched := ls_dispatched st @ [(q, t)]\<rparr>"

definition sent :: "loop_state \<Rightarrow> tool_request \<Rightarrow> reading \<Rightarrow> written \<Rightarrow> loop_state" where
  "sent st q t w = (called st q t)\<lparr>ls_written := ls_written st @ [w]\<rparr>"

definition drained :: "loop_state \<Rightarrow> tool_request \<Rightarrow> reading \<Rightarrow> written \<Rightarrow> loop_state" where
  "drained st q t w = (sent st q t w)\<lparr>ls_expected_seq := ls_expected_seq st + 1,
     ls_fatal_sent := is_failure (wr_result w)\<rparr>"

lemma dispatch_remaining_ok:
  assumes "dispatch_remaining cfg q t = Inr rem" and "\<not> rem \<le> 0" and "request_ok q"
    and "\<And>r. cfg_receipt cfg = Some r \<Longrightarrow> validate_live_request_binding q r = Inr ()"
  shows "dispatch_ok cfg (q, t)"
proof (cases "has_absolute_deadline q")
  case True
  then obtain st where st: "stages_of q = Inr st"
    using assms(1) by (auto simp: dispatch_remaining_def rbind_Inr_iff)
  then show ?thesis
    using assms True
    by (auto simp: dispatch_ok_def dispatch_remaining_def remaining_nonpos split: if_splits option.splits)
qed (use assms in \<open>simp add: dispatch_ok_def\<close>)

lemma write_response_cases:
  assumes e: "encode_tool_response q res = Inr response"
    and out: "write_response cfg q (called st q t) it res response ce = out"
  obtains
    (unwritten) e where "out = Raised (called st q t) e"
  | (undrained) w e where "out = Raised (sent st q t w) e" "wr_request w = q" "wr_result w = res" "written_ok w"
  | (ended) w e where "out = Raised (drained st q t w) e" "wr_request w = q" "wr_result w = res" "written_ok w"
  | (again) w where "out = Next (drained st q t w)" "wr_request w = q" "wr_result w = res" "written_ok w"
      "\<not> ce"
proof -
  let ?w = "\<lparr>wr_request = q, wr_result = res, wr_response = response, wr_at = it_write_before it\<rparr>"
  have sent: "(called st q t)\<lparr>ls_written := ls_written (called st q t) @ [?w]\<rparr> = sent st q t ?w"
    by (simp add: sent_def called_def)
  have drained: "(sent st q t ?w)\<lparr>ls_expected_seq := ls_expected_seq (called st q t) + 1,
      ls_fatal_sent := is_failure res\<rparr> = drained st q t ?w"
    by (simp add: drained_def called_def)
  show thesis
  proof (cases "has_absolute_deadline q")
    case True
    show thesis
    proof (cases "stages_of q")
      case (Inl err)
      then show thesis
        using out True unwritten [of err] by (simp add: write_response_def Let_def)
    next
      case (Inr stg)
      have ok: "written_ok ?w" if "\<not> mono_ns (it_write_before it) \<ge> drain_ns stg"
        using that e Inr by (simp add: written_ok_def)
      show thesis
        using out True Inr ok unwritten undrained [of ?w] ended [of ?w] again [of ?w]
        unfolding write_response_def Let_def sent drained by (auto split: if_splits)
    qed
  next
    case False
    then have "written_ok ?w" using e by (simp add: written_ok_def)
    then show thesis
      using out False undrained [of ?w] ended [of ?w] again [of ?w]
      unfolding write_response_def Let_def sent drained by (auto split: if_splits)
  qed
qed

text \<open>One iteration: it leaves the state as it was, calls the handler, or also writes.\<close>

lemma iteration_cases:
  assumes "bridge_iteration cfg st it = out"
  obtains
    (waiting) "left_state out = st" "\<forall>s. out \<noteq> Next s"
  | (calling) q t e where "out = Raised (called st q t) e" "dispatch_ok cfg (q, t)"
      "tr_seq q = ls_expected_seq st" "\<not> ls_fatal_sent st"
  | (undrained) q t w e where "out = Raised (sent st q t w) e" "wr_request w = q" "written_ok w"
      "dispatch_ok cfg (q, t)" "tr_seq q = ls_expected_seq st" "\<not> ls_fatal_sent st"
  | (ended) q t w e where "out = Raised (drained st q t w) e" "wr_request w = q" "written_ok w"
      "dispatch_ok cfg (q, t)" "tr_seq q = ls_expected_seq st" "\<not> ls_fatal_sent st"
  | (again) q t w where "out = Next (drained st q t w)" "wr_request w = q" "written_ok w"
      "dispatch_ok cfg (q, t)" "tr_seq q = ls_expected_seq st" "\<not> ls_fatal_sent st"
proof (cases "\<exists>line q. \<not> ls_fatal_sent st \<and> accept_request cfg (ls_expected_seq st) line = Inr q
    \<and> out = serve cfg q st it")
  case False
  then have "left_state out = st \<and> (\<forall>s. out \<noteq> Next s)"
    using assms unfolding bridge_iteration_def by (auto split: read_outcome.splits sum.splits if_splits)
  then show thesis using waiting by blast
next
  case True
  then obtain line q where q: "\<not> ls_fatal_sent st" "accept_request cfg (ls_expected_seq st) line = Inr q"
    "out = serve cfg q st it" by blast
  note a = accept_request_Inr [OF q(2)]
  show thesis
  proof (cases "\<exists>rem. dispatch_remaining cfg q (it_dispatch it) = Inr rem \<and> \<not> rem \<le> 0")
    case False
    then have "left_state out = st \<and> (\<forall>s. out \<noteq> Next s)"
      using q(3) unfolding serve_def by (auto split: sum.splits if_splits)
    then show thesis using waiting by blast
  next
    case True
    then obtain rem where rem: "dispatch_remaining cfg q (it_dispatch it) = Inr rem" "\<not> rem \<le> 0" by blast
    have d: "dispatch_ok cfg (q, it_dispatch it)" by (rule dispatch_remaining_ok [OF rem a(1,4)])
    note facts = d a(2) q(1)
    let ?c = "called st q (it_dispatch it)"
    show thesis
    proof (cases "\<exists>e. out = Raised ?c e")
      case True
      then show thesis using calling facts by blast
    next
      case False
      then obtain res ce res' response where s: "settle q res (it_encode_before it) (it_encode_after it) = Inr (res', response)"
        and out: "write_response cfg q ?c it res' response ce = out"
        using q(3) rem unfolding serve_def called_def Let_def
        by (auto split: sum.splits if_splits prod.splits)
      from settle_encodes(1) [OF s] out show thesis
      proof (cases rule: write_response_cases)
        case (unwritten e)
        then show thesis using False by blast
      next
        case (undrained w e)
        then show thesis using that(3) facts by blast
      next
        case (ended w e)
        then show thesis using that(4) facts by blast
      next
        case (again w)
        then show thesis using that(5) facts by blast
      qed
    qed
  qed
qed

lemma numbered_snoc: "numbered qs \<Longrightarrow> tr_seq q = int (length qs) \<Longrightarrow> numbered (qs @ [q])"
  by (auto simp: numbered_def nth_append less_Suc_eq)

lemma history_called:
  assumes "loop_inv cfg st" and "dispatch_ok cfg (q, t)" and "tr_seq q = ls_expected_seq st"
  shows "history_ok cfg (called st q t)"
proof -
  have "length (ls_written st) = length (ls_dispatched st)"
    using assms(1) by (metis length_map loop_inv_def)
  then show ?thesis
    using assms numbered_snoc [of "map fst (ls_dispatched st)" q]
    by (simp add: history_ok_def loop_inv_def called_def)
qed

lemma no_failure_yet:
  assumes "loop_inv cfg st" and "\<not> ls_fatal_sent st"
  shows "list_all (\<lambda>w. \<not> is_failure (wr_result w)) (ls_written st)"
proof (cases "ls_written st = []")
  case False
  then have "ls_written st = butlast (ls_written st) @ [last (ls_written st)]" by simp
  moreover have "\<not> is_failure (wr_result (last (ls_written st)))" using assms False by (simp add: loop_inv_def)
  ultimately show ?thesis
    using assms(1) by (metis (no_types, lifting) history_ok_def list.pred_inject list_all_append loop_inv_def)
qed simp

lemma history_sent:
  assumes "loop_inv cfg st" and "\<not> ls_fatal_sent st" and "dispatch_ok cfg (q, t)"
    and "tr_seq q = ls_expected_seq st" and "written_ok w"
  shows "history_ok cfg (sent st q t w)"
  using history_called [OF assms(1,3,4)] no_failure_yet [OF assms(1,2)] assms(1,5)
  by (simp add: history_ok_def sent_def called_def loop_inv_def)

lemma history_drained: "history_ok cfg (sent st q t w) \<Longrightarrow> history_ok cfg (drained st q t w)"
  by (simp add: history_ok_def drained_def)

lemma loop_inv_post: "loop_inv cfg st \<Longrightarrow> loop_post cfg st"
  by (simp add: loop_inv_def loop_post_def)

lemma loop_inv_initial: "loop_inv cfg initial_state"
  by (simp add: loop_inv_def history_ok_def numbered_def initial_state_def)

lemma loop_inv_drained:
  assumes "loop_inv cfg st" and "\<not> ls_fatal_sent st" and "dispatch_ok cfg (q, t)"
    and "tr_seq q = ls_expected_seq st" and "written_ok w" and "wr_request w = q"
  shows "loop_inv cfg (drained st q t w)"
  using history_drained [OF history_sent [OF assms(1-5)]] assms(1,6)
  by (simp add: loop_inv_def drained_def sent_def called_def)

lemma iteration_next_inv:
  assumes "loop_inv cfg st" and "bridge_iteration cfg st it = Next st'"
  shows "loop_inv cfg st'"
  using assms(2)
proof (cases rule: iteration_cases)
  case waiting
  then show ?thesis by blast
next
  case (again q t w)
  then show ?thesis using loop_inv_drained [OF assms(1)] by simp
qed simp_all

lemma iteration_stop_post:
  assumes "loop_inv cfg st"
  shows "loop_post cfg (left_state (bridge_iteration cfg st it))"
  using refl [of "bridge_iteration cfg st it"]
proof (cases rule: iteration_cases)
  case waiting
  show ?thesis using waiting(1) loop_inv_post [OF assms] by simp
next
  case (calling q t e)
  then show ?thesis
    using history_called [OF assms calling(2,3)] assms
    by (simp add: loop_post_def loop_inv_def called_def)
next
  case (undrained q t w e)
  then show ?thesis
    using history_sent [OF assms undrained(6,4,5,3)] assms
    by (simp add: loop_post_def loop_inv_def sent_def called_def)
next
  case (ended q t w e)
  then show ?thesis
    using loop_inv_post [OF loop_inv_drained [OF assms ended(6,4,5,3,2)]] by simp
next
  case (again q t w)
  then show ?thesis
    using loop_inv_post [OF loop_inv_drained [OF assms again(6,4,5,3,2)]] by simp
qed

lemma iteration_grows: "history_grows st (left_state (bridge_iteration cfg st it))"
  using refl [of "bridge_iteration cfg st it"]
  by (cases rule: iteration_cases)
    (simp_all add: history_grows_refl, simp_all add: history_grows_def called_def sent_def drained_def)

lemma finished_unchanged: "bridge_iteration cfg st it = Finished st' \<Longrightarrow> st' = st"
proof -
  assume "bridge_iteration cfg st it = Finished st'"
  then show ?thesis by (cases rule: iteration_cases) simp_all
qed

interpretation bridge_loop:
  event_loop "bridge_iteration cfg" "loop_inv cfg" "loop_post cfg" history_grows for cfg
  by unfold_locales
    (use iteration_next_inv loop_inv_post iteration_stop_post history_grows_refl history_grows_trans
      iteration_grows in blast)+

section \<open>Settling a failed tool\<close>

lemma stages_of_live:
  assumes "request_ok q" and "has_absolute_deadline q"
  obtains a where "stages_of q = Inr (stages_at a 10000000000)" "dv_actor_done (tr_deadline q) = Some a"
proof -
  from live_request_stages [OF assms] obtain a digest where "tr_deadline q = live_deadline a digest"
    "settlement_stages q = Inr (Some (stages_at a 10000000000))" by blast
  then show thesis using that [of a] by (simp add: stages_of_def live_deadline_def)
qed

lemma actor_failure_validates:
  assumes "request_ok q"
  shows "\<exists>f. actor_failure q code = Inr f \<and> tf_code f = code \<and> validate_actor_receipt q (Failure f) = Inr ()"
proof (cases "receipt_required q")
  case True
  from fallback_receipt_fresh [OF assms True, of True None None None code] show ?thesis
    by (auto simp: actor_failure_def)
next
  case False
  then show ?thesis
    by (simp add: actor_failure_def fallback_actor_receipt_def validate_actor_receipt_not_required)
qed

lemma settle_failure:
  assumes "request_ok q" and "tr_seq q \<le> u64_max" and "has_absolute_deadline q"
    and "validate_actor_receipt q (Failure f) = Inr ()" and "valid_failure_code (tf_code f) = Inr True"
    and "stages_of q = Inr st" and "mono_ns t < encode_ns st" and "mono_ns t' < encode_ns st"
  shows "\<exists>b. settle q (Failure f) t t' = Inr (Failure f, b)"
proof -
  obtain b where "encode_tool_response q (Failure f) = Inr b"
    using encode_failure_defined [OF assms(1,2,5,4)] by blast
  then show ?thesis
    using assms preflight_failure [OF assms(1), of f]
    by (simp add: settle_def encode_in_time_def remaining_pos)
qed

text \<open>The outcomes of a tool that gave no result, and the code each is reported with.\<close>

definition failure_code_of :: "handler_outcome \<Rightarrow> pystr option" where
  "failure_code_of out =
     (case out of
        Not_done \<Rightarrow> Some ''tool_settlement_deadline_exceeded''
      | Raised_other \<Rightarrow> Some ''terminal_actor_unexpected_failure''
      | Raised_bridge code \<Rightarrow>
          (case valid_failure_code code of
             Inl _ \<Rightarrow> None
           | Inr valid \<Rightarrow> Some (if valid then code else ''terminal_actor_failure''))
      | _ \<Rightarrow> None)"

lemma failure_code_valid: "failure_code_of out = Some code \<Longrightarrow> valid_failure_code code = Inr True"
  by (auto simp: failure_code_of_def valid_failure_code_def failure_code_char_def ord_of_def is_digit_def
      rbind_Inr_iff split: handler_outcome.splits sum.splits if_splits)

lemma handler_result_failure:
  assumes "request_ok q" and "has_absolute_deadline q" and "failure_code_of out = Some code"
  shows "\<exists>f. handler_result q out = Inr (Failure f, out = Not_done) \<and> tf_code f = code
    \<and> validate_actor_receipt q (Failure f) = Inr ()"
proof (cases out)
  case Not_done
  then show ?thesis
    using assms deadline_failure_receipt [OF assms(1)] by (auto simp: handler_result_def failure_code_of_def)
next
  case (Raised_bridge c)
  then obtain valid where "valid_failure_code c = Inr valid"
    "code = (if valid then c else ''terminal_actor_failure'')"
    using assms(3) by (auto simp: failure_code_of_def split: sum.splits)
  then show ?thesis
    using actor_failure_validates [OF assms(1), of code] Raised_bridge by (auto simp: handler_result_def)
next
  case Raised_other
  then show ?thesis
    using assms actor_failure_validates [OF assms(1), of code] by (auto simp: handler_result_def failure_code_of_def)
qed (use assms(3) in \<open>simp_all add: failure_code_of_def\<close>)

lemma serve_failure:
  assumes q: "request_ok q" "tr_seq q \<le> u64_max" "has_absolute_deadline q"
    and code: "failure_code_of (it_handler it) = Some code"
    and rem: "dispatch_remaining cfg q (it_dispatch it) = Inr rem" "\<not> rem \<le> 0"
    and stg: "stages_of q = Inr stg"
    and enc: "mono_ns (it_encode_before it) < encode_ns stg" "mono_ns (it_encode_after it) < encode_ns stg"
    and drn: "mono_ns (it_write_before it) < drain_ns stg" "mono_ns (it_write_after it) < drain_ns stg"
      "mono_ns (it_drain it) < drain_ns stg" "it_drained it"
  shows "\<exists>w f. wr_request w = q \<and> wr_result w = Failure f \<and> tf_code f = code
    \<and> serve cfg q st it =
        (if it_handler it = Not_done
         then Raised (drained st q (it_dispatch it) w) (BridgeError ''tool_settlement_deadline_exceeded'')
         else Next (drained st q (it_dispatch it) w))"
proof -
  obtain f where f: "handler_result q (it_handler it) = Inr (Failure f, it_handler it = Not_done)"
    "tf_code f = code" "validate_actor_receipt q (Failure f) = Inr ()"
    using handler_result_failure [OF q(1,3) code] by blast
  have "valid_failure_code (tf_code f) = Inr True" using failure_code_valid [OF code] f(2) by simp
  from settle_failure [OF q f(3) this stg enc] obtain b where
    b: "settle q (Failure f) (it_encode_before it) (it_encode_after it) = Inr (Failure f, b)" by blast
  let ?w = "\<lparr>wr_request = q, wr_result = Failure f, wr_response = b, wr_at = it_write_before it\<rparr>"
  have "(called st q (it_dispatch it))\<lparr>ls_written := ls_written st @ [?w]\<rparr> = sent st q (it_dispatch it) ?w"
    by (simp add: sent_def)
  then have "serve cfg q st it =
        (if it_handler it = Not_done
         then Raised (drained st q (it_dispatch it) ?w) (BridgeError ''tool_settlement_deadline_exceeded'')
         else Next (drained st q (it_dispatch it) ?w))"
    using rem f b q(3) stg drn
    by (simp add: serve_def write_response_def called_def sent_def drained_def remaining_nonpos is_failure_def)
  then show ?thesis using f(2) by (intro exI [of _ ?w] exI [of _ f]) simp
qed

section \<open>A sample exchange\<close>

definition at_ns :: "int \<Rightarrow> reading" where
  "at_ns t = \<lparr>mono_ns = t, loop_time = 0\<rparr>"

definition sample_config :: config where
  "sample_config = \<lparr>cfg_receipt = Some sample_receipt, cfg_operation_deadline = 0\<rparr>"

text \<open>A line arrives in time; the tool is still running when the actor's time is over.\<close>

definition sample_iteration :: "bytes \<Rightarrow> iteration" where
  "sample_iteration line = \<lparr>it_read = at_ns 2, it_line = Line (line @ [char_of (10 :: nat)]),
     it_dispatch = at_ns 3, it_handler = Not_done, it_encode_before = at_ns 25000000002,
     it_encode_after = at_ns 25000000003, it_write_before = at_ns 25000000004,
     it_write_after = at_ns 25000000005, it_drain = at_ns 25000000006, it_drained = True\<rparr>"

definition end_of_input :: iteration where
  "end_of_input = (sample_iteration [])\<lparr>it_line := Line []\<rparr>"

lemma sample_accepted:
  obtains q t where "accept_request sample_config 0 (t @ [char_of (10 :: nat)]) = Inr q" "request_ok q"
    "tr_seq q = 0" "has_absolute_deadline q" "dv_actor_done (tr_deadline q) = Some 25000000001"
    "stages_of q = Inr (stages_at 25000000001 10000000000)" "tr_tool_name q = ''run_terminal_command''"
proof -
  obtain b where b: "receipt_to_bytes sample_receipt = Inr b"
    using receipt_from_bytes_canonical [OF sample_receipt_ok] by blast
  obtain t where t: "parse_tool_request t False = Inr ((sample_request (sha256_hex b))\<lparr>tr_raw_json := t\<rparr>)"
    "length t < max_request_line_bytes" by (rule sample_line [of "sha256_hex b"]) simp
  let ?q = "(sample_request (sha256_hex b))\<lparr>tr_raw_json := t\<rparr>"
  have "validate_live_request_binding ?q sample_receipt = Inr ()"
    using sample_binding [OF b] by (simp add: validate_live_request_binding_def)
  then have "accept_request sample_config 0 (t @ [char_of (10 :: nat)]) = Inr ?q"
    using t by (simp add: accept_request_def legacy_def sample_config_def) (simp add: sample_request_def)
  moreover have ok: "request_ok ?q" using parse_tool_request_Inr(1) [OF t(1)] .
  moreover have d: "has_absolute_deadline ?q" "dv_actor_done (tr_deadline ?q) = Some 25000000001"
    "tr_seq ?q = 0" "tr_tool_name ?q = ''run_terminal_command''"
    by (simp_all add: sample_request_def has_absolute_deadline_def live_deadline_def)
  moreover have "stages_of ?q = Inr (stages_at 25000000001 10000000000)"
  proof -
    obtain a where "stages_of ?q = Inr (stages_at a 10000000000)" "dv_actor_done (tr_deadline ?q) = Some a"
      by (rule stages_of_live [OF ok d(1)])
    with d(2) show ?thesis by simp
  qed
  ultimately show thesis using that by blast
qed

lemma sample_iteration_serves:
  obtains t q w where "accept_request sample_config 0 (t @ [char_of (10 :: nat)]) = Inr q"
    "bridge_iteration sample_config initial_state (sample_iteration t)
       = Raised (drained initial_state q (at_ns 3) w) (BridgeError ''tool_settlement_deadline_exceeded'')"
    "wr_request w = q" "is_failure (wr_result w)"
proof -
  obtain q t where a: "accept_request sample_config 0 (t @ [char_of (10 :: nat)]) = Inr q" and ok: "request_ok q"
    and seq: "tr_seq q = 0" and d: "has_absolute_deadline q"
    and ad: "dv_actor_done (tr_deadline q) = Some 25000000001"
    and stg: "stages_of q = Inr (stages_at 25000000001 10000000000)"
    and name: "tr_tool_name q = ''run_terminal_command''"
    by (rule sample_accepted)
  have u: "tr_seq q \<le> u64_max" using seq by (simp add: u64_max_def)
  have rem: "dispatch_remaining sample_config q (at_ns 3) = Inr (strict_remaining_sec 25000000001 3)"
    using d stg ad name by (simp add: dispatch_remaining_def at_ns_def)
  have pos: "\<not> strict_remaining_sec 25000000001 3 \<le> 0" by (simp add: remaining_nonpos)
  have code: "failure_code_of (it_handler (sample_iteration t)) = Some ''tool_settlement_deadline_exceeded''"
    by (simp add: sample_iteration_def failure_code_of_def)
  have "it_dispatch (sample_iteration t) = at_ns 3" by (simp add: sample_iteration_def)
  note s = serve_failure [OF ok u d code, where cfg = sample_config and st = initial_state, unfolded this, OF rem pos stg]
  obtain w f where w: "wr_request w = q" "wr_result w = Failure f"
    "serve sample_config q initial_state (sample_iteration t)
       = Raised (drained initial_state q (at_ns 3) w) (BridgeError ''tool_settlement_deadline_exceeded'')"
    using s by (auto simp: sample_iteration_def at_ns_def stages_at_def)
  have "bridge_iteration sample_config initial_state (sample_iteration t)
      = serve sample_config q initial_state (sample_iteration t)"
    using a unfolding bridge_iteration_def
    by (simp add: sample_iteration_def read_remaining_def sample_config_def initial_state_def
        remaining_nonpos at_ns_def)
      (simp add: sample_receipt_def derived_def sample_deadline_def default_reserves_def ns_per_ms_def)
  then show thesis using that [OF a, of w] w by (simp add: is_failure_def)
qed

section \<open>Properties\<close>

text \<open>
  C19: every run of the bridge keeps its history straight, wherever it stops: the requests handed
  to the handler are numbered 0, 1, 2, ... and each was admitted before its cutoff under the
  run's receipt; the responses answer them in order, at most the last one being unanswered; every
  response was encoded for its request and its write began before the drain cutoff; and no
  response before the last is fatal.
\<close>

theorem bridge_run_history:
  "let st = left_state (bridge_run cfg its) in
     history_ok cfg st
     \<and> (\<exists>rest. map fst (ls_dispatched st) = map wr_request (ls_written st) @ rest \<and> length rest \<le> 1)
     \<and> ls_expected_seq st \<le> int (length (ls_written st))
     \<and> int (length (ls_written st)) \<le> ls_expected_seq st + 1"
  using bridge_loop.run_post [OF loop_inv_initial, of cfg its]
  by (simp add: Let_def bridge_run_def loop_post_def)



text \<open>
  C1: a run that ends well has answered everything: its request count is the number of calls to
  the handler and of responses written, one for each, in order, and the child exited with 0.
\<close>

theorem finished_run_answers_all:
  assumes "bridge_run cfg its = Finished st" and "finish_bridge st exit_code stderr = Inr out"
  shows "map wr_request (ls_written st) = map fst (ls_dispatched st)
    \<and> bo_request_count out = int (length (ls_written st)) \<and> exit_code = Some 0 \<and> bo_stderr out = stderr"
proof -
  have "loop_inv cfg s \<Longrightarrow> run_loop (bridge_iteration cfg) s its = Finished s' \<Longrightarrow> loop_inv cfg s'" for s s' its
  proof (induction its arbitrary: s)
    case (Cons it its)
    show ?case
    proof (cases "bridge_iteration cfg s it")
      case (Next u)
      then show ?thesis using Cons iteration_next_inv [OF Cons.prems(1) Next] by simp
    next
      case (Finished u)
      then have "u = s" using finished_unchanged by blast
      then show ?thesis using Cons.prems Finished by simp
    qed (use Cons.prems in simp)
  qed simp
  from this [OF loop_inv_initial] assms show ?thesis
    by (auto simp: bridge_run_def loop_inv_def finish_bridge_def split: option.splits)
qed

theorem finished_run_answers_all_witness:
  "let e = end_of_input in
    bridge_run sample_config [e] = Finished initial_state
    \<and> finish_bridge initial_state (Some 0) ''warning'' = Inr \<lparr>bo_request_count = 0, bo_stderr = ''warning''\<rparr>"
proof -
  have r: "bridge_run sample_config [end_of_input] = Finished initial_state"
    by (simp add: bridge_run_def bridge_iteration_def end_of_input_def sample_iteration_def read_remaining_def
        sample_config_def remaining_nonpos at_ns_def)
      (simp add: sample_receipt_def derived_def sample_deadline_def default_reserves_def ns_per_ms_def)
  have f: "finish_bridge initial_state (Some 0) ''warning'' = Inr \<lparr>bo_request_count = 0, bo_stderr = ''warning''\<rparr>"
    by (simp add: finish_bridge_def initial_state_def)
  from finished_run_answers_all [OF r f] r f show ?thesis by simp
qed



text \<open>
  The captured standard error is the beginning of the stream: reading chunk by chunk with the
  running cap gives the first mebibyte of everything up to the end of file.
\<close>

theorem bounded_stderr_prefix:
  "bounded_stderr [] chunks = take max_stderr_bytes (concat (takeWhile (\<lambda>c. c \<noteq> []) chunks))"
proof -
  have "bounded_stderr cap chunks
      = cap @ take (max_stderr_bytes - length cap) (concat (takeWhile (\<lambda>c. c \<noteq> []) chunks))"
    if "length cap \<le> max_stderr_bytes" for cap
    using that
  proof (induction chunks arbitrary: cap)
    case (Cons c cs)
    let ?k = "max_stderr_bytes - length cap"
    have "length (cap @ take ?k c) \<le> max_stderr_bytes" using Cons.prems by simp
    from Cons.IH [OF this] Cons.IH [OF Cons.prems] Cons.prems show ?case
      by (cases "length c \<le> ?k") (auto simp: Let_def)
  qed simp
  from this [of "[]"] show ?thesis by simp
qed

text \<open>
  A failed run hides no dirty cleanup: it ends with the error that stopped it only if the
  execution, the cleanup and the child's stop are all verified and nobody cancelled; otherwise the
  error says so, and when a component is unverified the receipt names the first such one.
\<close>

theorem conclude_failure_exact:
  "conclude_failure is_legacy remaining r original =
     (case failed_component r of
        Some name \<Rightarrow>
          (BridgeError (if is_legacy \<or> remaining > 0 then ''external_bridge_cleanup_unverified''
                        else ''cleanup_deadline_exceeded''), Some (cleanup_receipt r name))
      | None \<Rightarrow> (if cr_cancelled r then CancelledError else original, None))
   \<and> failed_component r =
     (if \<not> (cr_execution_completed r \<and> cr_execution_value r) then Some ''execution''
      else if \<not> (cr_cleanup_completed r \<and> cr_cleanup_value r) then Some ''cleanup''
      else if \<not> cr_stop_completed r then Some ''stop'' else None)"
  by (auto simp: conclude_failure_def cleanup_ok_def failed_component_def components_verified_def)

end
