(* ===== verification/File_System.thy ===== *)
theory File_System
  imports Py_Value
begin

text \<open>
  The file system as the control plane uses it: a tree of directories, regular files and symbolic
  links, hard links through shared inodes, and system calls that may fail. Which calls fail is
  part of the state (\<open>faults\<close>, one entry per call, none when exhausted), so that a statement
  about every state holds for every interruption of an operation, and the state that a failed
  operation leaves is the state in which a crash at that point would leave it.

  Paths are absolute, as lists of names, and free of symbolic links in their proper prefixes, so
  \<open>Path.resolve\<close> is the identity on them. Other processes do not act during an operation.
\<close>

section \<open>State\<close>

type_synonym path = "pystr list"

datatype node = Dir int | File nat | Symlink

record fsys =
  entries :: "(path \<times> node) list"
  contents :: "nat \<Rightarrow> bytes"
  next_inode :: nat
  faults :: "bool list"

definition lookup :: "fsys \<Rightarrow> path \<Rightarrow> node option" where
  "lookup s p = map_of (entries s) p"

definition read_file :: "fsys \<Rightarrow> path \<Rightarrow> bytes option" where
  "read_file s p = (case lookup s p of Some (File i) \<Rightarrow> Some (contents s i) | _ \<Rightarrow> None)"

definition is_dir :: "fsys \<Rightarrow> path \<Rightarrow> bool" where
  "is_dir s p \<longleftrightarrow> (case lookup s p of Some (Dir m) \<Rightarrow> True | _ \<Rightarrow> False)"

definition is_symlink :: "fsys \<Rightarrow> path \<Rightarrow> bool" where
  "is_symlink s p \<longleftrightarrow> lookup s p = Some Symlink"

text \<open>\<open>path.exists() or path.is_symlink()\<close>.\<close>

definition present :: "fsys \<Rightarrow> path \<Rightarrow> bool" where
  "present s p \<longleftrightarrow> lookup s p \<noteq> None"

definition under :: "path \<Rightarrow> path \<Rightarrow> bool" where
  "under d p \<longleftrightarrow> take (length d) p = d \<and> length d < length p"

text \<open>\<open>sorted(path.relative_to(root).as_posix() for path in root.rglob("*"))\<close>.\<close>

definition tree_entries :: "fsys \<Rightarrow> path \<Rightarrow> pystr list" where
  "tree_entries s d =
     sort (map (\<lambda>p. join_slash (drop (length d) p)) (filter (under d) (map fst (entries s))))"

section \<open>Operations that may fail\<close>

type_synonym 'a io = "fsys \<Rightarrow> 'a result \<times> fsys"

definition io_return :: "'a \<Rightarrow> 'a io" where
  "io_return x s = (Inr x, s)"

definition io_raise :: "py_error \<Rightarrow> 'a io" where
  "io_raise e s = (Inl e, s)"

definition io_bind :: "'a io \<Rightarrow> ('a \<Rightarrow> 'b io) \<Rightarrow> 'b io" where
  "io_bind m f s = (case m s of (Inl e, t) \<Rightarrow> (Inl e, t) | (Inr x, t) \<Rightarrow> f x t)"

definition io_seq :: "unit io \<Rightarrow> 'b io \<Rightarrow> 'b io" where
  "io_seq m k = io_bind m (\<lambda>_. k)"

definition io_check :: "bool \<Rightarrow> py_error \<Rightarrow> 'a io \<Rightarrow> 'a io" where
  "io_check c e k = (if c then k else io_raise e)"

text \<open>A check on the current state, and a result that does not depend on it.\<close>

definition io_guard :: "(fsys \<Rightarrow> bool) \<Rightarrow> py_error \<Rightarrow> 'a io \<Rightarrow> 'a io" where
  "io_guard P e k s = (if P s then k s else (Inl e, s))"

definition io_lift :: "'a result \<Rightarrow> 'a io" where
  "io_lift r s = (r, s)"

text \<open>\<open>except OSError as error: raise e from error\<close>.\<close>

definition io_rewrap :: "'a io \<Rightarrow> py_error \<Rightarrow> 'a io" where
  "io_rewrap m e s = (case m s of (Inl OSError, t) \<Rightarrow> (Inl e, t) | out \<Rightarrow> out)"

text \<open>\<open>except (E1, E2, ...) as error: raise e from error\<close>.\<close>

definition io_except :: "(py_error \<Rightarrow> bool) \<Rightarrow> 'a io \<Rightarrow> py_error \<Rightarrow> 'a io" where
  "io_except P m e s = (case m s of (Inl d, t) \<Rightarrow> (Inl (if P d then e else d), t) | out \<Rightarrow> out)"

text \<open>\<open>except BaseException: handler; raise\<close>.\<close>

definition io_on_error :: "'a io \<Rightarrow> (fsys \<Rightarrow> fsys) \<Rightarrow> 'a io" where
  "io_on_error m handler s = (case m s of (Inl e, t) \<Rightarrow> (Inl e, handler t) | out \<Rightarrow> out)"

primrec io_each :: "('a \<Rightarrow> unit io) \<Rightarrow> 'a list \<Rightarrow> unit io" where
  "io_each f [] = io_return ()"
| "io_each f (x # xs) = io_seq (f x) (io_each f xs)"

text \<open>A system call fails when the schedule says so or when \<open>f\<close> does.\<close>

definition syscall :: "(fsys \<Rightarrow> fsys option) \<Rightarrow> unit io" where
  "syscall f s =
     (case faults s of
        True # r \<Rightarrow> (Inl OSError, s\<lparr>faults := r\<rparr>)
      | _ \<Rightarrow>
          (let s' = s\<lparr>faults := drop 1 (faults s)\<rparr> in
           case f s' of None \<Rightarrow> (Inl OSError, s') | Some t \<Rightarrow> (Inr (), t)))"

definition add_entry :: "path \<Rightarrow> node \<Rightarrow> fsys \<Rightarrow> fsys option" where
  "add_entry p n s =
     (if p \<noteq> [] \<and> is_dir s (butlast p) \<and> lookup s p = None
      then Some (s\<lparr>entries := entries s @ [(p, n)]\<rparr>) else None)"

definition fs_mkdir :: "int \<Rightarrow> path \<Rightarrow> unit io" where
  "fs_mkdir mode p = syscall (add_entry p (Dir mode))"

text \<open>\<open>os.chmod\<close> on a directory.\<close>

definition fs_chmod :: "int \<Rightarrow> path \<Rightarrow> unit io" where
  "fs_chmod mode p = syscall (\<lambda>s.
     if is_dir s p
     then Some (s\<lparr>entries := map (\<lambda>(q, n). (q, if q = p then Dir mode else n)) (entries s)\<rparr>)
     else None)"

text \<open>\<open>os.open(path, O_WRONLY | O_CREAT | O_EXCL)\<close>: a new empty file.\<close>

definition new_file :: "path \<Rightarrow> fsys \<Rightarrow> fsys option" where
  "new_file p s = map_option
     (\<lambda>t. t\<lparr>contents := (contents t)(next_inode t := []), next_inode := next_inode t + 1\<rparr>)
     (add_entry p (File (next_inode s)) s)"

definition fs_create :: "path \<Rightarrow> unit io" where
  "fs_create p = syscall (new_file p)"

definition fs_write :: "path \<Rightarrow> bytes \<Rightarrow> unit io" where
  "fs_write p payload = syscall (\<lambda>s.
     case lookup s p of
       Some (File i) \<Rightarrow> Some (s\<lparr>contents := (contents s)(i := payload)\<rparr>)
     | _ \<Rightarrow> None)"

definition fs_fsync :: "unit io" where
  "fs_fsync = syscall Some"

text \<open>A call that only reads.\<close>

definition fs_probe :: "(fsys \<Rightarrow> bool) \<Rightarrow> unit io" where
  "fs_probe P = syscall (\<lambda>s. if P s then Some s else None)"

text \<open>\<open>os.link(source, destination, follow_symlinks=False)\<close>.\<close>

definition fs_link :: "path \<Rightarrow> path \<Rightarrow> unit io" where
  "fs_link src dst = syscall (\<lambda>s.
     case lookup s src of
       Some (File i) \<Rightarrow> add_entry dst (File i) s
     | _ \<Rightarrow> None)"

text \<open>\<open>os.unlink\<close> and \<open>os.rmdir\<close>: a directory must be empty.\<close>

definition fs_remove :: "path \<Rightarrow> unit io" where
  "fs_remove p = syscall (\<lambda>s.
     if present s p \<and> \<not> list_ex (\<lambda>e. under p (fst e)) (entries s)
     then Some (s\<lparr>entries := filter (\<lambda>e. fst e \<noteq> p) (entries s)\<rparr>) else None)"

text \<open>What \<open>shutil.rmtree\<close> removes, the deepest entries first.\<close>

definition removal_order :: "path \<Rightarrow> fsys \<Rightarrow> path list" where
  "removal_order p s =
     rev (sort_key length (filter (\<lambda>q. q = p \<or> under p q) (map fst (entries s))))"

definition fs_rmtree :: "path \<Rightarrow> unit io" where
  "fs_rmtree p s =
     (if is_dir s p then io_each fs_remove (removal_order p s) s else (Inl OSError, s))"

text \<open>\<open>shutil.rmtree(p, ignore_errors=True)\<close>.\<close>

definition rmtree_ignoring :: "path \<Rightarrow> fsys \<Rightarrow> fsys" where
  "rmtree_ignoring p s =
     (if is_dir s p then fold (\<lambda>q t. snd (fs_remove q t)) (removal_order p s) s else s)"

text \<open>
  \<open>Path.mkdir(mode, parents, exist_ok=True)\<close>: an existing directory is accepted, and missing
  ancestors are created first, with the default mode.
\<close>

definition fs_mkdir_ok :: "int \<Rightarrow> path \<Rightarrow> unit io" where
  "fs_mkdir_ok mode p s =
     (case fs_mkdir mode p s of
        (Inl e, t) \<Rightarrow> if is_dir t p then (Inr (), t) else (Inl e, t)
      | out \<Rightarrow> out)"

function fs_mkdir_parents :: "int \<Rightarrow> path \<Rightarrow> unit io" where
  "fs_mkdir_parents mode p s =
     (if p \<noteq> [] \<and> \<not> present s (butlast p)
      then io_seq (fs_mkdir_parents 511 (butlast p)) (fs_mkdir_ok mode p) s
      else fs_mkdir_ok mode p s)"
  by pat_completeness auto
termination
  by (relation "measure (\<lambda>(m, p, s). length p)") (auto simp: neq_Nil_conv length_butlast)

declare fs_mkdir_parents.simps [simp del]

section \<open>Well-formed states\<close>

text \<open>
  Paths are unique, inodes are allocated, and the parent of every entry is a directory.
\<close>

definition fs_wf :: "fsys \<Rightarrow> bool" where
  "fs_wf s \<longleftrightarrow> distinct (map fst (entries s)) \<and> (\<forall>p i. lookup s p = Some (File i) \<longrightarrow> i < next_inode s)
     \<and> (\<forall>p. lookup s p \<noteq> None \<longrightarrow> p \<noteq> [] \<longrightarrow> is_dir s (butlast p))"

text \<open>
  \<open>extends s t\<close>: nothing that was there is lost or changed, apart from the contents of files that
  were created in between. Every operation of a publication only extends the state.
\<close>

definition extends :: "fsys \<Rightarrow> fsys \<Rightarrow> bool" where
  "extends s t \<longleftrightarrow> next_inode s \<le> next_inode t
     \<and> (\<forall>p n. lookup s p = Some n \<longrightarrow> lookup t p = Some n)
     \<and> (\<forall>i < next_inode s. contents t i = contents s i)"

lemma extends_refl [simp]: "extends s s"
  by (simp add: extends_def)

lemma extends_trans: "extends s t \<Longrightarrow> extends t u \<Longrightarrow> extends s u"
  by (auto simp: extends_def)

lemma extends_read:
  assumes "extends s t" and "fs_wf s" and "read_file s p = Some b"
  shows "read_file t p = Some b"
proof -
  obtain i where i: "lookup s p = Some (File i)" "contents s i = b"
    using assms(3) by (auto simp: read_file_def split: option.splits node.splits)
  then have "i < next_inode s" using assms(2) by (auto simp: fs_wf_def)
  with i assms(1) show ?thesis by (auto simp: extends_def read_file_def)
qed

lemma extends_dir: "extends s t \<Longrightarrow> is_dir s p \<Longrightarrow> is_dir t p"
  by (auto simp: extends_def is_dir_def split: option.splits node.splits)

lemma lookup_faults [simp]: "lookup (s\<lparr>faults := f\<rparr>) = lookup s"
  by (simp add: lookup_def fun_eq_iff)

lemma faults_irrelevant [simp]:
  "fs_wf (s\<lparr>faults := f\<rparr>) = fs_wf s" "read_file (s\<lparr>faults := f\<rparr>) = read_file s"
  "is_dir (s\<lparr>faults := f\<rparr>) = is_dir s" "extends s (s\<lparr>faults := f\<rparr>)" "extends (s\<lparr>faults := f\<rparr>) t = extends s t"
  "present (s\<lparr>faults := f\<rparr>) = present s" "tree_entries (s\<lparr>faults := f\<rparr>) = tree_entries s"
  by (simp_all add: fs_wf_def read_file_def is_dir_def extends_def present_def fun_eq_iff
        tree_entries_def split: option.split node.split)

lemma add_entry_lookup:
  assumes "add_entry p n s = Some t"
  shows "lookup t = (lookup s)(p \<mapsto> n)" "lookup s p = None" "contents t = contents s"
    "next_inode t = next_inode s" "entries t = entries s @ [(p, n)]"
  using assms
  by (auto simp: add_entry_def lookup_def map_add_def fun_eq_iff split: if_splits option.splits)

lemma read_fileI: "lookup s p = Some (File i) \<Longrightarrow> contents s i = b \<Longrightarrow> read_file s p = Some b"
  by (simp add: read_file_def)

lemma fs_wf_entries: "fs_wf s \<Longrightarrow> (p, n) \<in> set (entries s) \<longleftrightarrow> lookup s p = Some n"
  by (simp add: fs_wf_def lookup_def)

lemma present_iff: "present s p \<longleftrightarrow> p \<in> set (map fst (entries s))"
  by (simp add: present_def lookup_def map_of_eq_None_iff)

lemma tree_entries_set: "set (tree_entries s d) = (\<lambda>p. join_slash (drop (length d) p)) ` {p. under d p \<and> present s p}"
  by (auto simp: tree_entries_def present_iff)

lemma tree_entries_empty: "tree_entries s d = [] \<longleftrightarrow> (\<forall>p. under d p \<longrightarrow> lookup s p = None)"
proof -
  have "tree_entries s d = [] \<longleftrightarrow> set (tree_entries s d) = {}" by simp
  also have "\<dots> \<longleftrightarrow> (\<forall>p. under d p \<longrightarrow> \<not> present s p)" by (auto simp: tree_entries_set)
  finally show ?thesis by (simp add: present_def)
qed

lemma under_append [simp]: "under d (d @ ns) \<longleftrightarrow> ns \<noteq> []"
  by (simp add: under_def)

lemma underE: "under d p \<Longrightarrow> (\<And>ns. p = d @ ns \<Longrightarrow> ns \<noteq> [] \<Longrightarrow> thesis) \<Longrightarrow> thesis"
  by (metis append_take_drop_id append_Nil2 under_append under_def)

section \<open>Running the operations\<close>

lemma io_bind_Inr: "io_bind m f s = (Inr y, t) \<longleftrightarrow> (\<exists>x u. m s = (Inr x, u) \<and> f x u = (Inr y, t))"
  by (auto simp: io_bind_def split: prod.splits sum.splits)

lemma io_seq_Inr: "io_seq m k s = (Inr y, t) \<longleftrightarrow> (\<exists>u. m s = (Inr (), u) \<and> k u = (Inr y, t))"
  by (auto simp: io_seq_def io_bind_Inr)

lemma io_seq_run: "io_seq m k s = (case m s of (Inl e, t) \<Rightarrow> (Inl e, t) | (Inr x, t) \<Rightarrow> k t)"
  by (simp add: io_seq_def io_bind_def)

lemma io_return_run [simp]: "io_return x s = (Inr x, s)"
  by (simp add: io_return_def)

lemma io_check_Inr: "io_check c e k s = (Inr y, t) \<longleftrightarrow> c \<and> k s = (Inr y, t)"
  by (simp add: io_check_def io_raise_def)

lemma io_check_run [simp]: "c \<Longrightarrow> io_check c e k = k" "\<not> c \<Longrightarrow> io_check c e k = io_raise e"
  by (simp_all add: io_check_def)

lemma io_guard_Inr: "io_guard P e k s = (Inr y, t) \<longleftrightarrow> P s \<and> k s = (Inr y, t)"
  by (simp add: io_guard_def)

lemma io_lift_Inr: "io_lift r s = (Inr y, t) \<longleftrightarrow> r = Inr y \<and> t = s"
  by (auto simp: io_lift_def)

lemma io_rewrap_Inr: "io_rewrap m e s = (Inr y, t) \<longleftrightarrow> m s = (Inr y, t)"
  by (auto simp: io_rewrap_def split: prod.splits sum.splits py_error.splits)

lemma io_except_Inr: "io_except P m e s = (Inr y, t) \<longleftrightarrow> m s = (Inr y, t)"
  by (auto simp: io_except_def split: prod.splits sum.splits)

lemma io_on_error_Inr: "io_on_error m h s = (Inr y, t) \<longleftrightarrow> m s = (Inr y, t)"
  by (auto simp: io_on_error_def split: prod.splits sum.splits)

lemma io_each_append: "io_each f (xs @ ys) = io_seq (io_each f xs) (io_each f ys)"
  by (induction xs) (auto simp: io_seq_run fun_eq_iff split: prod.splits sum.splits)

lemma syscall_Inr: "syscall f s = (Inr u, t) \<Longrightarrow> \<exists>fl. f (s\<lparr>faults := fl\<rparr>) = Some t"
  by (auto simp: syscall_def Let_def split: list.splits bool.splits option.splits)

lemma syscall_quiet:
  assumes "faults s = []"
  shows "syscall f s = (case f s of None \<Rightarrow> (Inl OSError, s) | Some t \<Rightarrow> (Inr (), t))"
  using assms by (cases s) (simp add: syscall_def Let_def split: option.split)

section \<open>Relations that every operation respects\<close>

text \<open>
  \<open>io_keeps R m\<close>: whether \<open>m\<close> succeeds or is interrupted, the state it leaves is related by
  \<open>R\<close> to the one it started in. For a reflexive and transitive \<open>R\<close> that ignores the schedule this
  follows from the system calls of \<open>m\<close> alone.
\<close>

definition io_keeps :: "(fsys \<Rightarrow> fsys \<Rightarrow> bool) \<Rightarrow> 'a io \<Rightarrow> bool" where
  "io_keeps R m \<longleftrightarrow> (\<forall>s. R s (snd (m s)))"

lemma io_keepsD: "io_keeps R m \<Longrightarrow> m s = (r, t) \<Longrightarrow> R s t"
  unfolding io_keeps_def by (metis snd_conv)

lemma io_keepsI: "(\<And>s r t. m s = (r, t) \<Longrightarrow> R s t) \<Longrightarrow> io_keeps R m"
  unfolding io_keeps_def by (metis prod.collapse)

named_theorems io_keeps_intros

locale io_relation =
  fixes inv :: "fsys \<Rightarrow> bool" and R :: "fsys \<Rightarrow> fsys \<Rightarrow> bool"
  assumes refl: "R s s"
    and trans: "R s t \<Longrightarrow> R t u \<Longrightarrow> R s u"
    and inv: "R s t \<Longrightarrow> inv s \<Longrightarrow> inv t"
    and schedule: "R s (s\<lparr>faults := fl\<rparr>)"
begin

lemma keeps_return [io_keeps_intros]: "io_keeps R (io_return x)"
  by (simp add: io_keeps_def refl)

lemma keeps_raise [io_keeps_intros]: "io_keeps R (io_raise e)"
  by (simp add: io_keeps_def io_raise_def refl)

lemma keeps_bind [io_keeps_intros]:
  assumes "io_keeps R m" and "\<And>x. io_keeps R (f x)"
  shows "io_keeps R (io_bind m f)"
proof (rule io_keepsI)
  fix s r t
  assume run: "io_bind m f s = (r, t)"
  obtain a u where m: "m s = (a, u)" by (cases "m s")
  have "R s u" using assms(1) m by (rule io_keepsD)
  then show "R s t"
  proof (cases a)
    case (Inl e)
    with run m \<open>R s u\<close> show ?thesis by (simp add: io_bind_def)
  next
    case (Inr x)
    then have "f x u = (r, t)" using run m by (simp add: io_bind_def)
    then have "R u t" by (rule io_keepsD [OF assms(2)])
    with \<open>R s u\<close> show ?thesis by (rule trans)
  qed
qed

lemma keeps_seq [io_keeps_intros]: "io_keeps R m \<Longrightarrow> io_keeps R k \<Longrightarrow> io_keeps R (io_seq m k)"
  by (simp add: io_seq_def keeps_bind)

lemma keeps_check [io_keeps_intros]: "io_keeps R k \<Longrightarrow> io_keeps R (io_check c e k)"
  by (simp add: io_check_def keeps_raise)

lemma keeps_guard [io_keeps_intros]: "io_keeps R k \<Longrightarrow> io_keeps R (io_guard P e k)"
  by (simp add: io_keeps_def io_guard_def refl)

lemma keeps_lift [io_keeps_intros]: "io_keeps R (io_lift r)"
  by (simp add: io_keeps_def io_lift_def refl)

lemma keeps_rewrap [io_keeps_intros]:
  assumes "io_keeps R m"
  shows "io_keeps R (io_rewrap m e)"
proof (rule io_keepsI)
  fix s r t
  assume "io_rewrap m e s = (r, t)"
  then have "\<exists>a. m s = (a, t)"
    by (auto simp: io_rewrap_def split: prod.splits sum.splits py_error.splits)
  then show "R s t" using assms io_keepsD by blast
qed

lemma keeps_each [io_keeps_intros]:
  "(\<And>x. x \<in> set xs \<Longrightarrow> io_keeps R (f x)) \<Longrightarrow> io_keeps R (io_each f xs)"
  by (induction xs) (auto intro!: keeps_return keeps_seq)

lemma keeps_syscall:
  assumes "\<And>s t. f s = Some t \<Longrightarrow> R s t"
  shows "io_keeps R (syscall f)"
proof (rule io_keepsI)
  fix s r t
  assume run: "syscall f s = (r, t)"
  have "\<exists>fl. t = s\<lparr>faults := fl\<rparr> \<or> f (s\<lparr>faults := fl\<rparr>) = Some t"
    using run by (auto simp: syscall_def Let_def split: list.splits bool.splits option.splits)
  then show "R s t" using assms schedule trans by blast
qed

text \<open>What one step of a loop establishes, and every step respects, holds for all at the end.\<close>

lemma each_post:
  assumes "io_each f xs s = (Inr (), t)" and "inv s"
    and "\<And>x. x \<in> set xs \<Longrightarrow> io_keeps R (f x)"
    and "\<And>x s t. x \<in> set xs \<Longrightarrow> inv s \<Longrightarrow> f x s = (Inr (), t) \<Longrightarrow> P x t"
    and stable: "\<And>x s t. inv s \<Longrightarrow> R s t \<Longrightarrow> P x s \<Longrightarrow> P x t"
  shows "\<forall>x \<in> set xs. P x t"
  using assms(1-4)
proof (induction xs arbitrary: s)
  case Nil
  then show ?case by simp
next
  case (Cons x xs)
  obtain u where u: "f x s = (Inr (), u)" "io_each f xs u = (Inr (), t)"
    using Cons.prems(1) by (auto simp: io_seq_Inr)
  have "io_keeps R (f x)" by (simp add: Cons.prems(3))
  then have "R s u" using u(1) by (rule io_keepsD)
  then have iu: "inv u" using Cons.prems(2) by (rule inv)
  have "io_keeps R (io_each f xs)" by (rule keeps_each) (simp add: Cons.prems(3))
  then have "R u t" using u(2) by (rule io_keepsD)
  moreover have "P x u" by (rule Cons.prems(4) [OF _ _ u(1)]) (simp_all add: Cons.prems(2))
  ultimately have "P x t" using stable iu by blast
  moreover have "\<forall>x \<in> set xs. P x t"
    by (rule Cons.IH [OF u(2) iu]) (simp_all add: Cons.prems(3,4))
  ultimately show ?case by simp
qed

end

lemma keeps_except [io_keeps_intros]:
  assumes "io_keeps R m"
  shows "io_keeps R (io_except P m e)"
proof (rule io_keepsI)
  fix s r t
  assume "io_except P m e s = (r, t)"
  then have "\<exists>a. m s = (a, t)" by (auto simp: io_except_def split: prod.splits sum.splits)
  then show "R s t" using assms io_keepsD by blast
qed

text \<open>
  The two relations: an operation that only adds (on well-formed states), and an operation that
  leaves everything outside a set of paths as it was.
\<close>

definition grows :: "fsys \<Rightarrow> fsys \<Rightarrow> bool" where
  "grows s t \<longleftrightarrow> (fs_wf s \<longrightarrow> fs_wf t \<and> extends s t)"

definition frame :: "path set \<Rightarrow> fsys \<Rightarrow> fsys \<Rightarrow> bool" where
  "frame X s t \<longleftrightarrow> (\<forall>p. p \<notin> X \<longrightarrow> lookup t p = lookup s p)"

interpretation growing: io_relation fs_wf grows
  by unfold_locales (auto simp: grows_def intro: extends_trans)

interpretation framed: io_relation "\<lambda>_. True" "frame X" for X
  by unfold_locales (auto simp: frame_def)

lemma frameD: "frame X s t \<Longrightarrow> p \<notin> X \<Longrightarrow> lookup t p = lookup s p"
  by (simp add: frame_def)

lemma frame_mono: "frame X s t \<Longrightarrow> X \<subseteq> Y \<Longrightarrow> frame Y s t"
  by (auto simp: frame_def)

lemma growsD: "grows s t \<Longrightarrow> fs_wf s \<Longrightarrow> fs_wf t" "grows s t \<Longrightarrow> fs_wf s \<Longrightarrow> extends s t"
  by (simp_all add: grows_def)

text \<open>The inode of a new file is the next one, which the caller then allocates.\<close>

lemma add_entry_wf:
  assumes t: "add_entry p n s = Some t" and "fs_wf s"
  shows "distinct (map fst (entries t))" "extends s t"
    "lookup t q \<noteq> None \<Longrightarrow> q \<noteq> [] \<Longrightarrow> is_dir t (butlast q)"
proof -
  note l = add_entry_lookup [OF t]
  have "p \<notin> set (map fst (entries s))" using l(2) present_iff [of s p] by (simp add: present_def)
  then show "distinct (map fst (entries t))" using assms(2) l by (simp add: fs_wf_def)
  show ext: "extends s t" using l by (auto simp: extends_def)
  assume q: "lookup t q \<noteq> None" "q \<noteq> []"
  have "is_dir s (butlast q)"
  proof (cases "q = p")
    case True
    then show ?thesis using t by (simp add: add_entry_def split: if_splits)
  next
    case False
    then show ?thesis using q l assms(2) by (simp add: fs_wf_def)
  qed
  with ext show "is_dir t (butlast q)" by (rule extends_dir)
qed

lemma add_entry_grows:
  assumes "add_entry p n s = Some t" and "\<And>i. n = File i \<Longrightarrow> i < next_inode s"
  shows "grows s t"
  using add_entry_wf [OF assms(1)] add_entry_lookup [OF assms(1)] assms(2)
  by (auto simp: grows_def fs_wf_def [of t] split: if_splits) (auto simp: fs_wf_def)

lemma add_entry_frame: "add_entry p n s = Some t \<Longrightarrow> p \<in> X \<Longrightarrow> frame X s t"
  using add_entry_lookup(1) [of p n s t] by (auto simp: frame_def)

lemma keeps_fsync [io_keeps_intros]: "io_keeps grows fs_fsync" "io_keeps (frame X) fs_fsync"
  unfolding fs_fsync_def
  by (auto intro!: growing.keeps_syscall framed.keeps_syscall growing.refl framed.refl)

lemma keeps_probe [io_keeps_intros]: "io_keeps grows (fs_probe P)" "io_keeps (frame X) (fs_probe P)"
  unfolding fs_probe_def
  by (auto intro!: growing.keeps_syscall framed.keeps_syscall growing.refl framed.refl split: if_splits)

lemma keeps_mkdir [io_keeps_intros]:
  "io_keeps grows (fs_mkdir m p)" "p \<in> X \<Longrightarrow> io_keeps (frame X) (fs_mkdir m p)"
  unfolding fs_mkdir_def
  by (auto intro!: growing.keeps_syscall framed.keeps_syscall intro: add_entry_grows add_entry_frame)

lemma keeps_link [io_keeps_intros]:
  "io_keeps grows (fs_link a b)" "b \<in> X \<Longrightarrow> io_keeps (frame X) (fs_link a b)"
proof -
  show "io_keeps grows (fs_link a b)"
    unfolding fs_link_def
  proof (rule growing.keeps_syscall)
    fix s t
    assume "(case lookup s a of Some (File i) \<Rightarrow> add_entry b (File i) s | _ \<Rightarrow> None) = Some t"
    then obtain i where i: "lookup s a = Some (File i)" "add_entry b (File i) s = Some t"
      by (auto split: option.splits node.splits)
    show "grows s t"
    proof (cases "fs_wf s")
      case True
      with i(1) have "i < next_inode s" by (auto simp: fs_wf_def)
      with i(2) show ?thesis by (auto intro: add_entry_grows)
    qed (simp add: grows_def)
  qed
  show "b \<in> X \<Longrightarrow> io_keeps (frame X) (fs_link a b)"
    unfolding fs_link_def
    by (rule framed.keeps_syscall) (auto split: option.splits node.splits intro: add_entry_frame)
qed

lemma keeps_mkdir_ok [io_keeps_intros]:
  "io_keeps grows (fs_mkdir_ok m p)" "p \<in> X \<Longrightarrow> io_keeps (frame X) (fs_mkdir_ok m p)"
proof -
  have state: "snd (fs_mkdir_ok m p s) = snd (fs_mkdir m p s)" for s
    by (simp add: fs_mkdir_ok_def split: prod.split sum.split)
  show "io_keeps grows (fs_mkdir_ok m p)" "p \<in> X \<Longrightarrow> io_keeps (frame X) (fs_mkdir_ok m p)"
    using keeps_mkdir [where m = m and p = p] by (simp_all add: io_keeps_def state)
qed

lemma mkdir_parents_ok: "present s (butlast p) \<Longrightarrow> fs_mkdir_parents m p s = fs_mkdir_ok m p s"
  by (subst fs_mkdir_parents.simps) simp

end
