(* ===== verification/Control_Plane.thy ===== *)
theory Control_Plane
  imports File_System Json_Correct Sha256
begin

text \<open>
  \<open>adapter/control_plane.py\<close> and \<open>adapter/artifact_limits.py\<close>: the private control root beside a
  trial's public directory, its isolation receipt, and the publication of the evidence files,
  which are staged privately and then linked into the public directory, the marker last.
\<close>

section \<open>Limits and names\<close>

definition default_publication_file_max_bytes :: nat where
  "default_publication_file_max_bytes = 64 * 1024 * 1024"

definition workspace_changed_tar_max_bytes :: nat where
  "workspace_changed_tar_max_bytes = 80 * 1024 * 1024"

definition publication_total_max_bytes :: nat where
  "publication_total_max_bytes = 256 * 1024 * 1024"

definition publication_file_max_bytes :: "pystr \<Rightarrow> nat" where
  "publication_file_max_bytes name =
     (if name = ''workspace-changed.tar'' then workspace_changed_tar_max_bytes
      else default_publication_file_max_bytes)"

definition control_dir_name :: pystr where
  "control_dir_name = ''.nano-control-v2''"

definition isolation_receipt_name :: pystr where
  "isolation_receipt_name = ''isolation-receipt.json''"

definition isolation_schema :: pystr where
  "isolation_schema = ''nano-control-isolation-v2''"

definition publication_stage_name :: pystr where
  "publication_stage_name = ''.publication-v1''"

definition publication_marker :: pystr where
  "publication_marker = ''agent-run.json''"

definition publication_allowlist :: "pystr list" where
  "publication_allowlist =
     [''agent-run.json'', ''trajectory.json'', ''partial-trajectory.json'', ''emergency-prefix.json'',
      ''runtime-usage-receipt.json'', ''runtime-stderr.json'', ''runtime-emergency.json'',
      ''runtime-entry.json'', ''runtime-background-manifest.json'',
      ''runtime-background-liveness-v1.json'', ''runtime/run.json'', ''runtime/events.jsonl'',
      ''runtime/deadline.json'', ''git-history-baseline.json'', ''workspace-before.json'',
      ''workspace-after.json'', ''workspace-delta.json'', ''workspace-diff.patch'',
      ''workspace-changed.tar'', ''workspace-receipt.json'']"

definition empty_public_sha256 :: pystr where
  "empty_public_sha256 = sha256_hex (''[]'' @ [char_of (10 :: nat)])"

definition control_error :: "pystr \<Rightarrow> py_error" where
  "control_error code = ControlPlaneError (''control_'' @ code)"

definition path_name :: "path \<Rightarrow> pystr" where
  "path_name p = (if p = [] then [] else last p)"

definition control_root_for :: "path \<Rightarrow> path" where
  "control_root_for public = butlast public @ [control_dir_name]"

text \<open>\<open>str(PurePosixPath(name).parent)\<close> for a relative name.\<close>

definition parent_name :: "pystr \<Rightarrow> pystr" where
  "parent_name name =
     (let ps = butlast (path_parts name) in if ps = [] then ''.'' else join_slash ps)"

definition relative_name :: "pystr \<Rightarrow> pystr result" where
  "relative_name value =
     ensure (value \<noteq> [] \<and> \<not> path_is_absolute value \<and> value = path_str value
             \<and> \<not> list_ex (\<lambda>part. part \<in> set [[], ''.'', ''..'']) (path_parts value)
             \<and> value \<in> set publication_allowlist)
       (control_error ''publication_allowlist_invalid'') (Inr value)"

section \<open>Reading and writing files\<close>

text \<open>
  The chunked read of \<open>_regular_bytes\<close>: \<open>got\<close> is what was read so far and \<open>rest\<close> what the file
  still holds.
\<close>

function read_chunks :: "nat \<Rightarrow> bytes \<Rightarrow> bytes \<Rightarrow> bytes result" where
  "read_chunks limit got rest =
     (let chunk = take (min (64 * 1024) (limit + 1 - length got)) rest in
      if chunk = [] then Inr got
      else if length (got @ chunk) > limit then Inl (control_error ''private_evidence_invalid'')
      else read_chunks limit (got @ chunk) (drop (length chunk) rest))"
  by pat_completeness auto
termination
  by (relation "measure (\<lambda>(l, g, r). length r)") auto

declare read_chunks.simps [simp del]

definition regular_bytes :: "path \<Rightarrow> nat \<Rightarrow> bytes io" where
  "regular_bytes p limit =
     io_rewrap
       (io_seq (fs_probe (\<lambda>s. present s p \<and> \<not> is_symlink s p))
         (io_bind (\<lambda>s. (Inr (read_file s p), s))
           (\<lambda>found. case found of
              None \<Rightarrow> io_raise (control_error ''private_evidence_invalid'')
            | Some payload \<Rightarrow>
                io_check (length payload \<le> limit) (control_error ''private_evidence_invalid'')
                  (io_lift (read_chunks limit [] payload)))))
       (control_error ''private_evidence_invalid'')"

definition write_private :: "path \<Rightarrow> bytes \<Rightarrow> unit io" where
  "write_private p payload =
     io_rewrap (io_seq (fs_create p) (io_seq (fs_write p payload) fs_fsync))
       (control_error ''private_write_failed'')"

definition fsync_directory :: "path \<Rightarrow> unit io" where
  "fsync_directory p = io_seq (fs_probe (\<lambda>s. present s p)) fs_fsync"

section \<open>The control plane\<close>

record control_plane =
  plane_root :: path
  plane_public :: path
  plane_run_spec_sha256 :: pystr
  plane_receipt_sha256 :: pystr

definition isolation_receipt :: "pystr \<Rightarrow> path \<Rightarrow> pydict" where
  "isolation_receipt run_spec public =
     [(''schema_version'', PStr isolation_schema),
      (''run_spec_sha256'', PStr run_spec),
      (''public_root_name'', PStr (path_name public)),
      (''public_initial_entry_count'', PInt 0),
      (''public_initial_entries_sha256'', PStr empty_public_sha256)]"

definition write_receipt :: "path \<Rightarrow> bytes \<Rightarrow> unit io" where
  "write_receipt private receipt_bytes =
     io_on_error
       (io_seq (write_private (private @ [isolation_receipt_name]) receipt_bytes)
               (fsync_directory private))
       (rmtree_ignoring private)"

definition make_root :: "path \<Rightarrow> unit io" where
  "make_root private =
     io_rewrap (io_seq (fs_mkdir 448 private)
               (io_seq (fs_chmod 448 private) (fsync_directory (butlast private))))
       (control_error ''private_root_create_failed'')"

definition plane_create :: "path \<Rightarrow> pystr \<Rightarrow> control_plane io" where
  "plane_create public run_spec =
     io_check (is_sha256_hex run_spec) (control_error ''run_spec_binding_invalid'')
    (io_guard (\<lambda>s. \<not> is_symlink s public \<and> is_dir s public) (control_error ''public_root_invalid'')
    (io_guard (\<lambda>s. tree_entries s public = []) (control_error ''public_preflight_not_empty'')
    (io_guard (\<lambda>s. \<not> present s (control_root_for public)) (control_error ''private_root_exists'')
    (io_seq (make_root (control_root_for public))
    (io_bind (io_lift (canonical_json (PDict (isolation_receipt run_spec public))))
       (\<lambda>receipt_bytes.
          io_seq (write_receipt (control_root_for public) receipt_bytes)
            (io_return \<lparr>plane_root = control_root_for public, plane_public = public,
               plane_run_spec_sha256 = run_spec, plane_receipt_sha256 = sha256_hex receipt_bytes\<rparr>)))))))"

text \<open>\<open>except (UnicodeDecodeError, json.JSONDecodeError)\<close>.\<close>

definition read_receipt :: "bytes \<Rightarrow> pyval result" where
  "read_receipt raw =
     (case json_loads_bytes default_hooks raw of
        Inl UnicodeDecodeError \<Rightarrow> Inl (control_error ''isolation_receipt_invalid'')
      | Inl JSONDecodeError \<Rightarrow> Inl (control_error ''isolation_receipt_invalid'')
      | out \<Rightarrow> out)"

definition validated_receipt :: "path \<Rightarrow> path \<Rightarrow> pystr \<Rightarrow> bytes \<Rightarrow> control_plane result" where
  "validated_receipt private public run_spec receipt_bytes =
     rbind (read_receipt receipt_bytes) (\<lambda>receipt.
       ensure (py_eq receipt (PDict (isolation_receipt run_spec public)))
         (control_error ''isolation_receipt_invalid'')
      (rbind (canonical_json (PDict (isolation_receipt run_spec public))) (\<lambda>expected_bytes.
         ensure (receipt_bytes = expected_bytes) (control_error ''isolation_receipt_invalid'')
           (Inr \<lparr>plane_root = private, plane_public = public, plane_run_spec_sha256 = run_spec,
              plane_receipt_sha256 = sha256_hex receipt_bytes\<rparr>))))"

definition plane_open :: "path \<Rightarrow> path \<Rightarrow> pystr \<Rightarrow> control_plane io" where
  "plane_open private public run_spec =
     io_check (is_sha256_hex run_spec) (control_error ''run_spec_binding_invalid'')
    (io_guard (\<lambda>s. \<not> is_symlink s private \<and> is_dir s private) (control_error ''private_root_invalid'')
    (io_guard (\<lambda>s. path_name private = control_dir_name \<and> lookup s private = Some (Dir 448))
       (control_error ''private_root_invalid'')
    (io_guard (\<lambda>s. \<not> is_symlink s public \<and> is_dir s public) (control_error ''public_root_invalid'')
    (io_check (control_root_for public = private) (control_error ''root_relation_invalid'')
    (io_bind (regular_bytes (private @ [isolation_receipt_name]) default_publication_file_max_bytes)
       (\<lambda>receipt_bytes. io_lift (validated_receipt private public run_spec receipt_bytes)))))))"

text \<open>What \<open>publish\<close> and \<open>verify_pre_dispatch\<close> start with, and \<open>cleanup\<close> in part.\<close>

definition plane_reopen :: "control_plane \<Rightarrow> control_plane io" where
  "plane_reopen cp = plane_open (plane_root cp) (plane_public cp) (plane_run_spec_sha256 cp)"

definition plane_current :: "control_plane \<Rightarrow> unit io" where
  "plane_current cp =
     io_bind (plane_reopen cp) (\<lambda>current.
       io_check (plane_receipt_sha256 current = plane_receipt_sha256 cp)
         (control_error ''isolation_receipt_changed'') (io_return ()))"

definition verify_pre_dispatch :: "control_plane \<Rightarrow> unit io" where
  "verify_pre_dispatch cp =
     io_seq (plane_current cp)
       (io_guard (\<lambda>s. tree_entries s (plane_public cp) = [])
          (control_error ''public_pre_dispatch_not_empty'') (io_return ()))"

definition cleanup :: "control_plane \<Rightarrow> unit io" where
  "cleanup cp =
     io_bind (plane_reopen cp) (\<lambda>_.
       io_check (path_name (plane_root cp) = control_dir_name
                 \<and> butlast (plane_root cp) = butlast (plane_public cp))
         (control_error ''cleanup_target_invalid'')
      (io_rewrap (io_seq (fs_rmtree (plane_root cp)) (fsync_directory (butlast (plane_root cp))))
         (control_error ''cleanup_failed'')))"

section \<open>Publication\<close>

text \<open>
  The evidence files as they are accepted, with the running total. A payload is \<open>bytes\<close> by its
  type.
\<close>

definition accept_payload :: "(pystr \<times> bytes) list \<times> nat \<Rightarrow> pystr \<times> bytes \<Rightarrow> ((pystr \<times> bytes) list \<times> nat) result" where
  "accept_payload acc file =
     (case acc of (normalized, used) \<Rightarrow> case file of (raw_name, payload) \<Rightarrow>
        rbind (relative_name raw_name) (\<lambda>name.
          ensure (name \<notin> set (map fst normalized)) (control_error ''publication_payload_invalid'')
         (ensure (length payload \<le> publication_file_max_bytes name)
            (control_error ''publication_payload_invalid'')
         (ensure (used + length payload \<le> publication_total_max_bytes)
            (control_error ''publication_payload_invalid'')
         (Inr (normalized @ [(name, payload)], used + length payload))))))"

definition publication_payloads :: "(pystr \<times> bytes) list \<Rightarrow> (pystr \<times> bytes) list result" where
  "publication_payloads files = rbind (rfold accept_payload ([], 0) files) (\<lambda>acc. Inr (fst acc))"

definition public_path :: "path \<Rightarrow> pystr \<Rightarrow> path" where
  "public_path base name = base @ path_parts name"

definition expected_entries :: "(pystr \<times> bytes) list \<Rightarrow> pystr list" where
  "expected_entries normalized =
     map fst normalized @ map parent_name (filter (\<lambda>n. CHR ''/'' \<in> set n) (map fst normalized))"

text \<open>The marker is there already: every file must be there with the same payload.\<close>

definition check_file :: "path \<Rightarrow> pystr \<times> bytes \<Rightarrow> unit io" where
  "check_file public file =
     io_bind (regular_bytes (public_path public (fst file)) (publication_file_max_bytes (fst file)))
       (\<lambda>found. io_check (found = snd file) (control_error ''publication_existing_mismatch'')
                  (io_return ()))"

definition check_published :: "path \<Rightarrow> (pystr \<times> bytes) list \<Rightarrow> unit io" where
  "check_published public normalized =
     io_guard (\<lambda>s. set (tree_entries s public) = set (expected_entries normalized))
       (control_error ''publication_existing_mismatch'') (io_each (check_file public) normalized)"

definition payload_of :: "(pystr \<times> bytes) list \<Rightarrow> pystr \<Rightarrow> bytes result" where
  "payload_of normalized name =
     (case map_of normalized name of None \<Rightarrow> Inl KeyError | Some b \<Rightarrow> Inr b)"

definition publication_order :: "(pystr \<times> bytes) list \<Rightarrow> pystr \<Rightarrow> pystr list" where
  "publication_order normalized marker =
     sort (filter (\<lambda>n. n \<noteq> marker) (map fst normalized)) @ [marker]"

definition stage_file :: "path \<Rightarrow> (pystr \<times> bytes) list \<Rightarrow> pystr \<Rightarrow> unit io" where
  "stage_file stage normalized name =
     io_seq (fs_mkdir_parents 448 (butlast (public_path stage name)))
       (io_bind (io_lift (payload_of normalized name)) (write_private (public_path stage name)))"

text \<open>The staged directories, the deepest first.\<close>

definition stage_directories :: "path \<Rightarrow> fsys \<Rightarrow> path list" where
  "stage_directories stage s =
     sort_key (\<lambda>p. - int (length p)) (filter (\<lambda>p. under stage p \<and> is_dir s p) (map fst (entries s)))"

definition fsync_stage :: "path \<Rightarrow> unit io" where
  "fsync_stage stage =
     io_seq (\<lambda>s. io_each fsync_directory (stage_directories stage s) s) (fsync_directory stage)"

definition link_file :: "path \<Rightarrow> path \<Rightarrow> pystr \<Rightarrow> unit io" where
  "link_file stage public name =
     io_seq (fs_mkdir_parents 448 (butlast (public_path public name)))
    (io_seq (fs_link (public_path stage name) (public_path public name))
            (fsync_directory (butlast (public_path public name))))"

definition publish_new :: "control_plane \<Rightarrow> (pystr \<times> bytes) list \<Rightarrow> pystr \<Rightarrow> (pystr \<times> path) list io" where
  "publish_new cp normalized marker =
     (let stage = plane_root cp @ [publication_stage_name];
          public = plane_public cp;
          ordered = publication_order normalized marker
      in io_guard (\<lambda>s. tree_entries s public = []) (control_error ''publication_public_conflict'')
        (io_guard (\<lambda>s. \<not> present s stage) (control_error ''publication_stage_exists'')
        (io_seq (fs_mkdir 448 stage)
        (io_seq (io_each (stage_file stage normalized) ordered)
        (io_seq (fsync_stage stage)
        (io_seq (io_rewrap (io_each (link_file stage public) ordered)
                   (control_error ''publication_public_conflict''))
        (io_return (map (\<lambda>n. (n, public_path public n)) ordered))))))))"

definition publish_accepted :: "control_plane \<Rightarrow> (pystr \<times> bytes) list \<Rightarrow> pystr \<Rightarrow> (pystr \<times> path) list io" where
  "publish_accepted cp normalized marker s =
     (if present s (public_path (plane_public cp) marker)
      then io_seq (check_published (plane_public cp) normalized)
             (io_return (map (\<lambda>file. (fst file, public_path (plane_public cp) (fst file))) normalized)) s
      else publish_new cp normalized marker s)"

definition publish :: "control_plane \<Rightarrow> (pystr \<times> bytes) list \<Rightarrow> pystr \<Rightarrow> (pystr \<times> path) list io" where
  "publish cp files marker_name =
     io_seq (plane_current cp)
    (io_bind (io_lift (publication_payloads files)) (\<lambda>normalized.
     io_bind (io_lift (relative_name marker_name)) (\<lambda>marker.
       io_check (marker \<in> set (map fst normalized)) (control_error ''publication_marker_missing'')
         (publish_accepted cp normalized marker))))"

end
