(* ===== verification/Publication.thy ===== *)
theory Publication
  imports Control_Plane
begin

text \<open>
  Correctness of the control plane (\<open>Control_Plane\<close>): which relation each operation keeps between
  the state before and after it, whatever system calls fail; what a creation, a publication and a
  cleanup establish when they return; and that they do return when no call fails.
\<close>

section \<open>Names and paths\<close>

text \<open>The allowed names, evaluated once.\<close>

lemma allowlist_parts:
  "list_all (\<lambda>n. path_parts n \<noteq> [] \<and> length (path_parts n) \<le> 2 \<and> join_slash (path_parts n) = n
     \<and> [] \<notin> set (path_parts n)
     \<and> (CHR ''/'' \<in> set n) = (length (path_parts n) = 2)
     \<and> butlast (path_parts n) \<notin> set (map path_parts publication_allowlist)) publication_allowlist"
  by code_simp

lemma relative_name_Inr: "relative_name v = Inr n \<longleftrightarrow> n = v \<and> v \<in> set publication_allowlist
    \<and> v \<noteq> [] \<and> \<not> path_is_absolute v \<and> v = path_str v
    \<and> \<not> list_ex (\<lambda>part. part \<in> set [[], ''.'', ''..'']) (path_parts v)"
  by (auto simp: relative_name_def)

lemma allowed_name: "list_all (\<lambda>n. relative_name n = Inr n) publication_allowlist"
  by code_simp

lemma relative_name_iff [simp]: "relative_name v = Inr n \<longleftrightarrow> n = v \<and> v \<in> set publication_allowlist"
  using allowed_name by (auto simp: relative_name_Inr list_all_iff)

lemma allowed_parts:
  assumes "n \<in> set publication_allowlist"
  shows "path_parts n \<noteq> []" "length (path_parts n) \<le> 2" "join_slash (path_parts n) = n"
    "CHR ''/'' \<in> set n \<longleftrightarrow> length (path_parts n) = 2" "[] \<notin> set (path_parts n)"
  using allowlist_parts assms by (auto simp: list_all_iff)

lemma allowed_not_parent:
  "n \<in> set publication_allowlist \<Longrightarrow> m \<in> set publication_allowlist \<Longrightarrow> butlast (path_parts n) \<noteq> path_parts m"
  using allowlist_parts by (auto simp: list_all_iff)

lemma allowed_inj:
  "n \<in> set publication_allowlist \<Longrightarrow> m \<in> set publication_allowlist \<Longrightarrow> path_parts n = path_parts m \<Longrightarrow> n = m"
  using allowed_parts(3) by metis

lemma public_path_inj:
  "n \<in> set publication_allowlist \<Longrightarrow> m \<in> set publication_allowlist
    \<Longrightarrow> public_path d n = public_path d m \<longleftrightarrow> n = m"
  using allowed_inj by (auto simp: public_path_def)

lemma under_public_path: "n \<in> set publication_allowlist \<Longrightarrow> under d (public_path d n)"
  by (simp add: public_path_def allowed_parts)

lemma butlast_public_path:
  "n \<in> set publication_allowlist \<Longrightarrow> butlast (public_path d n) = d @ butlast (path_parts n)"
  by (simp add: public_path_def butlast_append allowed_parts)

section \<open>Reading and writing\<close>

lemma read_chunks_all: "length (got @ rest) \<le> limit \<Longrightarrow> read_chunks limit got rest = Inr (got @ rest)"
proof (induction limit got rest rule: read_chunks.induct)
  case (1 limit got rest)
  define chunk where "chunk = take (min (64 * 1024) (limit + 1 - length got)) rest"
  show ?case
  proof (cases "chunk = []")
    case True
    then have "rest = []" using "1.prems" by (auto simp: chunk_def)
    then show ?thesis by (subst read_chunks.simps) simp
  next
    case False
    have parts: "chunk @ drop (length chunk) rest = rest"
      by (simp add: chunk_def min_def)
    then have len: "length chunk \<le> length rest" by (metis append_eq_conv_conj length_take min.cobounded2 min.commute nat_le_linear)
    have "read_chunks limit (got @ chunk) (drop (length chunk) rest) = Inr ((got @ chunk) @ drop (length chunk) rest)"
      by (rule "1.IH") (use False "1.prems" len in \<open>simp_all add: chunk_def\<close>)
    moreover have "read_chunks limit got rest =
        (if chunk = [] then Inr got
         else if length (got @ chunk) > limit then Inl (control_error ''private_evidence_invalid'')
         else read_chunks limit (got @ chunk) (drop (length chunk) rest))"
      unfolding chunk_def Let_def by (rule read_chunks.simps [unfolded Let_def])
    ultimately show ?thesis using False "1.prems" len parts by simp
  qed
qed

lemma regular_bytes_Inr:
  assumes "regular_bytes p limit s = (Inr b, t)"
  shows "read_file s p = Some b" "length b \<le> limit"
proof -
  obtain u where u: "fs_probe (\<lambda>s. present s p \<and> \<not> is_symlink s p) s = (Inr (), u)"
    and b: "read_file u p = Some b" "length b \<le> limit"
    using assms read_chunks_all [of "[]"]
    by (auto simp: regular_bytes_def io_rewrap_Inr io_seq_Inr io_bind_Inr io_check_Inr io_lift_Inr io_raise_def
        split: option.splits)
  from u have "\<exists>fl. u = s\<lparr>faults := fl\<rparr>"
    by (auto simp: fs_probe_def dest!: syscall_Inr split: if_splits)
  then show "read_file s p = Some b" "length b \<le> limit" using b by auto
qed

text \<open>An operation that only reads changes nothing but the schedule.\<close>

definition only_reads :: "fsys \<Rightarrow> fsys \<Rightarrow> bool" where
  "only_reads s t \<longleftrightarrow> (\<exists>fl. t = s\<lparr>faults := fl\<rparr>)"

lemma only_reads_simps:
  assumes "only_reads s t"
  shows "lookup t = lookup s" "read_file t = read_file s" "tree_entries t d = tree_entries s d"
    "present t = present s" "is_dir t = is_dir s" "fs_wf t = fs_wf s"
  using assms by (auto simp: only_reads_def)

interpretation reading: io_relation "\<lambda>_. True" only_reads
proof
  show "only_reads s s" for s by (cases s) (auto simp: only_reads_def)
qed (auto simp: only_reads_def)

lemma keeps_probe_reads [io_keeps_intros]: "io_keeps only_reads (fs_probe P)"
  unfolding fs_probe_def by (rule reading.keeps_syscall) (auto intro: reading.refl split: if_splits)

lemma keeps_fsync_reads [io_keeps_intros]: "io_keeps only_reads fs_fsync"
  unfolding fs_fsync_def by (rule reading.keeps_syscall) (auto intro: reading.refl)

lemma reads_regular_bytes [io_keeps_intros]: "io_keeps only_reads (regular_bytes p limit)"
proof -
  have "io_keeps only_reads (\<lambda>s. (Inr (read_file s p), s))"
    by (simp add: io_keeps_def reading.refl)
  then show ?thesis
    unfolding regular_bytes_def by (auto intro!: io_keeps_intros split: option.split)
qed

lemma reads_plane_open [io_keeps_intros]: "io_keeps only_reads (plane_open private public run_spec)"
  unfolding plane_open_def by (intro io_keeps_intros)

lemma reads_plane_current [io_keeps_intros]: "io_keeps only_reads (plane_current cp)"
  unfolding plane_current_def plane_reopen_def by (intro io_keeps_intros)

lemma reads_fsync_directory [io_keeps_intros]: "io_keeps only_reads (fsync_directory p)"
  unfolding fsync_directory_def by (intro io_keeps_intros)

lemma reads_grow: "only_reads s t \<Longrightarrow> grows s t"
  by (auto simp: only_reads_def grows_def)

lemma frame_schedule [simp]: "frame X s (s\<lparr>faults := fl\<rparr>)"
  by (simp add: frame_def)

lemma reads_frame: "only_reads s t \<Longrightarrow> frame X s t"
  by (auto simp: only_reads_def frame_def)

lemma keeps_weaken: "io_keeps R m \<Longrightarrow> (\<And>s t. R s t \<Longrightarrow> R' s t) \<Longrightarrow> io_keeps R' m"
  by (auto simp: io_keeps_def)

lemma new_file_step:
  assumes "new_file p s = Some u"
  shows "grows s u" "p \<in> X \<Longrightarrow> frame X s u" "lookup s p = None"
    "lookup u p = Some (File (next_inode s))" "next_inode u = next_inode s + 1"
proof -
  obtain v where v: "add_entry p (File (next_inode s)) s = Some v"
    and u: "u = v\<lparr>contents := (contents v)(next_inode v := []), next_inode := next_inode v + 1\<rparr>"
    using assms by (auto simp: new_file_def)
  note l = add_entry_lookup [OF v]
  have lu: "lookup u = lookup v" "is_dir u = is_dir v"
    by (simp_all add: u lookup_def is_dir_def fun_eq_iff)
  have "fs_wf s \<longrightarrow> fs_wf u"
  proof
    assume wf: "fs_wf s"
    have "i < next_inode u" if "lookup u p' = Some (File i)" for p' i
      using that l lu wf by (auto simp: fs_wf_def u less_SucI split: if_splits)
    then show "fs_wf u"
      using add_entry_wf [OF v wf] lu by (auto simp: fs_wf_def u)
  qed
  moreover have "extends s u" using l lu by (auto simp: extends_def u)
  ultimately show "grows s u" "p \<in> X \<Longrightarrow> frame X s u" "lookup s p = None"
    "lookup u p = Some (File (next_inode s))" "next_inode u = next_inode s + 1"
    using l lu by (auto simp: grows_def frame_def u)
qed

lemma fs_create_run:
  assumes "fs_create p s = (r, u)"
  shows "grows s u" "p \<in> X \<Longrightarrow> frame X s u"
    "r = Inr () \<Longrightarrow> lookup s p = None \<and> lookup u p = Some (File (next_inode s)) \<and> next_inode u = next_inode s + 1"
proof -
  show "grows s u" "p \<in> X \<Longrightarrow> frame X s u"
    using io_keepsD [OF growing.keeps_syscall assms [unfolded fs_create_def]]
      io_keepsD [OF framed.keeps_syscall assms [unfolded fs_create_def]] new_file_step by blast+
  assume "r = Inr ()"
  then obtain fl where "new_file p (s\<lparr>faults := fl\<rparr>) = Some u"
    using assms by (auto simp: fs_create_def dest: syscall_Inr)
  then show "lookup s p = None \<and> lookup u p = Some (File (next_inode s)) \<and> next_inode u = next_inode s + 1"
    using new_file_step(3-5) [of p "s\<lparr>faults := fl\<rparr>" u] by simp
qed

lemma fs_write_run:
  assumes "fs_write p b s = (r, u)"
  shows "lookup u = lookup s" "next_inode u = next_inode s" "entries u = entries s"
    "lookup s p \<noteq> Some (File j) \<Longrightarrow> contents u j = contents s j"
    "r = Inr () \<Longrightarrow> read_file u p = Some b"
  using assms
  by (auto simp: fs_write_def syscall_def Let_def read_file_def lookup_def fun_eq_iff
      split: list.splits bool.splits option.splits node.splits)

lemma fs_wf_same: "entries t = entries s \<Longrightarrow> next_inode t = next_inode s \<Longrightarrow> fs_wf t = fs_wf s"
  by (simp add: fs_wf_def lookup_def is_dir_def)

text \<open>Creating a file with its contents, followed by steps that only read.\<close>

lemma create_write_run:
  assumes run: "io_seq (fs_create p) (io_seq (fs_write p b) k) s = (r, t)" and k: "io_keeps only_reads k"
  shows "grows s t" "p \<in> X \<Longrightarrow> frame X s t" "r = Inr y \<Longrightarrow> read_file t p = Some b"
proof -
  obtain r1 u where u: "fs_create p s = (r1, u)" by (cases "fs_create p s")
  note c = fs_create_run [OF u]
  show "grows s t" and "p \<in> X \<Longrightarrow> frame X s t" and "r = Inr y \<Longrightarrow> read_file t p = Some b"
  proof (atomize (full), cases r1)
    case (Inl e)
    then have "t = u" "r \<noteq> Inr y" using run u by (auto simp: io_seq_run)
    then show "grows s t \<and> (p \<in> X \<longrightarrow> frame X s t) \<and> (r = Inr y \<longrightarrow> read_file t p = Some b)"
      using c by auto
  next
    case (Inr x)
    note cr = c(3) [OF Inr [simplified]]
    obtain r2 v where v: "fs_write p b u = (r2, v)" by (cases "fs_write p b u")
    note w = fs_write_run [OF v]
    have vt: "only_reads v t \<and> (r = Inr y \<longrightarrow> r2 = Inr ())"
      using run u v Inr io_keepsD [OF k, of v] reading.refl
      by (auto simp: io_seq_run split: sum.splits)
    have "lookup t = lookup v" "read_file t = read_file v" "next_inode t = next_inode v"
      "contents t = contents v" "entries t = entries v"
      using vt by (auto simp: only_reads_def)
    moreover from this w have "fs_wf t = fs_wf u" by (intro fs_wf_same) simp_all
    moreover have "contents v j = contents s j" if "j < next_inode s" "fs_wf s" for j
    proof -
      have "contents u j = contents s j"
        using c(1) that by (auto simp: grows_def extends_def)
      then show ?thesis using w(4) [of j] cr that by auto
    qed
    ultimately show "grows s t \<and> (p \<in> X \<longrightarrow> frame X s t) \<and> (r = Inr y \<longrightarrow> read_file t p = Some b)"
      using c(1) c(2) cr w vt by (auto simp: grows_def extends_def frame_def)
  qed
qed

lemma write_private_run:
  assumes "write_private p b s = (r, t)"
  shows "grows s t" "p \<in> X \<Longrightarrow> frame X s t" "r = Inr () \<Longrightarrow> read_file t p = Some b"
proof -
  obtain r' where run: "io_seq (fs_create p) (io_seq (fs_write p b) fs_fsync) s = (r', t)"
    and ok: "r = Inr () \<Longrightarrow> r' = Inr ()"
    using assms
    by (auto simp: write_private_def io_rewrap_def split: prod.splits sum.splits py_error.splits)
  note body = create_write_run [OF run keeps_fsync_reads]
  show "grows s t" "p \<in> X \<Longrightarrow> frame X s t" "r = Inr () \<Longrightarrow> read_file t p = Some b"
    using body ok by blast+
qed

lemma keeps_write_private [io_keeps_intros]:
  "io_keeps grows (write_private p b)" "p \<in> X \<Longrightarrow> io_keeps (frame X) (write_private p b)"
  by (auto intro: io_keepsI dest: write_private_run)

section \<open>Phases of a publication\<close>

text \<open>
  \<open>ready d F s\<close>: \<open>d\<close> is a directory and each file of \<open>F\<close> has its payload. A phase that works in
  \<open>d\<close> only adds, and only at paths in \<open>X\<close>.
\<close>

definition ready :: "path \<Rightarrow> (path \<times> bytes) set \<Rightarrow> fsys \<Rightarrow> bool" where
  "ready d F s \<longleftrightarrow> fs_wf s \<and> is_dir s d \<and> (\<forall>(p, b) \<in> F. read_file s p = Some b)"

definition adds :: "path \<Rightarrow> (path \<times> bytes) set \<Rightarrow> path set \<Rightarrow> fsys \<Rightarrow> fsys \<Rightarrow> bool" where
  "adds d F X s t \<longleftrightarrow> (ready d F s \<longrightarrow> fs_wf t \<and> extends s t \<and> frame X s t)"

lemma ready_extends: "ready d F s \<Longrightarrow> extends s t \<Longrightarrow> fs_wf t \<Longrightarrow> ready d F t"
  by (auto simp: ready_def intro: extends_dir extends_read)

lemma adds_ready: "adds d F X s t \<Longrightarrow> ready d F s \<Longrightarrow> ready d F t"
  unfolding adds_def using ready_extends by blast

lemma grows_adds: "grows s t \<Longrightarrow> frame X s t \<Longrightarrow> adds d F X s t"
  by (simp add: adds_def grows_def ready_def)

interpretation adding: io_relation "ready d F" "adds d F X" for d F X
proof
  show "adds d F X s s" for s by (simp add: adds_def frame_def ready_def)
  show "adds d F X s u" if "adds d F X s t" "adds d F X t u" for s t u
    using that adds_ready [OF that(1)] extends_trans by (auto simp: adds_def frame_def)
  show "ready d F t" if "adds d F X s t" "ready d F s" for s t
    using that by (rule adds_ready)
  show "adds d F X s (s\<lparr>faults := fl\<rparr>)" for s fl
    by (simp add: adds_def frame_def ready_def)
qed

text \<open>The paths that publishing the given names into \<open>d\<close> may create.\<close>

definition new_paths :: "path \<Rightarrow> pystr set \<Rightarrow> path set" where
  "new_paths d names =
     {p. \<exists>n \<in> names. (p = public_path d n \<or> p = butlast (public_path d n)) \<and> p \<noteq> d}"

lemma public_path_new [simp]: "n \<in> set publication_allowlist \<Longrightarrow> n \<in> names \<Longrightarrow> public_path d n \<in> new_paths d names"
  using under_public_path [of n d] by (auto simp: new_paths_def under_def)

lemma new_paths_mono: "N \<subseteq> M \<Longrightarrow> new_paths d N \<subseteq> new_paths d M"
  by (auto simp: new_paths_def)

lemma new_paths_under: "N \<subseteq> set publication_allowlist \<Longrightarrow> p \<in> new_paths d N \<Longrightarrow> under d p"
  by (auto simp: new_paths_def under_public_path butlast_public_path subset_iff)

lemma parent_of_public_path:
  assumes "n \<in> set publication_allowlist"
  shows "butlast (public_path d n) = d \<or> butlast (butlast (public_path d n)) = d \<and> butlast (public_path d n) \<noteq> []"
proof -
  have "path_parts n \<noteq> []" "length (path_parts n) \<le> 2" using allowed_parts [OF assms] by simp_all
  then consider a where "path_parts n = [a]" | a b where "path_parts n = [a, b]"
    by (cases "path_parts n" rule: remdups_adj.cases) (auto simp: Suc_le_eq)
  then show ?thesis
    by cases (simp_all add: public_path_def butlast_append)
qed

lemma mkdir_ok_existing:
  assumes "is_dir s p" and "fs_mkdir_ok m p s = (r, t)"
  shows "only_reads s t" "r = Inr ()"
proof -
  obtain e u where u: "fs_mkdir m p s = (Inl e, u)" "only_reads s u"
  proof (cases "faults s")
    case Nil
    then show ?thesis
      using assms(1) that by (auto simp: fs_mkdir_def syscall_quiet add_entry_def is_dir_def reading.refl split: option.splits)
  next
    case (Cons b fl)
    then show ?thesis
      using assms(1) that
      by (cases b) (auto simp: fs_mkdir_def syscall_def Let_def add_entry_def is_dir_def only_reads_def
          split: option.splits)
  qed
  then have "is_dir u p" using assms(1) only_reads_simps(5) by simp
  with u assms(2) show "only_reads s t" "r = Inr ()" by (auto simp: fs_mkdir_ok_def)
qed

lemma mkdir_ok_success: "fs_mkdir_ok m p s = (Inr (), t) \<Longrightarrow> is_dir t p"
  by (auto simp: fs_mkdir_ok_def fs_mkdir_def is_dir_def
      split: prod.splits sum.splits if_splits dest!: syscall_Inr add_entry_lookup(1))

text \<open>The directory of a published name: \<open>d\<close> itself, or one level below.\<close>

lemma make_parent:
  assumes run: "fs_mkdir_parents m (butlast (public_path d n)) s = (r, t)"
    and n: "n \<in> set publication_allowlist" and d: "is_dir s d" and wf: "fs_wf s"
  shows "grows s t" "frame ({butlast (public_path d n)} - {d}) s t" "r = Inr () \<Longrightarrow> is_dir t (butlast (public_path d n))"
proof -
  let ?p = "butlast (public_path d n)"
  have present: "present s (butlast ?p) \<or> ?p = []"
  proof (cases "?p = d")
    case True
    then show ?thesis using d wf by (cases "d = []") (auto simp: fs_wf_def present_def is_dir_def split: option.splits node.splits)
  next
    case False
    then show ?thesis
      using parent_of_public_path [OF n, of d] d by (auto simp: present_def is_dir_def split: option.splits)
  qed
  then have ok: "fs_mkdir_ok m ?p s = (r, t)"
    using run by (subst (asm) fs_mkdir_parents.simps) auto
  then show "grows s t" by (rule io_keepsD [OF keeps_mkdir_ok(1)])
  show "frame ({?p} - {d}) s t"
  proof (cases "?p = d")
    case True
    then show ?thesis using mkdir_ok_existing(1) [of s ?p] ok d by (auto intro: reads_frame)
  next
    case False
    then have "?p \<in> {?p} - {d}" by simp
    then show ?thesis using ok by (rule io_keepsD [OF keeps_mkdir_ok(2)])
  qed
  show "r = Inr () \<Longrightarrow> is_dir t ?p" using ok mkdir_ok_success by simp
qed

lemma stage_file_adds:
  assumes "n \<in> set publication_allowlist" and "n \<in> N"
  shows "io_keeps (adds d F (new_paths d N)) (stage_file d normalized n)"
proof (rule io_keepsI)
  fix s r t
  assume run: "stage_file d normalized n s = (r, t)"
  let ?make = "fs_mkdir_parents 448 (butlast (public_path d n))"
  let ?fill = "io_bind (io_lift (payload_of normalized n)) (write_private (public_path d n))"
  obtain r1 u where u: "?make s = (r1, u)" by (cases "?make s")
  have sub: "{butlast (public_path d n)} - {d} \<subseteq> new_paths d N" using assms(2) by (auto simp: new_paths_def)
  show "adds d F (new_paths d N) s t"
  proof (cases "ready d F s")
    case True
    then have "grows s u" "frame ({butlast (public_path d n)} - {d}) s u"
      using make_parent [OF u assms(1)] by (auto simp: ready_def)
    then have su: "adds d F (new_paths d N) s u"
      using sub by (intro grows_adds) (auto intro: frame_mono)
    have "io_keeps grows ?fill" "io_keeps (frame (new_paths d N)) ?fill"
      using assms by (auto intro!: io_keeps_intros)
    then have writes: "io_keeps (adds d F (new_paths d N)) ?fill"
      by (auto simp: io_keeps_def intro: grows_adds)
    show ?thesis
    proof (cases r1)
      case (Inl e)
      then show ?thesis using run u su by (simp add: stage_file_def io_seq_run)
    next
      case (Inr x)
      then have "?fill u = (r, t)" using run u by (simp add: stage_file_def io_seq_run)
      then have "adds d F (new_paths d N) u t" by (rule io_keepsD [OF writes])
      with su show ?thesis by (rule adding.trans)
    qed
  qed (simp add: adds_def)
qed

lemma stage_file_post:
  assumes "stage_file d normalized n s = (Inr (), t)"
  shows "\<exists>b. map_of normalized n = Some b \<and> read_file t (public_path d n) = Some b"
  using assms
  by (auto simp: stage_file_def io_seq_Inr io_bind_Inr io_lift_Inr payload_of_def
      dest!: write_private_run(3) split: option.splits)

lemma fs_link_post:
  assumes "fs_link a b s = (r, t)"
  shows "r = Inr () \<Longrightarrow> read_file t b = read_file s a" "r \<noteq> Inr () \<Longrightarrow> only_reads s t"
proof -
  show "read_file t b = read_file s a" if ok: "r = Inr ()"
  proof -
    obtain fl i where i: "lookup s a = Some (File i)" "add_entry b (File i) (s\<lparr>faults := fl\<rparr>) = Some t"
      using assms ok by (auto simp: fs_link_def dest!: syscall_Inr split: option.splits node.splits)
    show ?thesis using i(1) add_entry_lookup(1,3) [OF i(2)] by (simp add: read_file_def)
  qed
  show "only_reads s t" if "r \<noteq> Inr ()"
    using assms that
    by (auto simp: fs_link_def syscall_def Let_def only_reads_def split: list.splits bool.splits option.splits)
qed

lemma keeps_fsync_directory [io_keeps_intros]:
  "io_keeps grows (fsync_directory p)" "io_keeps (frame X) (fsync_directory p)"
  by (auto intro: keeps_weaken [OF reads_fsync_directory] reads_grow reads_frame)

lemma link_file_adds:
  assumes "n \<in> set publication_allowlist" and "n \<in> N"
  shows "io_keeps (adds d F (new_paths d N)) (link_file stage d n)"
proof (rule io_keepsI)
  fix s r t
  assume run: "link_file stage d n s = (r, t)"
  let ?make = "fs_mkdir_parents 448 (butlast (public_path d n))"
  let ?link = "io_seq (fs_link (public_path stage n) (public_path d n))
                      (fsync_directory (butlast (public_path d n)))"
  obtain r1 u where u: "?make s = (r1, u)" by (cases "?make s")
  have sub: "{butlast (public_path d n)} - {d} \<subseteq> new_paths d N" using assms(2) by (auto simp: new_paths_def)
  show "adds d F (new_paths d N) s t"
  proof (cases "ready d F s")
    case True
    then have "grows s u" "frame ({butlast (public_path d n)} - {d}) s u"
      using make_parent [OF u assms(1)] by (auto simp: ready_def)
    then have su: "adds d F (new_paths d N) s u"
      using sub by (intro grows_adds) (auto intro: frame_mono)
    have "io_keeps grows ?link" "io_keeps (frame (new_paths d N)) ?link"
      using assms by (auto intro!: io_keeps_intros)
    then have link: "io_keeps (adds d F (new_paths d N)) ?link"
      by (auto simp: io_keeps_def intro: grows_adds)
    show ?thesis
    proof (cases r1)
      case (Inl e)
      then show ?thesis using run u su by (simp add: link_file_def io_seq_run)
    next
      case (Inr x)
      then have "?link u = (r, t)" using run u by (simp add: link_file_def io_seq_run)
      then have "adds d F (new_paths d N) u t" by (rule io_keepsD [OF link])
      with su show ?thesis by (rule adding.trans)
    qed
  qed (simp add: adds_def)
qed

text \<open>
  Linking one file, interrupted or not: either the destination is as before, or it is the
  complete file.
\<close>

lemma link_file_post:
  assumes run: "link_file stage d n s = (r, t)" and n: "n \<in> set publication_allowlist"
    and ready: "ready d F s" and b: "read_file s (public_path stage n) = Some b"
  shows "read_file t (public_path d n) = Some b
    \<or> (r \<noteq> Inr () \<and> lookup t (public_path d n) = lookup s (public_path d n))"
proof -
  let ?make = "fs_mkdir_parents 448 (butlast (public_path d n))"
  obtain r1 u where u: "?make s = (r1, u)" by (cases "?make s")
  have wf: "fs_wf s" and d: "is_dir s d" using ready by (simp_all add: ready_def)
  note make = make_parent [OF u n d wf]
  have "public_path d n \<noteq> []" using under_public_path [OF n, of d] by (auto simp: under_def)
  then have "public_path d n \<noteq> butlast (public_path d n)"
    by (metis append_butlast_last_id append_self_conv list.distinct(1))
  then have dest_unmade: "lookup u (public_path d n) = lookup s (public_path d n)"
    using make(2) by (simp add: frame_def)
  show ?thesis
  proof (cases r1)
    case (Inl e)
    then show ?thesis using run u dest_unmade by (auto simp: link_file_def io_seq_run)
  next
    case (Inr x)
    obtain r2 v where v: "fs_link (public_path stage n) (public_path d n) u = (r2, v)"
      by (cases "fs_link (public_path stage n) (public_path d n) u")
    have src: "read_file u (public_path stage n) = Some b"
      using make(1) wf b by (auto simp: grows_def intro: extends_read)
    show ?thesis
    proof (cases r2)
      case (Inl e)
      then have "t = v" "r = Inl e" using run u Inr v by (simp_all add: link_file_def io_seq_run)
      moreover have "only_reads u v" using fs_link_post(2) [OF v] Inl by simp
      ultimately show ?thesis using dest_unmade only_reads_simps(1) by auto
    next
      case r2: (Inr y)
      then have "fsync_directory (butlast (public_path d n)) v = (r, t)"
        using run u Inr v by (simp add: link_file_def io_seq_run)
      then have "only_reads v t" by (rule io_keepsD [OF reads_fsync_directory])
      then show ?thesis using fs_link_post(1) [OF v] r2 src only_reads_simps(2) by auto
    qed
  qed
qed

section \<open>Staging and linking\<close>

lemma reads_fsync_stage [io_keeps_intros]: "io_keeps only_reads (fsync_stage d)"
proof -
  have each: "io_keeps only_reads (\<lambda>s. io_each fsync_directory (stage_directories d s) s)"
  proof (rule io_keepsI)
    fix s r t
    assume "io_each fsync_directory (stage_directories d s) s = (r, t)"
    then show "only_reads s t"
      by (rule io_keepsD [rotated]) (intro io_keeps_intros)
  qed
  show ?thesis unfolding fsync_stage_def by (intro io_keeps_intros each)
qed

definition stage_all :: "path \<Rightarrow> (pystr \<times> bytes) list \<Rightarrow> pystr list \<Rightarrow> unit io" where
  "stage_all stage normalized ordered =
     io_seq (fs_mkdir 448 stage)
       (io_seq (io_each (stage_file stage normalized) ordered) (fsync_stage stage))"

lemma stage_all_run:
  assumes run: "stage_all stage normalized ordered s = (r, t)"
    and allowed: "set ordered \<subseteq> set publication_allowlist" and wf: "fs_wf s"
  shows "fs_wf t" "extends s t" "frame ({stage} \<union> new_paths stage (set ordered)) s t"
    "r = Inr () \<Longrightarrow> n \<in> set ordered
      \<Longrightarrow> \<exists>b. map_of normalized n = Some b \<and> read_file t (public_path stage n) = Some b"
proof -
  let ?R = "adds stage {} (new_paths stage (set ordered))"
  let ?each = "io_each (stage_file stage normalized) ordered"
  obtain r1 u where u: "fs_mkdir 448 stage s = (r1, u)" by (cases "fs_mkdir 448 stage s")
  have su: "grows s u" "frame {stage} s u"
    using io_keepsD [OF keeps_mkdir(1) u] io_keepsD [OF keeps_mkdir(2) u] by simp_all
  have step: "io_keeps ?R (stage_file stage normalized n)" if "n \<in> set ordered" for n
    using that allowed by (intro stage_file_adds) auto
  have main: "fs_wf t \<and> extends s t \<and> frame ({stage} \<union> new_paths stage (set ordered)) s t
      \<and> (r = Inr () \<longrightarrow> (\<forall>n \<in> set ordered.
            \<exists>b. map_of normalized n = Some b \<and> read_file t (public_path stage n) = Some b))"
  proof (cases r1)
    case (Inl e)
    then have "t = u" "r = Inl e" using run u by (simp_all add: stage_all_def io_seq_run)
    then show ?thesis using su wf by (auto simp: grows_def intro: frame_mono)
  next
    case (Inr x)
    have "is_dir u stage"
      using u Inr by (auto simp: fs_mkdir_def is_dir_def dest!: syscall_Inr add_entry_lookup(1))
    then have ready: "ready stage {} u" using su wf by (simp add: ready_def grows_def)
    obtain r2 v where v: "?each u = (r2, v)" by (cases "?each u")
    have "io_keeps ?R ?each" using step by (rule adding.keeps_each)
    then have "?R u v" using v by (rule io_keepsD)
    with ready have uv: "fs_wf v" "extends u v" "frame (new_paths stage (set ordered)) u v"
      by (simp_all add: adds_def)
    have vt: "only_reads v t \<and> (r = Inr () \<longrightarrow> r2 = Inr ())"
      using run u v Inr io_keepsD [OF reads_fsync_stage, of stage v] reading.refl
      by (auto simp: stage_all_def io_seq_run split: sum.splits)
    have st: "extends s v" "frame ({stage} \<union> new_paths stage (set ordered)) s v"
      using su uv wf by (auto simp: grows_def frame_def intro: extends_trans)
    have files: "\<forall>n \<in> set ordered. \<exists>b. map_of normalized n = Some b \<and> read_file v (public_path stage n) = Some b"
      if r2: "r2 = Inr ()"
    proof (rule adding.each_post [where F = "{}" and d = stage and X = "new_paths stage (set ordered)"])
      show "?each u = (Inr (), v)" using v r2 by simp
      show "ready stage {} u" by (fact ready)
      show "io_keeps ?R (stage_file stage normalized n)" if "n \<in> set ordered" for n
        using that by (rule step)
      show "\<exists>b. map_of normalized n = Some b \<and> read_file t (public_path stage n) = Some b"
        if "stage_file stage normalized n s = (Inr (), t)" for n s t
        using that by (rule stage_file_post)
      show "\<exists>b. map_of normalized n = Some b \<and> read_file t (public_path stage n) = Some b"
        if "ready stage {} s" "?R s t"
          "\<exists>b. map_of normalized n = Some b \<and> read_file s (public_path stage n) = Some b" for n s t
        using that extends_read by (auto simp: adds_def ready_def)
    qed
    show ?thesis
      using st uv(1) vt files only_reads_simps [of v t]
      by (auto simp: frame_def extends_def only_reads_def)
  qed
  then show "fs_wf t" "extends s t" "frame ({stage} \<union> new_paths stage (set ordered)) s t"
    "r = Inr () \<Longrightarrow> n \<in> set ordered
      \<Longrightarrow> \<exists>b. map_of normalized n = Some b \<and> read_file t (public_path stage n) = Some b"
    by blast+
qed

lemma link_all_run:
  assumes run: "io_each (link_file stage d) ordered s = (r, t)"
    and allowed: "set ordered \<subseteq> set publication_allowlist"
    and ready: "ready d F s"
    and staged: "\<And>n. n \<in> set ordered \<Longrightarrow> (public_path stage n, pay n) \<in> F"
  shows "ready d F t" "extends s t" "frame (new_paths d (set ordered)) s t"
    "r = Inr () \<Longrightarrow> n \<in> set ordered \<Longrightarrow> read_file t (public_path d n) = Some (pay n)"
proof -
  let ?R = "adds d F (new_paths d (set ordered))"
  have step: "io_keeps ?R (link_file stage d n)" if "n \<in> set ordered" for n
    using that allowed by (intro link_file_adds) auto
  have R: "?R s t" using adding.keeps_each [OF step] run by (rule io_keepsD)
  then show "ready d F t" "extends s t" "frame (new_paths d (set ordered)) s t"
    using ready adds_ready by (auto simp: adds_def)
  assume "r = Inr ()" "n \<in> set ordered"
  have "\<forall>n \<in> set ordered. read_file t (public_path d n) = Some (pay n)"
  proof (rule adding.each_post [where F = F and d = d and X = "new_paths d (set ordered)"])
    show "io_each (link_file stage d) ordered s = (Inr (), t)" using run \<open>r = Inr ()\<close> by simp
    show "ready d F s" by (fact ready)
    show "io_keeps ?R (link_file stage d n)" if "n \<in> set ordered" for n
      using that by (rule step)
    show "read_file t (public_path d n) = Some (pay n)"
      if "n \<in> set ordered" "ready d F s" "link_file stage d n s = (Inr (), t)" for n s t
    proof -
      have "read_file s (public_path stage n) = Some (pay n)"
        using staged [OF that(1)] that(2) by (auto simp: ready_def)
      moreover have "n \<in> set publication_allowlist" using that(1) allowed by auto
      ultimately show ?thesis using link_file_post [OF that(3) _ that(2)] by auto
    qed
    show "read_file t (public_path d n) = Some (pay n)"
      if "ready d F s" "?R s t" "read_file s (public_path d n) = Some (pay n)" for n s t
      using that extends_read by (auto simp: adds_def ready_def)
  qed
  then show "read_file t (public_path d n) = Some (pay n)" using \<open>n \<in> set ordered\<close> by simp
qed

text \<open>The commit point: the marker is linked after every other file.\<close>

lemma link_marker_last:
  assumes run: "io_each (link_file stage d) (names @ [marker]) s = (r, t)"
    and allowed: "set (names @ [marker]) \<subseteq> set publication_allowlist" and new: "marker \<notin> set names"
    and ready: "ready d F s"
    and staged: "\<And>n. n \<in> set (names @ [marker]) \<Longrightarrow> (public_path stage n, pay n) \<in> F"
    and absent: "lookup s (public_path d marker) = None"
    and there: "lookup t (public_path d marker) \<noteq> None"
    and n: "n \<in> set (names @ [marker])"
  shows "read_file t (public_path d n) = Some (pay n)"
proof -
  obtain r1 u where u: "io_each (link_file stage d) names s = (r1, u)"
    by (cases "io_each (link_file stage d) names s")
  note first = link_all_run [OF u _ ready, of pay]
  have al: "set names \<subseteq> set publication_allowlist" and am: "marker \<in> set publication_allowlist"
    using allowed by auto
  have un: "frame (new_paths d (set names)) s u" and ru: "ready d F u"
    using first(1,3) al staged by auto
  have "public_path d marker \<notin> new_paths d (set names)"
  proof
    assume "public_path d marker \<in> new_paths d (set names)"
    then obtain m where m: "m \<in> set names"
      and "public_path d marker = public_path d m \<or> public_path d marker = butlast (public_path d m)"
      by (auto simp: new_paths_def)
    moreover have "m \<in> set publication_allowlist" using m al by auto
    ultimately show False
      using allowed_inj [OF am, of m] allowed_not_parent [of m, OF _ am] allowed_parts(1) [of m] new
      by (auto simp: public_path_def butlast_append)
  qed
  then have absent': "lookup u (public_path d marker) = None"
    using un absent by (simp add: frame_def)
  have "r1 = Inr ()"
  proof (rule ccontr)
    assume "r1 \<noteq> Inr ()"
    then have "t = u" using run u by (cases r1) (auto simp: io_each_append io_seq_run)
    then show False using absent' there by simp
  qed
  then have "io_seq (link_file stage d marker) (io_return ()) u = (r, t)"
    using run u by (simp add: io_each_append io_seq_run)
  then have "\<exists>r'. link_file stage d marker u = (r', t)"
    by (auto simp: io_seq_run split: prod.splits sum.splits)
  then obtain r' where l: "link_file stage d marker u = (r', t)" by blast
  have "read_file u (public_path stage marker) = Some (pay marker)"
    using ru staged [of marker] by (auto simp: ready_def)
  then have m: "read_file t (public_path d marker) = Some (pay marker)"
    using link_file_post [OF l am ru] absent' there by auto
  have "adds d F (new_paths d {marker}) u t"
    using link_file_adds [OF am] l by (rule io_keepsD) simp
  then have ext: "extends u t" using ru by (simp add: adds_def)
  show ?thesis
  proof (cases "n = marker")
    case True
    then show ?thesis using m by simp
  next
    case False
    then have "read_file u (public_path d n) = Some (pay n)"
      using n first(4) [of n] al staged \<open>r1 = Inr ()\<close> by auto
    then show ?thesis using ext ru extends_read by (auto simp: ready_def)
  qed
qed

section \<open>Opening\<close>

lemma isolation_receipt_ok:
  "wf_val (PDict (isolation_receipt spec public))" "dumpable (PDict (isolation_receipt spec public))"
  by (simp_all add: isolation_receipt_def int_max_str_digits_def nat_repr.simps)

lemma py_eq_isolation_receipt:
  "py_eq (sort_keys (PDict (isolation_receipt spec public))) (PDict (isolation_receipt spec public))"
  by (simp add: isolation_receipt_def sort_dict_def)

lemma validated_receipt_Inr:
  "validated_receipt private public spec b = Inr cp \<longleftrightarrow>
     canonical_json (PDict (isolation_receipt spec public)) = Inr b
     \<and> cp = \<lparr>plane_root = private, plane_public = public, plane_run_spec_sha256 = spec,
            plane_receipt_sha256 = sha256_hex b\<rparr>" (is "?l \<longleftrightarrow> ?r")
proof
  assume ?l
  then show ?r by (auto simp: validated_receipt_def rbind_Inr_iff)
next
  assume ?r
  then have "canonical_json (PDict (isolation_receipt spec public)) = Inr b" by simp
  then have "json_loads_bytes default_hooks b = Inr (sort_keys (PDict (isolation_receipt spec public)))"
    using isolation_receipt_ok(1) by (rule default_reader.loads_canonical)
  then have "read_receipt b = Inr (sort_keys (PDict (isolation_receipt spec public)))"
    by (simp add: read_receipt_def)
  then show ?l using \<open>?r\<close> py_eq_isolation_receipt [of spec public]
    by (simp only: validated_receipt_def rbind_simps ensure_simps simp_thms)
qed

text \<open>What \<open>plane_open\<close> checks of a state.\<close>

definition plane_valid :: "control_plane \<Rightarrow> fsys \<Rightarrow> bool" where
  "plane_valid cp s \<longleftrightarrow>
     is_sha256_hex (plane_run_spec_sha256 cp)
     \<and> control_root_for (plane_public cp) = plane_root cp
     \<and> lookup s (plane_root cp) = Some (Dir 448) \<and> is_dir s (plane_public cp)
     \<and> (\<exists>b. read_file s (plane_root cp @ [isolation_receipt_name]) = Some b
            \<and> length b \<le> default_publication_file_max_bytes
            \<and> canonical_json (PDict (isolation_receipt (plane_run_spec_sha256 cp) (plane_public cp))) = Inr b
            \<and> plane_receipt_sha256 cp = sha256_hex b)"

lemma path_name_control_root [simp]: "path_name (control_root_for public) = control_dir_name"
  by (simp add: path_name_def control_root_for_def)

lemma is_dir_not_symlink: "is_dir s p \<Longrightarrow> \<not> is_symlink s p"
  by (auto simp: is_dir_def is_symlink_def)

lemma regular_bytes_quiet:
  assumes "faults s = []" and "read_file s p = Some b" and "length b \<le> limit"
  shows "regular_bytes p limit s = (Inr b, s)"
proof -
  have "present s p" "\<not> is_symlink s p"
    using assms(2) by (auto simp: read_file_def present_def is_symlink_def split: option.splits)
  then have "fs_probe (\<lambda>s. present s p \<and> \<not> is_symlink s p) s = (Inr (), s)"
    using assms(1) by (simp add: fs_probe_def syscall_quiet)
  then show ?thesis
    using assms(2,3) read_chunks_all [of "[]" b limit]
    by (simp add: regular_bytes_def io_rewrap_def io_seq_run io_bind_def io_lift_def)
qed

lemma plane_open_Inr:
  assumes "plane_open private public spec s = (Inr cp, t)"
  shows "plane_valid cp s" "only_reads s t"
    "plane_root cp = private" "plane_public cp = public" "plane_run_spec_sha256 cp = spec"
proof -
  obtain b where "regular_bytes (private @ [isolation_receipt_name]) default_publication_file_max_bytes s = (Inr b, t)"
    and "is_sha256_hex spec" "lookup s private = Some (Dir 448)" "is_dir s public"
      "control_root_for public = private"
    and v: "validated_receipt private public spec b = Inr cp"
    using assms by (auto simp: plane_open_def io_check_Inr io_guard_Inr io_bind_Inr io_lift_Inr)
  with regular_bytes_Inr [OF this(1)] v [unfolded validated_receipt_Inr]
  show "plane_valid cp s" "plane_root cp = private" "plane_public cp = public"
    "plane_run_spec_sha256 cp = spec"
    by (auto simp: plane_valid_def)
  show "only_reads s t" using reads_plane_open assms by (rule io_keepsD)
qed

lemma plane_open_quiet:
  assumes "plane_valid cp s" and "faults s = []"
  shows "plane_reopen cp s = (Inr cp, s)"
proof -
  obtain b where b: "read_file s (plane_root cp @ [isolation_receipt_name]) = Some b"
      "length b \<le> default_publication_file_max_bytes"
      "canonical_json (PDict (isolation_receipt (plane_run_spec_sha256 cp) (plane_public cp))) = Inr b"
      "plane_receipt_sha256 cp = sha256_hex b"
    using assms(1) by (auto simp: plane_valid_def)
  then have v: "validated_receipt (plane_root cp) (plane_public cp) (plane_run_spec_sha256 cp) b = Inr cp"
    by (cases cp) (simp add: validated_receipt_Inr)
  have "lookup s (plane_root cp) = Some (Dir 448)"
    and root: "control_root_for (plane_public cp) = plane_root cp"
    using assms(1) unfolding plane_valid_def by blast+
  then have "is_dir s (plane_root cp)" by (simp add: is_dir_def)
  moreover have "path_name (plane_root cp) = control_dir_name"
    using path_name_control_root [of "plane_public cp"] unfolding root .
  ultimately show ?thesis
    using assms(1) v regular_bytes_quiet [OF assms(2) b(1,2)]
    by (simp add: plane_reopen_def plane_open_def plane_valid_def io_guard_def is_dir_not_symlink
        io_bind_def io_lift_def)
qed

lemma plane_current_Inr:
  assumes "plane_current cp s = (Inr (), t)"
  shows "plane_valid cp s" "only_reads s t"
proof -
  obtain current where c: "plane_reopen cp s = (Inr current, t)"
    and same: "plane_receipt_sha256 current = plane_receipt_sha256 cp"
    using assms by (auto simp: plane_current_def io_bind_Inr io_check_Inr)
  note o = plane_open_Inr [OF c [unfolded plane_reopen_def]]
  then have "current = cp" using same by (cases cp; cases current) simp
  with o show "plane_valid cp s" "only_reads s t" by simp_all
qed

lemma plane_current_quiet: "plane_valid cp s \<Longrightarrow> faults s = [] \<Longrightarrow> plane_current cp s = (Inr (), s)"
  by (simp add: plane_current_def io_bind_def plane_open_quiet)

lemma plane_valid_extends:
  assumes "plane_valid cp s" and "extends s t" and "fs_wf s"
  shows "plane_valid cp t"
  using assms extends_read [OF assms(2,3)] extends_dir [OF assms(2)]
  by (auto simp: plane_valid_def extends_def)

lemma plane_valid_reads: "only_reads s t \<Longrightarrow> plane_valid cp t = plane_valid cp s"
  by (simp add: plane_valid_def only_reads_simps)

text \<open>
  When the public directory holds neither a control root nor a receipt, for instance when it is
  empty, the control root is not inside it, and is not it.
\<close>

lemma roots_apart_names:
  assumes "plane_valid cp s" and "lookup s (plane_public cp @ [control_dir_name]) = None"
    and "lookup s (plane_public cp @ [isolation_receipt_name]) = None"
  shows "plane_public cp @ x \<noteq> plane_root cp @ y"
proof
  assume eq: "plane_public cp @ x = plane_root cp @ y"
  have root: "plane_root cp = butlast (plane_public cp) @ [control_dir_name]"
    and there: "lookup s (plane_root cp) \<noteq> None"
      "lookup s (plane_root cp @ [isolation_receipt_name]) \<noteq> None"
    using assms(1) by (auto simp: plane_valid_def control_root_for_def read_file_def split: option.splits)
  show False
  proof (cases "plane_public cp = []")
    case True
    then show False using assms(2) root there by simp
  next
    case False
    then have "length (plane_public cp) = length (plane_root cp)" by (simp add: root)
    then have "plane_public cp = plane_root cp" using eq by simp
    then show False using assms(3) there by simp
  qed
qed

lemma roots_apart:
  assumes "plane_valid cp s" and "tree_entries s (plane_public cp) = []"
  shows "plane_public cp @ x \<noteq> plane_root cp @ y"
  using assms by (intro roots_apart_names) (auto simp: tree_entries_empty)

section \<open>What is accepted for publication\<close>

definition within_limits :: "(pystr \<times> bytes) list \<Rightarrow> bool" where
  "within_limits files \<longleftrightarrow>
     distinct (map fst files) \<and> set (map fst files) \<subseteq> set publication_allowlist
     \<and> (\<forall>f \<in> set files. length (snd f) \<le> publication_file_max_bytes (fst f))
     \<and> sum_list (map (\<lambda>f. length (snd f)) files) \<le> publication_total_max_bytes"

lemma accept_payload_Inr:
  "accept_payload (acc, used) (n, b) = Inr out \<longleftrightarrow>
     n \<in> set publication_allowlist \<and> n \<notin> set (map fst acc) \<and> length b \<le> publication_file_max_bytes n
     \<and> used + length b \<le> publication_total_max_bytes \<and> out = (acc @ [(n, b)], used + length b)"
  by (auto simp: accept_payload_def rbind_Inr_iff)

lemma accept_all:
  assumes "used \<le> publication_total_max_bytes"
  shows "rfold accept_payload (acc, used) files = Inr out \<longleftrightarrow>
     distinct (map fst files) \<and> set (map fst files) \<inter> set (map fst acc) = {}
     \<and> set (map fst files) \<subseteq> set publication_allowlist
     \<and> (\<forall>f \<in> set files. length (snd f) \<le> publication_file_max_bytes (fst f))
     \<and> used + sum_list (map (\<lambda>f. length (snd f)) files) \<le> publication_total_max_bytes
     \<and> out = (acc @ files, used + sum_list (map (\<lambda>f. length (snd f)) files))"
  using assms
proof (induction files arbitrary: acc used)
  case Nil
  then show ?case by auto
next
  case (Cons f files)
  obtain n b where f: "f = (n, b)" by fastforce
  show ?case
  proof (cases "used + length b \<le> publication_total_max_bytes")
    case True
    show ?thesis
      by (auto simp: f rbind_Inr_iff accept_payload_Inr Cons.IH [OF True] add.assoc)
  next
    case False
    then show ?thesis by (auto simp: f rbind_Inr_iff accept_payload_Inr)
  qed
qed

lemma publication_payloads_Inr:
  "publication_payloads files = Inr normalized \<longleftrightarrow> normalized = files \<and> within_limits files"
  by (auto simp: publication_payloads_def rbind_Inr_iff accept_all within_limits_def)

section \<open>Publishing\<close>

abbreviation stage_of :: "control_plane \<Rightarrow> path" where
  "stage_of cp \<equiv> plane_root cp @ [publication_stage_name]"

definition publication_paths :: "control_plane \<Rightarrow> pystr set \<Rightarrow> path set" where
  "publication_paths cp names =
     {stage_of cp} \<union> new_paths (stage_of cp) names \<union> new_paths (plane_public cp) names"

definition holds_files :: "path \<Rightarrow> (pystr \<times> bytes) list \<Rightarrow> fsys \<Rightarrow> bool" where
  "holds_files d files s \<longleftrightarrow> (\<forall>f \<in> set files. read_file s (public_path d (fst f)) = Some (snd f))"

lemma set_publication_order:
  "marker \<in> set (map fst files) \<Longrightarrow> set (publication_order files marker) = set (map fst files)"
  by (auto simp: publication_order_def)

lemma publish_new_run:
  assumes run: "publish_new cp files marker s = (r, t)" and wf: "fs_wf s" and valid: "plane_valid cp s"
    and files: "within_limits files" and marker: "marker \<in> set (map fst files)"
  shows "fs_wf t" "extends s t" "frame (publication_paths cp (set (map fst files))) s t"
    "lookup s (public_path (plane_public cp) marker) = None
      \<Longrightarrow> lookup t (public_path (plane_public cp) marker) \<noteq> None \<Longrightarrow> holds_files (plane_public cp) files t"
    "r = Inr out \<Longrightarrow> tree_entries s (plane_public cp) = [] \<and> holds_files (plane_public cp) files t
      \<and> out = map (\<lambda>n. (n, public_path (plane_public cp) n)) (publication_order files marker)"
proof -
  let ?d = "plane_public cp" and ?st = "stage_of cp" and ?o = "publication_order files marker"
  let ?N = "set (map fst files)" and ?X = "publication_paths cp (set (map fst files))"
  let ?goal = "\<lambda>r t. fs_wf t \<and> extends s t \<and> frame ?X s t
      \<and> (lookup s (public_path ?d marker) = None \<longrightarrow> lookup t (public_path ?d marker) \<noteq> None \<longrightarrow> holds_files ?d files t)
      \<and> (\<forall>out. r = Inr out \<longrightarrow> tree_entries s ?d = [] \<and> holds_files ?d files t
            \<and> out = map (\<lambda>n. (n, public_path ?d n)) ?o)"
  have o: "set ?o = ?N" using marker by (rule set_publication_order)
  have allowed: "set ?o \<subseteq> set publication_allowlist" using files o by (simp add: within_limits_def)
  have d: "is_dir s ?d" using valid by (simp add: plane_valid_def)
  have "?goal r t"
  proof (cases "tree_entries s ?d = [] \<and> \<not> present s ?st")
    case False
    then have "t = s" "\<nexists>out. r = Inr out"
      using run by (auto simp: publish_new_def Let_def io_guard_def split: if_splits)
    then show ?thesis using wf by (simp add: frame_def)
  next
    case True
    then have empty: "tree_entries s ?d = []" by simp
    have steps: "(case stage_all ?st files ?o s of
         (Inl e, u) \<Rightarrow> (Inl e, u)
       | (Inr _, u) \<Rightarrow> io_seq (io_rewrap (io_each (link_file ?st ?d) ?o)
                        (control_error ''publication_public_conflict''))
                      (io_return (map (\<lambda>n. (n, public_path ?d n)) ?o)) u) = (r, t)"
      using run True
      by (auto simp: publish_new_def Let_def io_guard_def stage_all_def io_seq_run split: prod.splits sum.splits)
    obtain r1 u where u: "stage_all ?st files ?o s = (r1, u)" by (cases "stage_all ?st files ?o s")
    note st = stage_all_run [OF u allowed wf]
    have su: "frame ?X s u"
      using st(3) by (rule frame_mono) (auto simp: publication_paths_def o)
    have absent: "lookup u (public_path ?d marker) = None" if "lookup s (public_path ?d marker) = None"
    proof -
      have "public_path ?d marker \<notin> {?st} \<union> new_paths ?st (set ?o)"
      proof
        assume "public_path ?d marker \<in> {?st} \<union> new_paths ?st (set ?o)"
        then have "\<exists>y. public_path ?d marker = plane_root cp @ y"
          by (auto dest!: new_paths_under [OF allowed] elim!: underE)
        then show False using roots_apart [OF valid empty] by (auto simp: public_path_def)
      qed
      then show ?thesis using st(3) that by (simp add: frame_def)
    qed
    show ?thesis
    proof (cases r1)
      case (Inl e)
      then have "t = u" "r = Inl e" using steps u by simp_all
      then show ?thesis using st(1,2) su absent by auto
    next
      case (Inr x)
      define pay where "pay n = the (map_of files n)" for n
      define F where "F = (\<lambda>n. (public_path ?st n, pay n)) ` set ?o"
      have "read_file u (public_path ?st n) = Some (pay n)" if "n \<in> set ?o" for n
        using st(4) [OF _ that] Inr by (auto simp: pay_def)
      then have ready: "ready ?d F u"
        using st(1,2) d by (auto simp: ready_def F_def intro: extends_dir)
      obtain r2 v where v: "io_each (link_file ?st ?d) ?o u = (r2, v)" by (cases "io_each (link_file ?st ?d) ?o u")
      have tv: "t = v" and r: "r = Inr out \<Longrightarrow> r2 = Inr () \<and> out = map (\<lambda>n. (n, public_path ?d n)) ?o" for out
        using steps u v Inr
        by (auto simp: io_seq_run io_rewrap_def split: sum.splits py_error.splits)
      have staged: "\<And>n. n \<in> set ?o \<Longrightarrow> (public_path ?st n, pay n) \<in> F" by (simp add: F_def)
      note ln = link_all_run [OF v allowed ready staged]
      have payload: "holds_files ?d files t" if "\<And>n. n \<in> set ?o \<Longrightarrow> read_file t (public_path ?d n) = Some (pay n)"
        using that files by (auto simp: holds_files_def o pay_def within_limits_def)
      have "holds_files ?d files t"
        if "lookup s (public_path ?d marker) = None" "lookup t (public_path ?d marker) \<noteq> None"
      proof (rule payload)
        show "read_file t (public_path ?d n) = Some (pay n)" if "n \<in> set ?o" for n
        proof (rule link_marker_last)
          show "io_each (link_file ?st ?d) (sort (filter (\<lambda>n. n \<noteq> marker) (map fst files)) @ [marker]) u = (r2, t)"
            using v tv by (simp add: publication_order_def)
        qed (use allowed ready staged absent that \<open>lookup s _ = None\<close> \<open>lookup t _ \<noteq> None\<close>
             in \<open>auto simp: publication_order_def\<close>)
      qed
      moreover have "holds_files ?d files t" if "r2 = Inr ()"
        using ln(4) [OF _ that] tv by (intro payload) simp
      moreover have "frame ?X u t"
        using ln(3) unfolding tv by (rule frame_mono) (auto simp: publication_paths_def o)
      ultimately show ?thesis
        using ln(1,2) st(2) su empty r tv
        by (auto simp: ready_def intro: extends_trans framed.trans)
    qed
  qed
  then show "fs_wf t" "extends s t" "frame (publication_paths cp (set (map fst files))) s t"
    "lookup s (public_path (plane_public cp) marker) = None
      \<Longrightarrow> lookup t (public_path (plane_public cp) marker) \<noteq> None \<Longrightarrow> holds_files (plane_public cp) files t"
    "r = Inr out \<Longrightarrow> tree_entries s (plane_public cp) = [] \<and> holds_files (plane_public cp) files t
      \<and> out = map (\<lambda>n. (n, public_path (plane_public cp) n)) (publication_order files marker)"
    by blast+
qed

text \<open>The state of a finished publication, and checking it again.\<close>

definition published :: "path \<Rightarrow> (pystr \<times> bytes) list \<Rightarrow> fsys \<Rightarrow> bool" where
  "published d files s \<longleftrightarrow> set (tree_entries s d) = set (expected_entries files) \<and> holds_files d files s"

lemma holds_files_reads: "only_reads s t \<Longrightarrow> holds_files d files t = holds_files d files s"
  by (simp add: holds_files_def only_reads_simps)

lemma published_reads: "only_reads s t \<Longrightarrow> published d files t = published d files s"
  by (simp add: published_def holds_files_reads only_reads_simps)

lemma reads_check_file [io_keeps_intros]: "io_keeps only_reads (check_file d f)"
  unfolding check_file_def by (intro io_keeps_intros)

lemma reads_check_published [io_keeps_intros]: "io_keeps only_reads (check_published d files)"
  unfolding check_published_def by (intro io_keeps_intros)

lemma check_published_Inr:
  assumes "check_published d files s = (Inr (), t)"
  shows "published d files s"
proof -
  have run: "io_each (check_file d) files s = (Inr (), t)"
    and e: "set (tree_entries s d) = set (expected_entries files)"
    using assms by (simp_all add: check_published_def io_guard_Inr)
  have "\<forall>f \<in> set files. read_file t (public_path d (fst f)) = Some (snd f)"
  proof (rule reading.each_post [OF run])
    show "io_keeps only_reads (check_file d f)" for f by (intro io_keeps_intros)
    show "read_file t (public_path d (fst f)) = Some (snd f)" if "check_file d f s = (Inr (), t)" for f s t
    proof -
      have "only_reads s t" using reads_check_file that by (rule io_keepsD)
      then show ?thesis
        using that only_reads_simps(2) by (auto simp: check_file_def io_bind_Inr io_check_Inr dest!: regular_bytes_Inr(1))
    qed
  qed (simp_all add: only_reads_simps)
  moreover have "only_reads s t" using reads_check_published assms by (rule io_keepsD)
  ultimately show ?thesis using e by (simp add: published_def holds_files_def only_reads_simps)
qed

lemma check_published_quiet:
  assumes "published d files s" and "within_limits files" and "faults s = []"
  shows "check_published d files s = (Inr (), s)"
proof -
  have one: "check_file d f s = (Inr (), s)" if "f \<in> set files" for f
  proof -
    have "regular_bytes (public_path d (fst f)) (publication_file_max_bytes (fst f)) s = (Inr (snd f), s)"
      using assms that
      by (intro regular_bytes_quiet) (simp_all add: published_def holds_files_def within_limits_def)
    then show ?thesis by (simp add: check_file_def io_bind_def)
  qed
  have "io_each (check_file d) fs s = (Inr (), s)" if "set fs \<subseteq> set files" for fs
    using that by (induction fs) (simp_all add: io_seq_run one)
  then show ?thesis using assms(1) by (simp add: check_published_def io_guard_def published_def)
qed

lemma path_entry_name:
  assumes "n \<in> set publication_allowlist"
  shows "join_slash (drop (length d) (public_path d n)) = n"
    "butlast (public_path d n) \<noteq> d \<longleftrightarrow> CHR ''/'' \<in> set n"
    "CHR ''/'' \<in> set n \<Longrightarrow> join_slash (drop (length d) (butlast (public_path d n))) = parent_name n"
proof -
  note parts = allowed_parts [OF assms]
  show "join_slash (drop (length d) (public_path d n)) = n" by (simp add: public_path_def parts)
  have "butlast (path_parts n) = [] \<longleftrightarrow> length (path_parts n) \<noteq> 2"
    using parts(1,2) by (cases "path_parts n" rule: remdups_adj.cases) auto
  then show "butlast (public_path d n) \<noteq> d \<longleftrightarrow> CHR ''/'' \<in> set n"
    and "CHR ''/'' \<in> set n \<Longrightarrow> join_slash (drop (length d) (butlast (public_path d n))) = parent_name n"
    using parts by (auto simp: butlast_public_path [OF assms] parent_name_def)
qed

lemma expected_entries_paths:
  assumes "set (map fst files) \<subseteq> set publication_allowlist"
  shows "set (expected_entries files) = (\<lambda>p. join_slash (drop (length d) p)) ` new_paths d (set (map fst files))"
    (is "_ = ?f ` ?X")
proof (intro set_eqI iffI)
  fix e
  assume "e \<in> set (expected_entries files)"
  then consider n where "n \<in> set (map fst files)" "e = n"
    | n where "n \<in> set (map fst files)" "CHR ''/'' \<in> set n" "e = parent_name n"
    by (auto simp: expected_entries_def)
  then show "e \<in> ?f ` ?X"
  proof cases
    case (1 n)
    then have n: "n \<in> set publication_allowlist" using assms by auto
    have "public_path d n \<in> ?X" using n 1 by simp
    moreover have "e = ?f (public_path d n)" using 1 path_entry_name(1) [OF n] by simp
    ultimately show ?thesis by blast
  next
    case (2 n)
    then have n: "n \<in> set publication_allowlist" using assms by auto
    have "butlast (public_path d n) \<in> ?X"
      using 2 path_entry_name(2) [OF n, of d] by (auto simp: new_paths_def)
    moreover have "e = ?f (butlast (public_path d n))" using 2 path_entry_name(3) [OF n] by simp
    ultimately show ?thesis by blast
  qed
next
  fix e
  assume "e \<in> ?f ` ?X"
  then obtain n p where n: "n \<in> set (map fst files)" and p: "p \<noteq> d" "e = ?f p"
    "p = public_path d n \<or> p = butlast (public_path d n)"
    by (auto simp: new_paths_def)
  have al: "n \<in> set publication_allowlist" using n assms by auto
  then show "e \<in> set (expected_entries files)"
    using p n path_entry_name [OF al, of d] by (auto simp: expected_entries_def)
qed

lemma publish_new_published:
  assumes run: "publish_new cp files marker s = (Inr out, t)" and wf: "fs_wf s" and valid: "plane_valid cp s"
    and files: "within_limits files" and marker: "marker \<in> set (map fst files)"
  shows "published (plane_public cp) files t"
proof -
  let ?d = "plane_public cp" and ?N = "set (map fst files)"
  note facts = publish_new_run [OF run wf valid files marker]
  have empty: "tree_entries s ?d = []" and holds: "holds_files ?d files t" using facts(5) by simp_all
  have allowed: "?N \<subseteq> set publication_allowlist" using files by (simp add: within_limits_def)
  have "under ?d p \<and> present t p \<longleftrightarrow> p \<in> new_paths ?d ?N" for p
  proof
    assume p: "under ?d p \<and> present t p"
    then have "lookup s p = None" using empty by (simp add: tree_entries_empty)
    then have "p \<in> publication_paths cp ?N"
      using p facts(3) by (auto simp: frame_def present_def)
    moreover have "p \<notin> {stage_of cp} \<union> new_paths (stage_of cp) ?N"
    proof
      assume "p \<in> {stage_of cp} \<union> new_paths (stage_of cp) ?N"
      then have "\<exists>y. p = plane_root cp @ y"
        by (auto dest!: new_paths_under [OF allowed [simplified]] elim!: underE)
      moreover obtain x where "p = ?d @ x" using p by (auto elim: underE)
      ultimately show False using roots_apart [OF valid empty] by auto
    qed
    ultimately show "p \<in> new_paths ?d ?N" by (simp add: publication_paths_def)
  next
    assume p: "p \<in> new_paths ?d ?N"
    then obtain f where f: "f \<in> set files" "p \<noteq> ?d"
      "p = public_path ?d (fst f) \<or> p = butlast (public_path ?d (fst f))"
      by (auto simp: new_paths_def)
    have found: "lookup t (public_path ?d (fst f)) \<noteq> None"
      using holds f(1) by (auto simp: holds_files_def read_file_def split: option.splits)
    have "public_path ?d (fst f) \<noteq> []"
      using under_public_path [of "fst f" ?d] f(1) allowed by (auto simp: under_def)
    then have "is_dir t (butlast (public_path ?d (fst f)))"
      using facts(1) found unfolding fs_wf_def by blast
    then have "present t p" using f(3) found by (auto simp: present_def is_dir_def split: option.splits)
    then show "under ?d p \<and> present t p" using new_paths_under [OF allowed p] by simp
  qed
  then have "set (tree_entries t ?d) = set (expected_entries files)"
    unfolding tree_entries_set expected_entries_paths [OF allowed, of ?d] by (intro image_cong) auto
  then show ?thesis using holds by (simp add: published_def)
qed

lemma publish_cases:
  assumes "publish cp files marker s = (r, t)"
  shows "(\<exists>e. r = Inl e \<and> only_reads s t)
    \<or> (plane_valid cp s \<and> within_limits files \<and> marker \<in> set (map fst files)
       \<and> (\<exists>u. only_reads s u \<and> publish_accepted cp files marker u = (r, t)))"
proof -
  obtain r1 u where u: "plane_current cp s = (r1, u)" by (cases "plane_current cp s")
  have su: "only_reads s u" using reads_plane_current u by (rule io_keepsD)
  show ?thesis
  proof (cases r1)
    case (Inl e)
    then show ?thesis using assms u su by (auto simp: publish_def io_seq_run)
  next
    case (Inr x)
    then have valid: "plane_valid cp s" using plane_current_Inr(1) u by simp
    have rest: "io_bind (io_lift (publication_payloads files)) (\<lambda>normalized.
       io_bind (io_lift (relative_name marker)) (\<lambda>marker.
         io_check (marker \<in> set (map fst normalized)) (control_error ''publication_marker_missing'')
           (publish_accepted cp normalized marker))) u = (r, t)"
      using assms u Inr by (simp add: publish_def io_seq_run)
    show ?thesis
    proof (cases "\<exists>m. publication_payloads files = Inr files \<and> relative_name marker = Inr m \<and> m \<in> set (map fst files)")
      case True
      then have p: "publication_payloads files = Inr files" "relative_name marker = Inr marker"
        and m: "marker \<in> set (map fst files)" by auto
      have "publish_accepted cp files marker u = (r, t)"
        using rest m unfolding io_bind_def io_lift_def p by simp
      then show ?thesis using valid su m p(1) publication_payloads_Inr by blast
    next
      case False
      have "\<exists>e. r = Inl e \<and> t = u"
      proof (cases "publication_payloads files")
        case (Inl e)
        then show ?thesis using rest by (auto simp: io_bind_def io_lift_def)
      next
        case (Inr normalized)
        then have "normalized = files" by (simp add: publication_payloads_Inr)
        then show ?thesis
          using rest False Inr
          by (auto simp: io_bind_def io_lift_def io_check_def io_raise_def split: sum.splits if_splits)
      qed
      then show ?thesis using su by blast
    qed
  qed
qed

text \<open>What a publication that returns has established.\<close>

lemma expected_entries_names:
  assumes "set (map fst files) \<subseteq> set publication_allowlist"
  shows "control_dir_name \<notin> set (expected_entries files)" "isolation_receipt_name \<notin> set (expected_entries files)"
proof -
  have "list_all (\<lambda>n. n \<noteq> control_dir_name \<and> n \<noteq> isolation_receipt_name
      \<and> parent_name n \<noteq> control_dir_name \<and> parent_name n \<noteq> isolation_receipt_name) publication_allowlist"
    by code_simp
  then have "n \<noteq> control_dir_name \<and> n \<noteq> isolation_receipt_name
      \<and> parent_name n \<noteq> control_dir_name \<and> parent_name n \<noteq> isolation_receipt_name"
    if "n \<in> set (map fst files)" for n
    using assms that unfolding list_all_iff by blast
  then show "control_dir_name \<notin> set (expected_entries files)" "isolation_receipt_name \<notin> set (expected_entries files)"
    unfolding expected_entries_def set_append set_map set_filter by (metis (no_types, lifting) UnE imageE mem_Collect_eq)+
qed

lemma published_apart:
  assumes valid: "plane_valid cp s" and published: "published (plane_public cp) files s" and files: "within_limits files"
  shows "plane_public cp @ x \<noteq> plane_root cp @ y"
proof -
  have absent: "lookup s (plane_public cp @ [e]) = None" if "e \<notin> set (expected_entries files)" for e
  proof (rule ccontr)
    assume "lookup s (plane_public cp @ [e]) \<noteq> None"
    then have "e \<in> set (tree_entries s (plane_public cp))"
      unfolding tree_entries_set
      by (intro image_eqI [of _ _ "plane_public cp @ [e]"]) (simp_all add: present_def)
    then show False using published that by (simp add: published_def)
  qed
  show ?thesis
    using valid absent expected_entries_names [of files] files
    by (intro roots_apart_names) (simp_all add: within_limits_def)
qed

lemma publish_result:
  assumes "publish cp files marker s = (Inr out, t)" and wf: "fs_wf s"
  shows "plane_valid cp t" "within_limits files" "marker \<in> set (map fst files)"
    "published (plane_public cp) files t"
    "set out = (\<lambda>n. (n, public_path (plane_public cp) n)) ` set (map fst files)"
proof -
  obtain u where s: "plane_valid cp s" "within_limits files" "marker \<in> set (map fst files)"
    and u: "only_reads s u" and run: "publish_accepted cp files marker u = (Inr out, t)"
    using publish_cases [OF assms(1)] by auto
  have valid: "plane_valid cp u" and wu: "fs_wf u"
    using s(1) u wf by (simp_all add: plane_valid_reads only_reads_simps(6))
  have "plane_valid cp t \<and> published (plane_public cp) files t
    \<and> set out = (\<lambda>n. (n, public_path (plane_public cp) n)) ` set (map fst files)"
  proof (cases "present u (public_path (plane_public cp) marker)")
    case True
    then have check: "check_published (plane_public cp) files u = (Inr (), t)"
      and out: "out = map (\<lambda>f. (fst f, public_path (plane_public cp) (fst f))) files"
      using run by (auto simp: publish_accepted_def io_seq_Inr)
    have "only_reads u t" using reads_check_published check by (rule io_keepsD)
    then show ?thesis
      using valid check_published_Inr [OF check] out by (simp add: plane_valid_reads published_reads image_image)
  next
    case False
    then have new: "publish_new cp files marker u = (Inr out, t)"
      using run by (simp add: publish_accepted_def)
    note f = publish_new_run [OF new wu valid s(2,3)]
    then show ?thesis
      using publish_new_published [OF new wu valid s(2,3)] plane_valid_extends [OF valid _ wu]
        set_publication_order [OF s(3)] by simp
  qed
  then show "plane_valid cp t" "within_limits files" "marker \<in> set (map fst files)"
    "published (plane_public cp) files t"
    "set out = (\<lambda>n. (n, public_path (plane_public cp) n)) ` set (map fst files)"
    using s by simp_all
qed

section \<open>Removing the private root\<close>

text \<open>A removal loses entries and changes nothing else.\<close>

definition shrinks :: "path set \<Rightarrow> fsys \<Rightarrow> fsys \<Rightarrow> bool" where
  "shrinks X s t \<longleftrightarrow> contents t = contents s
     \<and> (\<forall>p. lookup t p = lookup s p \<or> (p \<in> X \<and> lookup t p = None))"

interpretation shrinking: io_relation "\<lambda>_. True" "shrinks X" for X
proof
  show "shrinks X s u" if "shrinks X s t" "shrinks X t u" for s t u
    using that unfolding shrinks_def by (metis (no_types))
qed (simp_all add: shrinks_def)

lemma reads_shrink: "only_reads s t \<Longrightarrow> shrinks X s t"
  by (auto simp: only_reads_def shrinks_def)

lemma map_of_filter_key: "map_of (filter (\<lambda>e. fst e \<noteq> q) xs) p = (if p = q then None else map_of xs p)"
  by (induction xs) auto

lemma remove_entry:
  "lookup (s\<lparr>entries := filter (\<lambda>e. fst e \<noteq> q) (entries s)\<rparr>) p = (if p = q then None else lookup s p)"
  by (simp add: lookup_def map_of_filter_key)

lemma keeps_remove [io_keeps_intros]: "q \<in> X \<Longrightarrow> io_keeps (shrinks X) (fs_remove q)"
  unfolding fs_remove_def
  by (rule shrinking.keeps_syscall) (auto simp: shrinks_def remove_entry split: if_splits)

lemma remove_post: "fs_remove q s = (Inr (), t) \<Longrightarrow> lookup t q = None"
  by (auto simp: fs_remove_def lookup_def map_of_filter_key dest!: syscall_Inr split: if_splits)

definition tree_at :: "path \<Rightarrow> path set" where
  "tree_at d = {p. p = d \<or> under d p}"

lemma set_removal_order: "set (removal_order d s) = {p \<in> tree_at d. present s p}"
  by (auto simp: removal_order_def tree_at_def present_iff)

lemma rmtree_run:
  assumes "fs_rmtree d s = (r, t)"
  shows "shrinks (tree_at d) s t" "r = Inr () \<Longrightarrow> p \<in> tree_at d \<Longrightarrow> lookup t p = None"
proof -
  have keeps: "io_keeps (shrinks (tree_at d)) (io_each fs_remove (removal_order d s))"
    by (auto intro!: io_keeps_intros shrinking.keeps_each simp: set_removal_order)
  then show shrunk: "shrinks (tree_at d) s t"
    using assms io_keepsD shrinking.refl by (auto simp: fs_rmtree_def split: if_splits)
  assume ok: "r = Inr ()" and p: "p \<in> tree_at d"
  show "lookup t p = None"
  proof (cases "present s p")
    case True
    have run: "io_each fs_remove (removal_order d s) s = (Inr (), t)"
      using assms ok by (auto simp: fs_rmtree_def split: if_splits)
    have "\<forall>q \<in> set (removal_order d s). lookup t q = None"
    proof (rule shrinking.each_post [OF run, where X = "tree_at d"])
      show "io_keeps (shrinks (tree_at d)) (fs_remove q)" if "q \<in> set (removal_order d s)" for q
        using that by (auto simp: set_removal_order intro: keeps_remove)
      show "lookup t q = None" if "fs_remove q s = (Inr (), t)" for q s t
        using that by (rule remove_post)
      show "lookup t q = None" if "shrinks (tree_at d) s t" "lookup s q = None" for q s t
        using that unfolding shrinks_def by metis
    qed simp
    then show ?thesis using p True by (simp add: set_removal_order)
  next
    case False
    then show ?thesis using shrunk unfolding shrinks_def by (metis present_def)
  qed
qed

lemma cleanup_run:
  assumes "cleanup cp s = (r, t)"
  shows "shrinks (tree_at (plane_root cp)) s t"
    "r = Inr () \<Longrightarrow> p \<in> tree_at (plane_root cp) \<Longrightarrow> lookup t p = None"
proof -
  let ?R = "shrinks (tree_at (plane_root cp))"
  have tree: "io_keeps ?R (fs_rmtree (plane_root cp))"
    using rmtree_run(1) by (intro io_keepsI)
  have sync: "io_keeps ?R (fsync_directory p)" for p
    using reads_fsync_directory reads_shrink by (rule keeps_weaken)
  have "io_keeps ?R (plane_reopen cp)"
    unfolding plane_reopen_def using reads_plane_open reads_shrink by (rule keeps_weaken)
  then have "io_keeps ?R (cleanup cp)"
    unfolding cleanup_def by (intro io_keeps_intros tree sync)
  then show "?R s t" using assms by (rule io_keepsD)
  assume "r = Inr ()" and p: "p \<in> tree_at (plane_root cp)"
  then obtain u v where "fs_rmtree (plane_root cp) u = (Inr (), v)" and sync: "only_reads v t"
    using assms io_keepsD [OF reads_fsync_directory]
    by (auto simp: cleanup_def io_bind_Inr io_check_Inr io_rewrap_Inr io_seq_Inr)
  then show "lookup t p = None" using rmtree_run(2) p by (simp add: only_reads_simps)
qed

section \<open>Publication without faults\<close>

lemma mkdir_quiet:
  assumes "faults s = []" and "is_dir s (butlast p)" and "p \<noteq> []" and "lookup s p = None"
  shows "\<exists>t. fs_mkdir m p s = (Inr (), t) \<and> faults t = [] \<and> lookup t = (lookup s)(p \<mapsto> Dir m)"
proof -
  obtain t where t: "add_entry p (Dir m) s = Some t" using assms by (simp add: add_entry_def)
  then have "faults t = []" using assms(1) by (auto simp: add_entry_def split: if_splits)
  then show ?thesis
    using t assms(1) add_entry_lookup(1) [OF t] by (auto simp: fs_mkdir_def syscall_quiet)
qed

lemma mkdir_ok_quiet:
  assumes "faults s = []" and "lookup s p = None \<and> p \<noteq> [] \<and> is_dir s (butlast p) \<or> is_dir s p"
  shows "\<exists>t. fs_mkdir_ok m p s = (Inr (), t) \<and> faults t = []"
proof (cases "lookup s p = None")
  case True
  then obtain t where "fs_mkdir m p s = (Inr (), t)" "faults t = []"
    using assms mkdir_quiet [of s p m] by (auto simp: is_dir_def)
  then show ?thesis by (simp add: fs_mkdir_ok_def)
next
  case False
  then have "is_dir s p" using assms(2) by (elim disjE conjE) simp_all
  moreover have "fs_mkdir m p s = (Inl OSError, s)"
    using False assms(1) by (simp add: fs_mkdir_def syscall_quiet add_entry_def)
  ultimately show ?thesis using assms(1) by (simp add: fs_mkdir_ok_def)
qed

lemma create_quiet:
  assumes "faults s = []" and "is_dir s (butlast p)" and "p \<noteq> []" and "lookup s p = None"
  shows "\<exists>t. fs_create p s = (Inr (), t) \<and> faults t = []"
proof -
  obtain t where "new_file p s = Some t" "faults t = faults s"
    using assms by (auto simp: new_file_def add_entry_def)
  then show ?thesis using assms(1) by (simp add: fs_create_def syscall_quiet)
qed

lemma fsync_quiet: "faults s = [] \<Longrightarrow> fs_fsync s = (Inr (), s)"
  by (simp add: fs_fsync_def syscall_quiet)

lemma fsync_directory_quiet: "faults s = [] \<Longrightarrow> present s p \<Longrightarrow> fsync_directory p s = (Inr (), s)"
  by (simp add: fsync_directory_def fs_probe_def io_seq_run syscall_quiet fsync_quiet)

lemma write_private_quiet:
  assumes "faults s = []" and "is_dir s (butlast p)" and "p \<noteq> []" and "lookup s p = None"
  shows "\<exists>t. write_private p b s = (Inr (), t) \<and> faults t = []"
proof -
  obtain u where u: "fs_create p s = (Inr (), u)" "faults u = []" using create_quiet [OF assms] by blast
  then have "lookup u p = Some (File (next_inode s))" using fs_create_run(3) [OF u(1)] by simp
  then have "\<exists>v. fs_write p b u = (Inr (), v) \<and> faults v = []"
    using u(2) by (simp add: fs_write_def syscall_quiet)
  then show ?thesis using u by (auto simp: write_private_def io_rewrap_def io_seq_run fsync_quiet)
qed

text \<open>Nothing is in the way of publishing \<open>ns\<close> into \<open>d\<close>.\<close>

definition unoccupied :: "path \<Rightarrow> pystr set \<Rightarrow> fsys \<Rightarrow> bool" where
  "unoccupied d ns s \<longleftrightarrow> (\<forall>n \<in> ns. lookup s (public_path d n) = None
     \<and> (lookup s (butlast (public_path d n)) = None \<or> is_dir s (butlast (public_path d n))))"

lemma make_parent_quiet:
  assumes n: "n \<in> set publication_allowlist" and ready: "ready d F s" and quiet: "faults s = []"
    and unoccupied: "unoccupied d {n} s"
  shows "\<exists>t. fs_mkdir_parents m (butlast (public_path d n)) s = (Inr (), t) \<and> faults t = []
     \<and> ready d F t \<and> is_dir t (butlast (public_path d n)) \<and> lookup t (public_path d n) = None"
proof -
  let ?p = "butlast (public_path d n)"
  have d: "is_dir s d" and wf: "fs_wf s" using ready by (simp_all add: ready_def)
  have place: "lookup s ?p = None \<and> ?p \<noteq> [] \<and> is_dir s (butlast ?p) \<or> is_dir s ?p"
    using parent_of_public_path [OF n, of d] d unoccupied by (auto simp: unoccupied_def)
  then have "present s (butlast ?p) \<or> ?p = []"
    using wf by (auto simp: fs_wf_def present_def is_dir_def split: option.splits node.splits)
  then have "fs_mkdir_parents m ?p s = fs_mkdir_ok m ?p s"
    by (subst fs_mkdir_parents.simps) auto
  then obtain t where t: "fs_mkdir_parents m ?p s = (Inr (), t)" "faults t = []"
    using mkdir_ok_quiet [OF quiet place] by auto
  note make = make_parent [OF t(1) n d wf]
  have "public_path d n \<noteq> []" using under_public_path [OF n, of d] by (auto simp: under_def)
  then have "public_path d n \<noteq> ?p" by (metis append_butlast_last_id append_self_conv list.distinct(1))
  then have "lookup t (public_path d n) = None"
    using make(2) unoccupied by (auto simp: frame_def unoccupied_def)
  moreover have "ready d F t" using make(1) ready wf by (auto simp: grows_def intro: ready_extends)
  ultimately show ?thesis using t make(3) by auto
qed

lemma public_path_nonempty: "n \<in> set publication_allowlist \<Longrightarrow> public_path d n \<noteq> []"
  using under_public_path [of n d] by (auto simp: under_def)

lemma stage_file_quiet:
  assumes "n \<in> set publication_allowlist" and "ready d F s" and "faults s = []"
    and "unoccupied d {n} s" and "map_of normalized n = Some b"
  shows "\<exists>t. stage_file d normalized n s = (Inr (), t) \<and> faults t = []"
proof -
  obtain u where u: "fs_mkdir_parents 448 (butlast (public_path d n)) s = (Inr (), u)" "faults u = []"
    "is_dir u (butlast (public_path d n))" "lookup u (public_path d n) = None"
    using make_parent_quiet [OF assms(1-4)] by blast
  show ?thesis
    using write_private_quiet [OF u(2,3) public_path_nonempty [OF assms(1)] u(4)] u(1) assms(5)
    by (simp add: stage_file_def io_seq_run io_bind_def io_lift_def payload_of_def)
qed

lemma link_file_quiet:
  assumes "n \<in> set publication_allowlist" and "ready d F s" and "faults s = []"
    and "unoccupied d {n} s" and staged: "(public_path stage n, b) \<in> F"
  shows "\<exists>t. link_file stage d n s = (Inr (), t) \<and> faults t = []"
proof -
  obtain u where u: "fs_mkdir_parents 448 (butlast (public_path d n)) s = (Inr (), u)" "faults u = []"
    "is_dir u (butlast (public_path d n))" "lookup u (public_path d n) = None" "ready d F u"
    using make_parent_quiet [OF assms(1-4)] by blast
  have "read_file u (public_path stage n) = Some b" using u(5) staged by (auto simp: ready_def)
  then obtain i where i: "lookup u (public_path stage n) = Some (File i)"
    by (auto simp: read_file_def split: option.splits node.splits)
  obtain v where v: "add_entry (public_path d n) (File i) u = Some v" "faults v = []"
    using u public_path_nonempty [OF assms(1), of d] by (auto simp: add_entry_def)
  then have l: "fs_link (public_path stage n) (public_path d n) u = (Inr (), v)"
    using i u(2) by (simp add: fs_link_def syscall_quiet)
  have "present v (butlast (public_path d n))"
    using add_entry_lookup(1) [OF v(1)] u(3) by (auto simp: present_def is_dir_def split: option.splits)
  then show ?thesis using u(1) l v(2) by (simp add: link_file_def io_seq_run fsync_directory_quiet)
qed

text \<open>One file done, the others are still free to be published.\<close>

lemma unoccupied_step:
  assumes free: "unoccupied d (insert n N) s" and N: "n \<notin> N" "insert n N \<subseteq> set publication_allowlist"
    and ready: "ready d F s" and step: "adds d F (new_paths d {n}) s t"
    and placed: "lookup t (public_path d n) \<noteq> None"
  shows "unoccupied d N t"
  unfolding unoccupied_def
proof (intro ballI conjI)
  have t: "fs_wf t" "extends s t" "frame (new_paths d {n}) s t"
    using step ready by (simp_all add: adds_def)
  have n: "n \<in> set publication_allowlist" using N by simp
  fix m
  assume m: "m \<in> N"
  then have al: "m \<in> set publication_allowlist" using N by auto
  have "public_path d m \<notin> new_paths d {n}"
    using allowed_inj [OF al n] allowed_not_parent [OF n al] allowed_parts(1) [OF n] m N(1)
    by (auto simp: new_paths_def public_path_def butlast_append)
  then show "lookup t (public_path d m) = None"
    using t(3) free m by (simp add: frame_def unoccupied_def)
  let ?p = "butlast (public_path d m)"
  show "lookup t ?p = None \<or> is_dir t ?p"
  proof (cases "is_dir s ?p")
    case True
    then show ?thesis using t(2) extends_dir by blast
  next
    case False
    then have none: "lookup s ?p = None" using free m unfolding unoccupied_def by blast
    show ?thesis
    proof (cases "?p \<in> new_paths d {n}")
      case True
      have "?p \<noteq> public_path d n"
        using allowed_not_parent [OF al n] allowed_parts(1) [OF al]
        by (auto simp: public_path_def butlast_append)
      then have "?p = butlast (public_path d n)" using True by (auto simp: new_paths_def)
      moreover have "is_dir t (butlast (public_path d n))"
        using t(1) placed public_path_nonempty [OF n] unfolding fs_wf_def by blast
      ultimately show ?thesis by simp
    next
      case False
      then show ?thesis using none t(3) by (simp add: frame_def)
    qed
  qed
qed

text \<open>A loop over the files succeeds when every step on a free name does.\<close>

lemma each_quiet:
  assumes "distinct ns" and "set ns \<subseteq> set publication_allowlist"
    and "ready d F s" and "faults s = []" and "unoccupied d (set ns) s"
    and adds: "\<And>n. n \<in> set ns \<Longrightarrow> io_keeps (adds d F (new_paths d {n})) (f n)"
    and placed: "\<And>n s t. n \<in> set ns \<Longrightarrow> ready d F s \<Longrightarrow> f n s = (Inr (), t) \<Longrightarrow> lookup t (public_path d n) \<noteq> None"
    and step: "\<And>n s. n \<in> set ns \<Longrightarrow> ready d F s \<Longrightarrow> faults s = [] \<Longrightarrow> unoccupied d {n} s
                \<Longrightarrow> \<exists>t. f n s = (Inr (), t) \<and> faults t = []"
  shows "\<exists>t. io_each f ns s = (Inr (), t) \<and> faults t = []"
  using assms
proof (induction ns arbitrary: s)
  case Nil
  then show ?case by simp
next
  case (Cons n ns)
  have "unoccupied d {n} s" using Cons.prems(5) by (simp add: unoccupied_def)
  then obtain u where u: "f n s = (Inr (), u)" "faults u = []"
    using Cons.prems(8) [of n s] Cons.prems(3,4) by auto
  have su: "adds d F (new_paths d {n}) s u"
    by (rule io_keepsD [OF Cons.prems(6) u(1)]) simp
  have "lookup u (public_path d n) \<noteq> None" using Cons.prems(7) [of n s u] Cons.prems(3) u(1) by simp
  then have free: "unoccupied d (set ns) u"
    using unoccupied_step [of d n "set ns" s F u] Cons.prems(1-3,5) su by simp
  have "\<exists>t. io_each f ns u = (Inr (), t) \<and> faults t = []"
  proof (rule Cons.IH)
    show "ready d F u" using su Cons.prems(3) by (rule adds_ready)
  qed (use Cons.prems u(2) free in auto)
  then show ?case using u by (auto simp: io_seq_run)
qed

lemma each_probe_quiet:
  assumes "faults s = []" and "\<And>p. p \<in> set ps \<Longrightarrow> present s p"
  shows "io_each fsync_directory ps s = (Inr (), s)"
  using assms by (induction ps) (simp_all add: io_seq_run fsync_directory_quiet)

lemma stage_all_quiet:
  assumes wf: "fs_wf s" and quiet: "faults s = []" and root: "is_dir s (butlast st)" "st \<noteq> []"
    and new: "lookup s st = None"
    and ns: "distinct ns" "set ns \<subseteq> set publication_allowlist" "set ns \<subseteq> set (map fst files)"
  shows "\<exists>t. stage_all st files ns s = (Inr (), t) \<and> faults t = []"
proof -
  obtain u where u: "fs_mkdir 448 st s = (Inr (), u)" "faults u = []" and lu: "lookup u = (lookup s)(st \<mapsto> Dir 448)"
    using mkdir_quiet [OF quiet root new] by blast
  have su: "grows s u" using io_keepsD [OF keeps_mkdir(1) u(1)] .
  then have ready: "ready st {} u" using wf lu by (simp add: ready_def grows_def is_dir_def)
  have none: "lookup s p = None" if "under st p" for p
  proof -
    have "lookup s (st @ x) = None" if "x \<noteq> []" for x
      using that
    proof (induction x rule: rev_induct)
      case (snoc a x)
      have "is_dir s (st @ x) \<longrightarrow> False" using snoc new by (cases "x = []") (auto simp: is_dir_def)
      moreover have "lookup s (st @ x @ [a]) \<noteq> None \<longrightarrow> is_dir s (butlast (st @ x @ [a]))"
        using wf unfolding fs_wf_def by blast
      ultimately show ?case by (auto simp: butlast_append)
    qed simp
    then show ?thesis using that by (auto elim: underE)
  qed
  have "unoccupied st (set ns) u"
    unfolding unoccupied_def
  proof
    fix n
    assume "n \<in> set ns"
    then have al: "n \<in> set publication_allowlist" using ns(2) by auto
    then have "under st (public_path st n)" by (rule under_public_path)
    then have "lookup u (public_path st n) = None" using none lu by (auto simp: under_def)
    moreover have "butlast (public_path st n) = st \<or> under st (butlast (public_path st n))"
      by (auto simp: butlast_public_path [OF al])
    then have "lookup u (butlast (public_path st n)) = None \<or> is_dir u (butlast (public_path st n))"
      using none lu by (auto simp: under_def is_dir_def)
    ultimately show "lookup u (public_path st n) = None
      \<and> (lookup u (butlast (public_path st n)) = None \<or> is_dir u (butlast (public_path st n)))" ..
  qed
  then have "\<exists>v. io_each (stage_file st files) ns u = (Inr (), v) \<and> faults v = []"
  proof (rule each_quiet [OF ns(1,2) ready u(2)])
    fix n assume n: "n \<in> set ns"
    then have al: "n \<in> set publication_allowlist" using ns(2) by auto
    show "io_keeps (adds st {} (new_paths st {n})) (stage_file st files n)"
      using al by (rule stage_file_adds) simp
    show "lookup t (public_path st n) \<noteq> None" if "stage_file st files n s = (Inr (), t)" for s t
      using stage_file_post [OF that] by (auto simp: read_file_def split: option.splits)
    obtain b where "map_of files n = Some b" using n ns(3) by (fastforce simp: map_of_eq_None_iff)
    then show "\<exists>t. stage_file st files n s = (Inr (), t) \<and> faults t = []"
      if "ready st {} s" "faults s = []" "unoccupied st {n} s" for s
      using stage_file_quiet [OF al that] by simp
  qed
  then obtain v where v: "io_each (stage_file st files) ns u = (Inr (), v)" "faults v = []" by blast
  have "io_keeps (adds st {} (new_paths st (set ns))) (io_each (stage_file st files) ns)"
    using ns(2) by (intro adding.keeps_each stage_file_adds) auto
  then have "adds st {} (new_paths st (set ns)) u v" using v(1) by (rule io_keepsD)
  then have "ready st {} v" using ready by (rule adds_ready)
  then have "present v st" by (auto simp: ready_def is_dir_def present_def split: option.splits)
  moreover have "present v p" if "p \<in> set (stage_directories st v)" for p
    using that by (auto simp: stage_directories_def present_iff)
  ultimately have "fsync_stage st v = (Inr (), v)"
    using v(2) by (simp add: fsync_stage_def io_seq_run each_probe_quiet fsync_directory_quiet)
  then show ?thesis using u(1) v by (simp add: stage_all_def io_seq_run)
qed

lemma link_all_quiet:
  assumes ns: "distinct ns" "set ns \<subseteq> set publication_allowlist"
    and ready: "ready d F s" and quiet: "faults s = []" and empty: "\<And>p. under d p \<Longrightarrow> lookup s p = None"
    and staged: "\<And>n. n \<in> set ns \<Longrightarrow> (public_path st n, pay n) \<in> F"
  shows "\<exists>t. io_each (link_file st d) ns s = (Inr (), t) \<and> faults t = []"
proof (rule each_quiet [OF ns ready quiet])
  show "unoccupied d (set ns) s"
    unfolding unoccupied_def
  proof
    fix n
    assume "n \<in> set ns"
    then have al: "n \<in> set publication_allowlist" using ns(2) by auto
    have "butlast (public_path d n) = d \<or> under d (butlast (public_path d n))"
      by (auto simp: butlast_public_path [OF al])
    then show "lookup s (public_path d n) = None
      \<and> (lookup s (butlast (public_path d n)) = None \<or> is_dir s (butlast (public_path d n)))"
      using empty under_public_path [OF al, of d] ready by (auto simp: ready_def)
  qed
  fix n
  assume n: "n \<in> set ns"
  then have al: "n \<in> set publication_allowlist" using ns(2) by auto
  show "io_keeps (adds d F (new_paths d {n})) (link_file st d n)"
    using al by (rule link_file_adds) simp
  show "lookup t (public_path d n) \<noteq> None" if "ready d F s" "link_file st d n s = (Inr (), t)" for s t
  proof -
    have "read_file s (public_path st n) = Some (pay n)"
      using staged [OF n] that(1) by (auto simp: ready_def)
    then show ?thesis
      using link_file_post [OF that(2) al that(1)] by (auto simp: read_file_def split: option.splits)
  qed
  show "\<exists>t. link_file st d n s = (Inr (), t) \<and> faults t = []"
    if "ready d F s" "faults s = []" "unoccupied d {n} s" for s
    using link_file_quiet [OF al that staged [OF n]] .
qed

lemma publish_new_quiet:
  assumes wf: "fs_wf s" and valid: "plane_valid cp s" and quiet: "faults s = []"
    and empty: "tree_entries s (plane_public cp) = []" and new: "\<not> present s (stage_of cp)"
    and files: "within_limits files" and marker: "marker \<in> set (map fst files)"
  shows "\<exists>t. publish_new cp files marker s
     = (Inr (map (\<lambda>n. (n, public_path (plane_public cp) n)) (publication_order files marker)), t) \<and> faults t = []"
proof -
  let ?d = "plane_public cp" and ?st = "stage_of cp" and ?o = "publication_order files marker"
  have o: "set ?o = set (map fst files)" using marker by (rule set_publication_order)
  have ns: "distinct ?o" "set ?o \<subseteq> set publication_allowlist" "set ?o \<subseteq> set (map fst files)"
    using files o by (auto simp: within_limits_def publication_order_def)
  have "lookup s (plane_root cp) = Some (Dir 448)" and d: "is_dir s ?d"
    using valid unfolding plane_valid_def by blast+
  then have "is_dir s (butlast ?st)" by (simp add: is_dir_def)
  then obtain u where u: "stage_all ?st files ?o s = (Inr (), u)" "faults u = []"
    using stage_all_quiet [OF wf quiet, of ?st ?o files] ns new by (auto simp: present_def)
  note st = stage_all_run [OF u(1) ns(2) wf]
  define pay where "pay n = the (map_of files n)" for n
  define F where "F = (\<lambda>n. (public_path ?st n, pay n)) ` set ?o"
  have "read_file u (public_path ?st n) = Some (pay n)" if "n \<in> set ?o" for n
    using st(4) [OF _ that] by (auto simp: pay_def)
  then have ready: "ready ?d F u"
    using st(1,2) d by (auto simp: ready_def F_def intro: extends_dir)
  have none: "lookup u p = None" if p: "under ?d p" for p
  proof -
    obtain x where x: "p = ?d @ x" using p by (auto elim: underE)
    have "p \<notin> {?st} \<union> new_paths ?st (set ?o)"
    proof
      assume "p \<in> {?st} \<union> new_paths ?st (set ?o)"
      then have "\<exists>y. p = plane_root cp @ y"
        by (auto dest!: new_paths_under [OF ns(2)] elim!: underE)
      then show False using roots_apart [OF valid empty] x by auto
    qed
    then show ?thesis using st(3) empty p by (simp add: frame_def tree_entries_empty)
  qed
  obtain v where v: "io_each (link_file ?st ?d) ?o u = (Inr (), v)" "faults v = []"
    using link_all_quiet [OF ns(1,2) ready u(2) none, of ?st pay] by (auto simp: F_def)
  then show ?thesis
    using u(1) empty new
    by (auto simp: publish_new_def Let_def io_guard_def stage_all_def io_seq_run io_rewrap_def split: prod.splits sum.splits)
qed

lemma publish_accepts:
  assumes "plane_valid cp s" and "faults s = []" and "within_limits files" and "marker \<in> set (map fst files)"
  shows "publish cp files marker s = publish_accepted cp files marker s"
proof -
  have payloads: "publication_payloads files = Inr files" using assms(3) by (simp add: publication_payloads_Inr)
  have name: "relative_name marker = Inr marker"
    using assms(3,4) by (auto simp: within_limits_def)
  show ?thesis
    using assms(4) unfolding publish_def io_seq_run io_bind_def io_lift_def
      plane_current_quiet [OF assms(1,2)] prod.case sum.case payloads name
    by simp
qed

section \<open>Creation\<close>

lemma chmod_step:
  assumes "is_dir s p"
    and "t = s\<lparr>entries := map (\<lambda>(q, n). (q, if q = p then Dir m else n)) (entries s)\<rparr>"
  shows "lookup t = (lookup s)(p \<mapsto> Dir m)" "fs_wf t = fs_wf s" "read_file t = read_file s"
proof -
  have map: "map_of (map (\<lambda>(q, n). (q, if q = p then Dir m else n)) xs) q
      = (if q = p then map_option (\<lambda>_. Dir m) (map_of xs p) else map_of xs q)" for xs q
    by (induction xs) auto
  have there: "map_of (entries s) p \<noteq> None" and dir: "is_dir s p"
    using assms(1) by (auto simp: is_dir_def lookup_def split: option.splits)
  show lt: "lookup t = (lookup s)(p \<mapsto> Dir m)"
    using there by (auto simp: assms(2) lookup_def map fun_eq_iff)
  have dirs: "is_dir t = is_dir s" using dir by (auto simp: is_dir_def lt fun_eq_iff)
  have files: "lookup t q = Some (File i) \<longleftrightarrow> lookup s q = Some (File i)" for q i
    using dir by (auto simp: lt is_dir_def)
  have "lookup t q = None \<longleftrightarrow> lookup s q = None" for q
    using dir by (auto simp: lt is_dir_def split: option.splits)
  moreover have "map fst (entries t) = map fst (entries s)"
    by (simp add: assms(2) comp_def split_def)
  moreover have "next_inode t = next_inode s" "contents t = contents s" by (simp_all add: assms(2))
  ultimately show "fs_wf t = fs_wf s" unfolding fs_wf_def dirs files by simp
  have "read_file t q = read_file s q" for q
    using dir \<open>contents t = contents s\<close> by (auto simp: read_file_def lt is_dir_def split: option.splits node.splits)
  then show "read_file t = read_file s" by (simp add: fun_eq_iff)
qed

lemma make_root_run:
  assumes "make_root p s = (Inr (), t)" and "fs_wf s"
  shows "lookup t = (lookup s)(p \<mapsto> Dir 448)" "fs_wf t"
proof -
  obtain u v where u: "fs_mkdir 448 p s = (Inr (), u)" and v: "fs_chmod 448 p u = (Inr (), v)"
    and vt: "only_reads v t"
    using assms(1) io_keepsD [OF reads_fsync_directory]
    by (auto simp: make_root_def io_rewrap_Inr io_seq_Inr)
  have lu: "lookup u = (lookup s)(p \<mapsto> Dir 448)"
    using u by (auto simp: fs_mkdir_def dest!: syscall_Inr add_entry_lookup(1))
  have wu: "fs_wf u" using io_keepsD [OF keeps_mkdir(1) u] assms(2) by (simp add: grows_def)
  obtain fl where "is_dir u p"
    "v = (u\<lparr>faults := fl\<rparr>)\<lparr>entries := map (\<lambda>(q, n). (q, if q = p then Dir 448 else n)) (entries u)\<rparr>"
    using v by (auto simp: fs_chmod_def dest!: syscall_Inr split: if_splits)
  then have "lookup v = (lookup u)(p \<mapsto> Dir 448)" "fs_wf v = fs_wf u"
    using chmod_step [of "u\<lparr>faults := fl\<rparr>" p v 448] by simp_all
  then show "lookup t = (lookup s)(p \<mapsto> Dir 448)" "fs_wf t"
    using vt lu wu by (simp_all add: only_reads_simps)
qed

lemma write_receipt_run:
  assumes "write_receipt p b s = (Inr (), t)"
  shows "grows s t" "frame {p @ [isolation_receipt_name]} s t" "read_file t (p @ [isolation_receipt_name]) = Some b"
proof -
  obtain u where u: "write_private (p @ [isolation_receipt_name]) b s = (Inr (), u)" and ut: "only_reads u t"
    using assms io_keepsD [OF reads_fsync_directory]
    by (auto simp: write_receipt_def io_on_error_Inr io_seq_Inr)
  note w = write_private_run [OF u]
  show "grows s t" using growing.trans [OF w(1) reads_grow [OF ut]] .
  show "frame {p @ [isolation_receipt_name]} s t" using framed.trans [OF w(2) reads_frame [OF ut]] by simp
  show "read_file t (p @ [isolation_receipt_name]) = Some b" using w(3) ut by (simp add: only_reads_simps)
qed

lemma present_parent: "fs_wf s \<Longrightarrow> lookup s (p @ [x]) \<noteq> None \<Longrightarrow> is_dir s p"
  unfolding fs_wf_def by (metis append_is_Nil_conv butlast_snoc not_Cons_self2)

lemma esc_len_le: "esc_len s \<le> 6 * length s"
proof (induction s)
  case (Cons c s)
  have "length (json_escape c) \<le> 6" by (simp add: json_escape_def)
  with Cons show ?case by simp
qed simp

text \<open>A name of at most 255 bytes (\<open>NAME_MAX\<close>) gives a receipt far below the reading limit.\<close>

lemma isolation_receipt_length:
  assumes "canonical_json (PDict (isolation_receipt spec public)) = Inr b"
    and "length (path_name public) \<le> 255" and "is_sha256_hex spec"
  shows "length b \<le> default_publication_file_max_bytes"
proof -
  let ?v = "sort_keys (PDict (isolation_receipt spec public))"
  obtain t where t: "json_dumps ?v = Some t" "length b = length t + 1"
    using assms(1) by (auto simp: canonical_json_def split: option.splits if_splits)
  have h: "length spec = 64" "length empty_public_sha256 = 64"
    using assms(3) sha256_hex_is_sha256_hex by (simp_all add: is_sha256_hex_def empty_public_sha256_def)
  have n: "length (nat_repr 0) = 1" by (simp add: nat_repr.simps)
  have "dump_bound ?v \<le> 1000 + esc_len spec + esc_len (path_name public) + esc_len empty_public_sha256"
    using esc_len_le [of "''schema_version''"] esc_len_le [of "''run_spec_sha256''"]
      esc_len_le [of "''public_root_name''"] esc_len_le [of "''public_initial_entry_count''"]
      esc_len_le [of "''public_initial_entries_sha256''"] esc_len_le [of isolation_schema]
    by (simp del: esc_len_simps add: isolation_receipt_def sort_dict_def isolation_schema_def n)
  also have "\<dots> \<le> 1000 + 6 * 64 + 6 * 255 + 6 * 64"
    using esc_len_le [of spec] esc_len_le [of "path_name public"] esc_len_le [of empty_public_sha256] assms(2) h
    by simp
  finally have "length t \<le> 1000 + 6 * 64 + 6 * 255 + 6 * 64" using length_dumps(1) [OF t(1)] by simp
  then show ?thesis using t(2) by (simp add: default_publication_file_max_bytes_def)
qed

lemma plane_create_run:
  assumes run: "plane_create public spec s = (Inr cp, t)" and wf: "fs_wf s"
    and name: "length (path_name public) \<le> 255"
  shows "plane_valid cp t" "fs_wf t" "plane_public cp = public"
    "frame (tree_at (plane_root cp)) s t" "\<not> present s (plane_root cp)" "tree_entries s public = []"
    "\<not> present t (stage_of cp)"
proof -
  let ?root = "control_root_for public"
  obtain u b where u: "make_root ?root s = (Inr (), u)"
    and b: "canonical_json (PDict (isolation_receipt spec public)) = Inr b"
    and w: "write_receipt ?root b u = (Inr (), t)"
    and cp: "cp = \<lparr>plane_root = ?root, plane_public = public,
               plane_run_spec_sha256 = spec, plane_receipt_sha256 = sha256_hex b\<rparr>"
    and guards: "is_sha256_hex spec" "is_dir s public" "\<not> present s ?root" "tree_entries s public = []"
    using run by (auto simp: plane_create_def io_check_Inr io_guard_Inr io_bind_Inr io_seq_Inr io_lift_Inr)
  note mk = make_root_run [OF u wf] and wr = write_receipt_run [OF w]
  have ext: "extends u t" and wt: "fs_wf t" using wr(1) mk(2) by (simp_all add: grows_def)
  have "public \<noteq> ?root" using guards(2,3) by (auto simp: is_dir_def present_def split: option.splits)
  then have "is_dir u public" using guards(2) mk(1) by (simp add: is_dir_def)
  then have "is_dir t public" using ext extends_dir by blast
  moreover have "lookup t ?root = Some (Dir 448)" using mk(1) ext by (simp add: extends_def)
  moreover have "length b \<le> default_publication_file_max_bytes"
    using isolation_receipt_length [OF b name guards(1)] .
  ultimately show "plane_valid cp t" using guards(1) b wr(3) by (simp add: plane_valid_def cp)
  show "fs_wf t" "plane_public cp = public" "\<not> present s (plane_root cp)" "tree_entries s public = []"
    using wt guards by (simp_all add: cp)
  have su: "frame (tree_at ?root) s u" using mk(1) by (auto simp: frame_def tree_at_def)
  have "frame (tree_at ?root) u t" using wr(2) by (rule frame_mono) (simp add: tree_at_def)
  with su show "frame (tree_at (plane_root cp)) s t" unfolding cp by (auto intro: framed.trans)
  have "lookup s (?root @ [publication_stage_name]) = None"
  proof (rule ccontr)
    assume "lookup s (?root @ [publication_stage_name]) \<noteq> None"
    then have "is_dir s ?root" by (rule present_parent [OF wf])
    then show False using guards(3) by (auto simp: present_def is_dir_def split: option.splits)
  qed
  then show "\<not> present t (stage_of cp)"
    using mk(1) wr(2) by (auto simp: cp present_def frame_def publication_stage_name_def isolation_receipt_name_def)
qed

lemma plane_create_quiet:
  assumes quiet: "faults s = []" and wf: "fs_wf s" and dirs: "is_dir s public" "is_dir s (butlast public)"
    and empty: "tree_entries s public = []" and new: "\<not> present s (control_root_for public)"
    and spec: "is_sha256_hex spec" and name: "valid_utf8 (path_name public)"
  shows "\<exists>cp t. plane_create public spec s = (Inr cp, t)"
proof -
  let ?root = "control_root_for public"
  have root: "butlast ?root = butlast public" "?root \<noteq> []" by (simp_all add: control_root_for_def)
  obtain u where u: "fs_mkdir 448 ?root s = (Inr (), u)" "faults u = []" "lookup u = (lookup s)(?root \<mapsto> Dir 448)"
    using mkdir_quiet [OF quiet, of ?root 448] dirs(2) new root by (auto simp: present_def)
  have "is_dir u ?root" by (simp add: is_dir_def u(3))
  then obtain v where v: "fs_chmod 448 ?root u = (Inr (), v)" "faults v = []"
    and lv: "lookup v = (lookup u)(?root \<mapsto> Dir 448)"
    using u(2) chmod_step(1) [of u ?root _ 448] by (auto simp: fs_chmod_def syscall_quiet)
  have "present v (butlast ?root)"
    using dirs(2) lv u(3) root by (auto simp: present_def is_dir_def split: option.splits)
  then have mk: "make_root ?root s = (Inr (), v)"
    using u v by (simp add: make_root_def io_rewrap_def io_seq_run fsync_directory_quiet)
  have spec8: "valid_utf8 spec" using spec by (rule sha256_hex_valid_utf8)
  have "valid_utf8 empty_public_sha256"
    by (simp add: empty_public_sha256_def sha256_hex_valid_utf8)
  moreover have "list_all valid_utf8 [''schema_version'', ''run_spec_sha256'', ''public_root_name'',
      ''public_initial_entry_count'', ''public_initial_entries_sha256'', isolation_schema]"
    by (simp add: isolation_schema_def ord_of_def)
  ultimately have "strs_ok (PDict (isolation_receipt spec public))"
    using spec8 name by (simp add: isolation_receipt_def)
  then obtain b where b: "canonical_json (PDict (isolation_receipt spec public)) = Inr b"
    using canonical_json_defined [OF isolation_receipt_ok(2)] by blast
  have "lookup s (?root @ [isolation_receipt_name]) = None"
  proof (rule ccontr)
    assume "lookup s (?root @ [isolation_receipt_name]) \<noteq> None"
    then have "is_dir s ?root" by (rule present_parent [OF wf])
    then show False using new by (auto simp: present_def is_dir_def split: option.splits)
  qed
  then have "lookup v (?root @ [isolation_receipt_name]) = None" "is_dir v ?root"
    by (simp_all add: lv u(3) is_dir_def)
  then obtain w where w: "write_private (?root @ [isolation_receipt_name]) b v = (Inr (), w)" "faults w = []"
    using write_private_quiet [OF v(2), of "?root @ [isolation_receipt_name]" b] by auto
  have "lookup w ?root = Some (Dir 448)"
    using write_private_run(2) [OF w(1), of "{?root @ [isolation_receipt_name]}"] lv
    by (simp add: frame_def)
  then have "write_receipt ?root b v = (Inr (), w)"
    using w by (simp add: write_receipt_def io_on_error_def io_seq_run fsync_directory_quiet present_def)
  then show ?thesis
    using mk b spec dirs empty new is_dir_not_symlink
    by (simp add: plane_create_def io_guard_def io_seq_run io_bind_def io_lift_def)
qed

section \<open>Properties\<close>

definition sample_fs :: fsys where
  "sample_fs = \<lparr>entries = [([], Dir 493), ([''trial''], Dir 493), ([''trial'', ''agent''], Dir 493)],
     contents = (\<lambda>_. []), next_inode = 0, faults = []\<rparr>"

definition sample_files :: "(pystr \<times> bytes) list" where
  "sample_files = [(''runtime/run.json'', ''r''), (''agent-run.json'', ''m'')]"

lemma sample_fs_ok:
  "fs_wf sample_fs" "is_dir sample_fs [''trial'', ''agent'']" "is_dir sample_fs [''trial'']"
  "tree_entries sample_fs [''trial'', ''agent''] = []" "faults sample_fs = []"
  "\<not> present sample_fs (control_root_for [''trial'', ''agent''])"
  by (auto simp: sample_fs_def fs_wf_def lookup_def is_dir_def tree_entries_def under_def present_def
      control_root_for_def control_dir_name_def split: if_splits)

lemma sample_files_ok: "within_limits sample_files" "''agent-run.json'' \<in> set (map fst sample_files)"
  by (simp_all add: within_limits_def sample_files_def publication_allowlist_def publication_file_max_bytes_def
      default_publication_file_max_bytes_def publication_total_max_bytes_def)

lemma sample_plane:
  "\<exists>cp t. plane_create [''trial'', ''agent''] (sha256_hex []) sample_fs = (Inr cp, t)"
  using sample_fs_ok by (intro plane_create_quiet) (simp_all add: path_name_def ord_of_def)

text \<open>Creation leaves the public directory empty.\<close>

lemma created_empty:
  assumes "fs_wf s" and "plane_create public spec s = (Inr cp, t)"
    and "public \<noteq> []" and "length (path_name public) \<le> 255"
  shows "tree_entries t public = []"
proof -
  note c = plane_create_run [OF assms(2,1,4)]
  have root: "plane_root cp = butlast public @ [control_dir_name]"
    using c(1,3) unfolding plane_valid_def control_root_for_def by simp
  have "lookup t p = None" if p: "under public p" for p
  proof -
    have "p \<notin> tree_at (plane_root cp)"
    proof
      assume "p \<in> tree_at (plane_root cp)"
      then have "public = plane_root cp"
        using p assms(3) by (auto simp: tree_at_def under_def root)
      moreover have "is_dir s public"
        using assms(2) by (auto simp: plane_create_def io_check_Inr io_guard_Inr)
      ultimately show False using c(5) by (auto simp: present_def is_dir_def split: option.splits)
    qed
    then show ?thesis using c(4,6) p by (simp add: frame_def tree_entries_empty)
  qed
  then show ?thesis by (simp add: tree_entries_empty)
qed

lemma quiet_reads: "only_reads t (t\<lparr>faults := []\<rparr>)"
  by (auto simp: only_reads_def)

lemma sample_publication:
  "\<exists>cp t out u. plane_public cp = [''trial'', ''agent''] \<and> fs_wf t \<and> tree_entries t [''trial'', ''agent''] = []
     \<and> publish cp sample_files ''agent-run.json'' t = (Inr out, u)"
proof -
  obtain cp t where run: "plane_create [''trial'', ''agent''] (sha256_hex []) sample_fs = (Inr cp, t)"
    using sample_plane by blast
  have name: "length (path_name [''trial'', ''agent'']) \<le> 255" by (simp add: path_name_def)
  let ?t = "t\<lparr>faults := []\<rparr>"
  note c = plane_create_run [OF run sample_fs_ok(1) name]
  have valid: "plane_valid cp ?t" using c(1) plane_valid_reads [OF quiet_reads] by simp
  have empty: "tree_entries ?t (plane_public cp) = []"
    using created_empty [OF sample_fs_ok(1) run _ name] by (simp add: c(3))
  obtain out u where "publish_new cp sample_files ''agent-run.json'' ?t = (Inr out, u)"
    using publish_new_quiet [OF _ valid _ empty _ sample_files_ok] c(2,7) by auto
  moreover have "under (plane_public cp) (public_path (plane_public cp) ''agent-run.json'')"
    by (rule under_public_path) (simp add: publication_allowlist_def)
  then have "\<not> present ?t (public_path (plane_public cp) ''agent-run.json'')"
    using empty by (simp add: tree_entries_empty present_def)
  ultimately have "publish cp sample_files ''agent-run.json'' ?t = (Inr out, u)"
    using publish_accepts [OF valid _ sample_files_ok] by (simp add: publish_accepted_def)
  then show ?thesis using c(2,3) empty by (intro exI [of _ cp] exI [of _ ?t] exI [of _ out] exI [of _ u]) simp
qed

text \<open>
  A control plane that was created for an empty public directory verifies: unless a system
  call fails, the check before dispatch accepts it and changes nothing.
\<close>

theorem created_plane_verifies:
  assumes "fs_wf s" and "plane_create public spec s = (Inr cp, t)"
    and "public \<noteq> []" and "length (path_name public) \<le> 255"
  shows "verify_pre_dispatch cp (t\<lparr>faults := []\<rparr>) = (Inr (), t\<lparr>faults := []\<rparr>)"
proof -
  let ?t = "t\<lparr>faults := []\<rparr>"
  note c = plane_create_run [OF assms(2,1,4)]
  have "plane_current cp ?t = (Inr (), ?t)"
    using c(1) plane_valid_reads [OF quiet_reads] by (intro plane_current_quiet) simp_all
  moreover have "tree_entries ?t (plane_public cp) = []"
    using created_empty [OF assms] by (simp add: c(3))
  ultimately show ?thesis by (simp add: verify_pre_dispatch_def io_seq_run io_guard_def)
qed

theorem created_plane_verifies_witness:
  "\<exists>cp t. plane_create [''trial'', ''agent''] (sha256_hex []) sample_fs = (Inr cp, t)
     \<and> verify_pre_dispatch cp (t\<lparr>faults := []\<rparr>) = (Inr (), t\<lparr>faults := []\<rparr>)"
proof -
  obtain cp t where run: "plane_create [''trial'', ''agent''] (sha256_hex []) sample_fs = (Inr cp, t)"
    using sample_plane by blast
  have "verify_pre_dispatch cp (t\<lparr>faults := []\<rparr>) = (Inr (), t\<lparr>faults := []\<rparr>)"
    by (rule created_plane_verifies [OF sample_fs_ok(1) run]) (simp_all add: path_name_def)
  with run show ?thesis by blast
qed

text \<open>
  C3: The marker commits a publication. Whichever system calls fail, if the marker exists after
  \<open>publish\<close> and did not before, then every file of the publication is in the public directory
  with exactly its bytes; an interrupted publication never shows a marker over missing or partial
  evidence.
\<close>

theorem publish_marker_last:
  assumes "fs_wf s" and "publish cp files marker s = (r, t)"
    and "lookup s (public_path (plane_public cp) marker) = None"
    and "lookup t (public_path (plane_public cp) marker) \<noteq> None"
  shows "\<forall>(name, payload) \<in> set files. read_file t (public_path (plane_public cp) name) = Some payload"
proof -
  have "\<not> only_reads s t" using assms(3,4) only_reads_simps(1) by auto
  then obtain u where facts: "plane_valid cp s" "within_limits files" "marker \<in> set (map fst files)"
    and u: "only_reads s u" "publish_accepted cp files marker u = (r, t)"
    using publish_cases [OF assms(2)] by blast
  then have "publish_new cp files marker u = (r, t)"
    using assms(3) by (simp add: publish_accepted_def present_def only_reads_simps(1))
  then have "holds_files (plane_public cp) files t"
    using publish_new_run(4) facts u(1) assms(1,3,4)
    by (simp add: only_reads_simps(1,6) plane_valid_reads)
  then show ?thesis by (auto simp: holds_files_def)
qed

theorem publish_marker_last_witness:
  "\<exists>cp s out t. lookup s (public_path (plane_public cp) ''agent-run.json'') = None
     \<and> publish cp sample_files ''agent-run.json'' s = (Inr out, t)
     \<and> read_file t (public_path (plane_public cp) ''runtime/run.json'') = Some ''r''"
proof -
  obtain cp s out t where d: "plane_public cp = [''trial'', ''agent'']" and wf: "fs_wf s"
    and empty: "tree_entries s [''trial'', ''agent''] = []"
    and run: "publish cp sample_files ''agent-run.json'' s = (Inr out, t)"
    using sample_publication by blast
  have "under (plane_public cp) (public_path (plane_public cp) ''agent-run.json'')"
    by (rule under_public_path) (simp add: publication_allowlist_def)
  then have before: "lookup s (public_path (plane_public cp) ''agent-run.json'') = None"
    using empty d by (simp add: tree_entries_empty)
  have "read_file t (public_path (plane_public cp) ''agent-run.json'') = Some ''m''"
    using publish_result(4) [OF run wf] by (auto simp: published_def holds_files_def sample_files_def)
  then have after: "lookup t (public_path (plane_public cp) ''agent-run.json'') \<noteq> None"
    by (auto simp: read_file_def split: option.splits)
  show ?thesis
    using before run publish_marker_last [OF wf run before after] by (auto simp: sample_files_def)
qed

text \<open>
  C23: A publication finishes: from a freshly created control plane, when no system call fails,
  publishing any acceptable set of files returns and all of them are in the public directory.
\<close>

theorem publish_completes:
  assumes "fs_wf s" and "plane_create public spec s = (Inr cp, t)" and "public \<noteq> []"
    and "length (path_name public) \<le> 255"
    and "within_limits files" and "marker \<in> set (map fst files)"
  shows "\<exists>out u. publish cp files marker (t\<lparr>faults := []\<rparr>) = (Inr out, u)
     \<and> (\<forall>(name, payload) \<in> set files. read_file u (public_path public name) = Some payload)"
proof -
  let ?t = "t\<lparr>faults := []\<rparr>"
  note c = plane_create_run [OF assms(2,1,4)]
  have valid: "plane_valid cp ?t" using c(1) plane_valid_reads [OF quiet_reads] by simp
  have empty: "tree_entries ?t (plane_public cp) = []" using created_empty [OF assms(1-4)] by (simp add: c(3))
  obtain u where u: "publish_new cp files marker ?t
      = (Inr (map (\<lambda>n. (n, public_path (plane_public cp) n)) (publication_order files marker)), u)"
    using publish_new_quiet [of ?t cp files marker] c(2,7) valid empty assms(5,6) by auto
  have "marker \<in> set publication_allowlist" using assms(5,6) by (auto simp: within_limits_def)
  then have "\<not> present ?t (public_path (plane_public cp) marker)"
    using empty under_public_path by (simp add: tree_entries_empty present_def)
  then have "publish cp files marker ?t
      = (Inr (map (\<lambda>n. (n, public_path (plane_public cp) n)) (publication_order files marker)), u)"
    using publish_accepts [OF valid _ assms(5,6)] u by (simp add: publish_accepted_def)
  moreover have "holds_files (plane_public cp) files u"
    using publish_new_run(5) [OF u _ valid assms(5,6)] c(2) by simp
  ultimately show ?thesis by (auto simp: holds_files_def c(3))
qed

theorem publish_completes_witness:
  "\<exists>cp t out u. plane_create [''trial'', ''agent''] (sha256_hex []) sample_fs = (Inr cp, t)
     \<and> publish cp sample_files ''agent-run.json'' (t\<lparr>faults := []\<rparr>) = (Inr out, u)
     \<and> read_file u [''trial'', ''agent'', ''runtime'', ''run.json''] = Some ''r''"
proof -
  obtain cp t where run: "plane_create [''trial'', ''agent''] (sha256_hex []) sample_fs = (Inr cp, t)"
    using sample_plane by blast
  have "\<exists>out u. publish cp sample_files ''agent-run.json'' (t\<lparr>faults := []\<rparr>) = (Inr out, u)
     \<and> (\<forall>(name, payload) \<in> set sample_files. read_file u (public_path [''trial'', ''agent''] name) = Some payload)"
    by (rule publish_completes [OF sample_fs_ok(1) run _ _ sample_files_ok]) (simp_all add: path_name_def)
  moreover have "public_path [''trial'', ''agent''] ''runtime/run.json'' = [''trial'', ''agent'', ''runtime'', ''run.json'']"
    by (simp add: public_path_def path_parts_def path_root_def path_tail_def)
  ultimately show ?thesis using run by (auto simp: sample_files_def)
qed

text \<open>
  C24: Publishing twice is publishing once. After a publication has returned, publishing the same
  files under the same marker again returns the same paths and changes nothing, unless a system
  call fails.
\<close>

theorem publish_idempotent:
  assumes "fs_wf s" and "publish cp files marker s = (Inr out, t)"
  shows "\<exists>out'. publish cp files marker (t\<lparr>faults := []\<rparr>) = (Inr out', t\<lparr>faults := []\<rparr>) \<and> set out' = set out"
proof -
  let ?t = "t\<lparr>faults := []\<rparr>" and ?d = "plane_public cp"
  note r = publish_result [OF assms(2,1)]
  have valid: "plane_valid cp ?t" and published: "published ?d files ?t"
    using r(1,4) plane_valid_reads [OF quiet_reads] published_reads [OF quiet_reads] by simp_all
  obtain f where "f \<in> set files" "fst f = marker" using r(3) by auto
  then have "present ?t (public_path ?d marker)"
    using published by (auto simp: published_def holds_files_def read_file_def present_def split: option.splits)
  then have "publish cp files marker ?t = (Inr (map (\<lambda>f. (fst f, public_path ?d (fst f))) files), ?t)"
    using publish_accepts [OF valid _ r(2,3)] check_published_quiet [OF published r(2)]
    by (simp add: publish_accepted_def io_seq_run)
  then show ?thesis using r(5) by (simp add: image_image)
qed

theorem publish_idempotent_witness:
  "\<exists>cp t out out'. publish cp sample_files ''agent-run.json'' (t\<lparr>faults := []\<rparr>) = (Inr out', t\<lparr>faults := []\<rparr>)
     \<and> set out' = set out \<and> (''agent-run.json'', plane_public cp @ [''agent-run.json'']) \<in> set out"
proof -
  obtain cp s out t where wf: "fs_wf s" and run: "publish cp sample_files ''agent-run.json'' s = (Inr out, t)"
    using sample_publication by blast
  have "path_parts ''agent-run.json'' = [''agent-run.json'']"
    by (simp add: path_parts_def path_root_def path_tail_def)
  then have "(''agent-run.json'', plane_public cp @ [''agent-run.json'']) \<in> set out"
    using publish_result(5) [OF run wf] by (auto simp: public_path_def sample_files_def)
  then show ?thesis using publish_idempotent [OF wf run] by blast
qed

text \<open>
  C25: A publication only adds, and only where it may: whatever fails, every path that existed
  still leads to the same directory or file with the same content, and every new path is in the
  private stage or is the path (or the parent) of a published file.
\<close>

theorem publish_confined:
  assumes "fs_wf s" and "publish cp files marker s = (r, t)"
  shows "(\<forall>p. lookup s p \<noteq> None \<longrightarrow> lookup t p = lookup s p \<and> read_file t p = read_file s p)
     \<and> (\<forall>p. lookup s p = None \<longrightarrow> lookup t p \<noteq> None \<longrightarrow>
          p \<in> tree_at (stage_of cp) \<or> p \<in> new_paths (plane_public cp) (set (map fst files)))"
proof -
  let ?N = "set (map fst files)" and ?d = "plane_public cp"
  have "extends s t \<and> frame (tree_at (stage_of cp) \<union> new_paths ?d ?N) s t"
  proof (cases "only_reads s t")
    case True
    then show ?thesis by (auto intro: reads_frame simp: only_reads_def)
  next
    case False
    then obtain u where s: "plane_valid cp s" "within_limits files" "marker \<in> ?N"
      and u: "only_reads s u" and run: "publish_accepted cp files marker u = (r, t)"
      using publish_cases [OF assms(2)] by blast
    have wu: "fs_wf u" and vu: "plane_valid cp u" using s(1) u assms(1) by (simp_all add: only_reads_simps(6) plane_valid_reads)
    have "extends u t \<and> frame (tree_at (stage_of cp) \<union> new_paths ?d ?N) u t"
    proof (cases "present u (public_path ?d marker)")
      case True
      have "io_keeps only_reads (io_seq (check_published ?d files)
          (io_return (map (\<lambda>f. (fst f, public_path ?d (fst f))) files)))"
        by (intro io_keeps_intros)
      then have "only_reads u t" using run True by (simp add: publish_accepted_def io_keepsD)
      then show ?thesis by (auto intro: reads_frame simp: only_reads_def)
    next
      case False
      then have new: "publish_new cp files marker u = (r, t)" using run by (simp add: publish_accepted_def)
      note f = publish_new_run [OF new wu vu s(2,3)]
      have "?N \<subseteq> set publication_allowlist" using s(2) by (simp add: within_limits_def)
      then have "publication_paths cp ?N \<subseteq> tree_at (stage_of cp) \<union> new_paths ?d ?N"
        using new_paths_under by (auto simp: publication_paths_def tree_at_def)
      then show ?thesis using f(2,3) frame_mono by blast
    qed
    then show ?thesis using u by (auto simp: only_reads_def frame_def extends_def)
  qed
  then have ext: "extends s t" and fr: "frame (tree_at (stage_of cp) \<union> new_paths ?d ?N) s t" by simp_all
  have "read_file t p = read_file s p" if "lookup s p \<noteq> None" for p
  proof (cases "read_file s p")
    case None
    then show ?thesis
      using that ext by (auto simp: read_file_def extends_def split: option.splits node.splits)
  next
    case (Some b)
    then show ?thesis using extends_read [OF ext assms(1)] by simp
  qed
  then show ?thesis using ext fr by (auto simp: extends_def frame_def)
qed

theorem publish_confined_witness:
  "\<exists>cp s out t. publish cp sample_files ''agent-run.json'' s = (Inr out, t)
     \<and> (\<forall>p. lookup s p = None \<longrightarrow> lookup t p \<noteq> None \<longrightarrow>
          p \<in> tree_at (stage_of cp) \<or> p \<in> new_paths (plane_public cp) (set (map fst sample_files)))"
proof -
  obtain cp s out t where wf: "fs_wf s" and run: "publish cp sample_files ''agent-run.json'' s = (Inr out, t)"
    using sample_publication by blast
  then show ?thesis using publish_confined [OF wf run] by blast
qed

text \<open>
  C17: The evidence survives the cleanup. After a publication has returned, a cleanup of the same
  control plane, finished or not, leaves every published file with its bytes; when it returns,
  nothing is left of the private root.
\<close>

theorem evidence_survives_cleanup:
  assumes "fs_wf s" and "publish cp files marker s = (Inr out, t)" and "cleanup cp t = (r, u)"
  shows "(\<forall>(name, payload) \<in> set files. read_file u (public_path (plane_public cp) name) = Some payload)
     \<and> (r = Inr () \<longrightarrow> (\<forall>p \<in> tree_at (plane_root cp). lookup u p = None))"
proof -
  let ?d = "plane_public cp"
  note p = publish_result [OF assms(2,1)] and c = cleanup_run [OF assms(3)]
  have "read_file u (public_path ?d (fst f)) = Some (snd f)" if f: "f \<in> set files" for f
  proof -
    have held: "read_file t (public_path ?d (fst f)) = Some (snd f)"
      using p(4) f by (simp add: published_def holds_files_def)
    have "public_path ?d (fst f) \<notin> tree_at (plane_root cp)"
    proof
      assume "public_path ?d (fst f) \<in> tree_at (plane_root cp)"
      then have "\<exists>y. public_path ?d (fst f) = plane_root cp @ y"
        by (auto simp: tree_at_def elim!: underE)
      then show False using published_apart [OF p(1,4,2)] by (auto simp: public_path_def)
    qed
    then have "lookup u (public_path ?d (fst f)) = lookup t (public_path ?d (fst f))" "contents u = contents t"
      using c(1) unfolding shrinks_def by blast+
    then show ?thesis using held by (simp add: read_file_def split: option.splits node.splits)
  qed
  then show ?thesis using c(2) by auto
qed

theorem evidence_survives_cleanup_witness:
  "\<exists>cp t r u. cleanup cp t = (r, u) \<and> read_file u (public_path (plane_public cp) ''agent-run.json'') = Some ''m''"
proof -
  obtain cp s out t where wf: "fs_wf s" and run: "publish cp sample_files ''agent-run.json'' s = (Inr out, t)"
    using sample_publication by blast
  obtain r u where "cleanup cp t = (r, u)" by (cases "cleanup cp t")
  then show ?thesis using evidence_survives_cleanup [OF wf run] by (auto simp: sample_files_def)
qed

end
