(* ===== verification/Atif.thy ===== *)
theory Atif
  imports Json
begin

text \<open>
  \<open>adapter/atif.py\<close>: the projection of the runtime's event log into an ATIF trajectory, complete
  for a successful run and truthful about what was left open for a failed one, the validation of
  a trajectory, and the token counts read from it.

  An event is a dictionary, as \<open>json.loads\<close> gives it; nothing about its shape is assumed, so
  missing keys and wrong types are the exceptions Python raises.
\<close>

section \<open>Dictionaries keyed by values\<close>

text \<open>Lists and dictionaries cannot be keys; equal values (\<open>1\<close>, \<open>True\<close>, \<open>1.0\<close>) are one key.\<close>

fun hashable :: "pyval \<Rightarrow> bool" where
  "hashable (PList xs) = False"
| "hashable (PDict d) = False"
| "hashable _ = True"

type_synonym 'a keyed = "(pyval \<times> 'a) list"

primrec key_get :: "'a keyed \<Rightarrow> pyval \<Rightarrow> 'a option" where
  "key_get [] k = None"
| "key_get (e # es) k = (if py_eq (fst e) k then Some (snd e) else key_get es k)"

primrec key_set :: "'a keyed \<Rightarrow> pyval \<Rightarrow> 'a \<Rightarrow> 'a keyed" where
  "key_set [] k x = [(k, x)]"
| "key_set (e # es) k x = (if py_eq (fst e) k then (fst e, x) # es else e # key_set es k x)"

definition with_key :: "pyval \<Rightarrow> 'b result \<Rightarrow> 'b result" where
  "with_key k m = ensure (hashable k) TypeError m"

fun truthy :: "pyval \<Rightarrow> bool" where
  "truthy PNone = False"
| "truthy (PBool b) = b"
| "truthy (PInt i) = (i \<noteq> 0)"
| "truthy (PFloat q) = (q \<noteq> 0)"
| "truthy (PNonFinite c) = True"
| "truthy (PStr s) = (s \<noteq> [])"
| "truthy (PList xs) = (xs \<noteq> [])"
| "truthy (PDict d) = (d \<noteq> [])"

text \<open>\<open>isinstance(value, int) and not isinstance(value, bool) and value >= 0\<close>.\<close>

fun known_nonnegative :: "pyval \<Rightarrow> int option" where
  "known_nonnegative (PInt i) = (if 0 \<le> i then Some i else None)"
| "known_nonnegative _ = None"

section \<open>Constants\<close>

definition atif_version :: pystr where
  "atif_version = ''ATIF-v1.7''"

definition partial_trajectory_version :: pystr where
  "partial_trajectory_version = ''nano-partial-trajectory-v1''"

definition atif_error :: "pystr \<Rightarrow> py_error" where
  "atif_error code = AtifError code"

text \<open>The string values of a dictionary literal.\<close>

definition user_step :: "pystr \<Rightarrow> pyval" where
  "user_step instruction =
     PDict [(''step_id'', PInt 1), (''source'', PStr ''user''), (''message'', PStr instruction)]"

definition agent_identity :: "pystr \<Rightarrow> pystr \<Rightarrow> pystr \<Rightarrow> pyval" where
  "agent_identity name version model =
     PDict [(''name'', PStr name), (''version'', PStr version), (''model_name'', PStr model)]"

section \<open>Token usage\<close>

record token_totals =
  prompt_tokens :: int
  completion_tokens :: int
  cached_tokens :: int

definition totals_dict :: "token_totals \<Rightarrow> pydict" where
  "totals_dict t =
     [(''total_prompt_tokens'', PInt (prompt_tokens t)),
      (''total_completion_tokens'', PInt (completion_tokens t)),
      (''total_cached_tokens'', PInt (cached_tokens t))]"

definition known_or_zero :: "pyval \<Rightarrow> int" where
  "known_or_zero v = (case known_nonnegative v of None \<Rightarrow> 0 | Some i \<Rightarrow> i)"

definition add_usage :: "token_totals \<Rightarrow> pyval \<Rightarrow> token_totals" where
  "add_usage t usage =
     (case usage of
        PDict d \<Rightarrow>
          (let cached = (case dict_get_default d ''input_tokens_details'' (PDict []) of
                           PDict details \<Rightarrow> dict_get_default details ''cached_tokens'' (PInt 0)
                         | _ \<Rightarrow> PInt 0)
           in \<lparr>prompt_tokens = prompt_tokens t + known_or_zero (dict_get_default d ''input_tokens'' (PInt 0)),
               completion_tokens = completion_tokens t + known_or_zero (dict_get_default d ''output_tokens'' (PInt 0)),
               cached_tokens = cached_tokens t + known_or_zero cached\<rparr>)
      | _ \<Rightarrow> t)"

definition usage_totals :: "pydict \<Rightarrow> token_totals" where
  "usage_totals run_record =
     (case dict_get run_record ''usage_totals'' of
        PDict v2 \<Rightarrow>
          \<lparr>prompt_tokens = known_or_zero (dict_get v2 ''input_tokens''),
           completion_tokens = known_or_zero (dict_get v2 ''output_tokens''),
           cached_tokens = known_or_zero (dict_get v2 ''cached_input_tokens'')\<rparr>
      | _ \<Rightarrow>
          (let zero = \<lparr>prompt_tokens = 0, completion_tokens = 0, cached_tokens = 0\<rparr> in
           case dict_get_default run_record ''raw_usage'' (PList []) of
             PList raw \<Rightarrow> foldl add_usage zero raw
           | _ \<Rightarrow> zero))"

text \<open>\<open>int(value)\<close>; the parsing of strings and the non-finite floats are not modelled.\<close>

definition py_int :: "pyval \<Rightarrow> int result" where
  "py_int v =
     (case v of
        PInt i \<Rightarrow> Inr i
      | PBool b \<Rightarrow> Inr (if b then 1 else 0)
      | PFloat q \<Rightarrow> Inr (if 0 \<le> q then \<lfloor>q\<rfloor> else \<lceil>q\<rceil>)
      | PStr s \<Rightarrow> Inl Outside_model
      | PNonFinite c \<Rightarrow> Inl Outside_model
      | _ \<Rightarrow> Inl TypeError)"

definition usage_context :: "pydict \<Rightarrow> token_totals result" where
  "usage_context trajectory =
     (case dict_get trajectory ''final_metrics'' of
        PDict metrics \<Rightarrow>
          rbind (py_int (dict_get_default metrics ''total_prompt_tokens'' (PInt 0))) (\<lambda>input.
          rbind (py_int (dict_get_default metrics ''total_cached_tokens'' (PInt 0))) (\<lambda>cache.
          rbind (py_int (dict_get_default metrics ''total_completion_tokens'' (PInt 0))) (\<lambda>output.
            Inr \<lparr>prompt_tokens = input, completion_tokens = output, cached_tokens = cache\<rparr>)))
      | _ \<Rightarrow>
          (case (case dict_get trajectory ''usage'' of
                   PDict usage \<Rightarrow> dict_get usage ''usage_totals'' | _ \<Rightarrow> PNone) of
             PDict totals \<Rightarrow>
               Inr \<lparr>prompt_tokens = known_or_zero (dict_get totals ''input_tokens''),
                    completion_tokens = known_or_zero (dict_get totals ''output_tokens''),
                    cached_tokens = known_or_zero (dict_get totals ''cached_input_tokens'')\<rparr>
           | _ \<Rightarrow> Inr \<lparr>prompt_tokens = 0, completion_tokens = 0, cached_tokens = 0\<rparr>))"

section \<open>Validation\<close>

definition str_in :: "pyval \<Rightarrow> pystr list \<Rightarrow> bool result" where
  "str_in v ss = with_key v (Inr (\<exists>s \<in> set ss. v = PStr s))"

text \<open>\<open>v.get(k)\<close> where \<open>v\<close> may be anything (\<open>AttributeError\<close> if it has no such method).\<close>

definition agent_valid :: "pyval \<Rightarrow> bool" where
  "agent_valid v =
     (case v of
        PDict agent \<Rightarrow>
          list_all (\<lambda>f. case dict_get agent f of PStr s \<Rightarrow> s \<noteq> [] | _ \<Rightarrow> False)
            [''name'', ''version'', ''model_name'']
      | _ \<Rightarrow> False)"

text \<open>A tool call without an observation, admitted only in the trajectory of a failure.\<close>

definition open_call_ok :: "bool \<Rightarrow> pyval \<Rightarrow> unit result" where
  "open_call_ok failed call =
     rbind (py_get call ''extra'') (\<lambda>call_extra.
       if \<not> failed then Inl (atif_error ''atif_tool_observation_missing'')
       else case call_extra of
          PDict e \<Rightarrow>
            rbind (str_in (dict_get e ''state'') [''failed'', ''in_flight'']) (\<lambda>open.
              ensure open (atif_error ''atif_tool_observation_missing'') (Inr ()))
        | _ \<Rightarrow> Inl (atif_error ''atif_tool_observation_missing''))"

definition observation_ok :: "pydict \<Rightarrow> pyval \<Rightarrow> unit result" where
  "observation_ok observation call =
     (case dict_get observation ''results'' of
        PList [result] \<Rightarrow>
          rbind (py_get result ''source_call_id'') (\<lambda>source.
          rbind (py_get call ''tool_call_id'') (\<lambda>target.
            ensure (py_eq source target) (atif_error ''atif_tool_observation_invalid'') (Inr ())))
      | _ \<Rightarrow> Inl (atif_error ''atif_tool_observation_invalid''))"

definition validate_calls :: "bool \<Rightarrow> pydict \<Rightarrow> unit result" where
  "validate_calls failed step =
     (let calls = dict_get_default step ''tool_calls'' (PList []) in
      if truthy calls then
        (case calls of
           PList [call] \<Rightarrow>
             (case dict_get step ''observation'' of
                PDict observation \<Rightarrow> observation_ok observation call
              | _ \<Rightarrow> open_call_ok failed call)
         | _ \<Rightarrow> Inl (atif_error ''atif_tool_calls_invalid''))
      else Inr ())"

definition validate_step :: "bool \<Rightarrow> nat \<Rightarrow> pyval \<Rightarrow> unit result" where
  "validate_step failed index v =
     (case v of
        PDict step \<Rightarrow>
          ensure (py_eq (dict_get step ''step_id'') (PInt (int index))) (atif_error ''atif_step_sequence_invalid'')
         (rbind (str_in (dict_get step ''source'') [''user'', ''agent'']) (\<lambda>known.
            ensure known (atif_error ''atif_step_source_invalid'')
           (ensure (case dict_get step ''message'' of PStr s \<Rightarrow> True | _ \<Rightarrow> False)
              (atif_error ''atif_step_message_invalid'')
              (validate_calls failed step))))
      | _ \<Rightarrow> Inl (atif_error ''atif_step_sequence_invalid''))"

primrec validate_steps :: "bool \<Rightarrow> nat \<Rightarrow> pyval list \<Rightarrow> unit result" where
  "validate_steps failed index [] = Inr ()"
| "validate_steps failed index (v # vs) =
     rbind (validate_step failed index v) (\<lambda>_. validate_steps failed (index + 1) vs)"

definition root_fields :: "pystr list" where
  "root_fields = [''schema_version'', ''session_id'', ''agent'', ''steps'', ''final_metrics'', ''extra'']"

definition validate_minimal_trajectory :: "pydict \<Rightarrow> unit result" where
  "validate_minimal_trajectory trajectory =
     ensure (dict_get trajectory ''schema_version'' = PStr atif_version) (atif_error ''atif_schema_mismatch'')
    (ensure (keys_are trajectory root_fields) (atif_error ''atif_root_fields_invalid'')
    (ensure (agent_valid (dict_get trajectory ''agent'')) (atif_error ''atif_agent_invalid'')
    (case dict_get trajectory ''steps'' of
       PList (first # rest) \<Rightarrow>
         (let failed = (case dict_get trajectory ''extra'' of
                          PDict extra \<Rightarrow> dict_get extra ''terminal_failure'' \<noteq> PNone | _ \<Rightarrow> False)
          in rbind (validate_steps failed 1 (first # rest)) (\<lambda>_.
             rbind (py_item first ''source'') (\<lambda>first_source.
               ensure (py_eq first_source (PStr ''user'')) (atif_error ''atif_boundary_steps_invalid'')
              (if failed then Inr ()
               else rbind (py_item (last (first # rest)) ''source'') (\<lambda>last_source.
                      ensure (py_eq last_source (PStr ''agent'')) (atif_error ''atif_boundary_steps_invalid'')
                        (Inr ()))))))
     | _ \<Rightarrow> Inl (atif_error ''atif_steps_invalid''))))"

section \<open>The trajectory of a successful run\<close>

text \<open>\<open>except (KeyError, TypeError, json.JSONDecodeError)\<close>.\<close>

definition tool_arguments :: "pydict \<Rightarrow> pyval result" where
  "tool_arguments data =
     (case rbind (dict_item data ''arguments_json'') (\<lambda>raw.
             case raw of PStr s \<Rightarrow> json_loads default_hooks s | _ \<Rightarrow> Inl TypeError) of
        Inl KeyError \<Rightarrow> Inl (atif_error ''atif_tool_arguments_invalid'')
      | Inl TypeError \<Rightarrow> Inl (atif_error ''atif_tool_arguments_invalid'')
      | Inl JSONDecodeError \<Rightarrow> Inl (atif_error ''atif_tool_arguments_invalid'')
      | Inl e \<Rightarrow> Inl e
      | Inr v \<Rightarrow> (case v of PDict d \<Rightarrow> Inr v | _ \<Rightarrow> Inl (atif_error ''atif_tool_arguments_invalid'')))"

definition tool_step :: "int \<Rightarrow> pyval \<Rightarrow> pydict \<Rightarrow> pyval result" where
  "tool_step step_id model data =
     rbind (tool_arguments data) (\<lambda>arguments.
     rbind (dict_item data ''completion'') (\<lambda>completion.
     rbind (dict_item data ''call_id'') (\<lambda>call_id.
     rbind (dict_item data ''provider_name'') (\<lambda>provider_name.
     rbind (py_item completion ''output'') (\<lambda>output.
     rbind (py_item completion ''execution_attempted'') (\<lambda>attempted.
     rbind (py_item completion ''outcome'') (\<lambda>outcome.
       Inr (PDict
         [(''step_id'', PInt step_id), (''source'', PStr ''agent''), (''model_name'', model),
          (''message'', PStr []),
          (''tool_calls'', PList [PDict [(''tool_call_id'', call_id), (''function_name'', provider_name),
                                         (''arguments'', arguments)]]),
          (''observation'', PDict [(''results'', PList [PDict
             [(''source_call_id'', call_id), (''content'', output),
              (''extra'', PDict [(''execution_attempted'', attempted), (''outcome'', outcome)])]])]),
          (''llm_call_count'', PInt 1)]))))))))"

record success_scan =
  provider_states :: "pystr keyed"
  registered :: "pydict keyed"
  completed :: "pydict keyed"
  final_text :: pyval

definition scan_event :: "success_scan \<Rightarrow> pydict \<Rightarrow> success_scan result" where
  "scan_event st event =
     rbind (dict_item event ''type'') (\<lambda>event_type.
     rbind (dict_item event ''data'') (\<lambda>data.
       if event_type = PStr ''provider.requested'' then
         rbind (py_item data ''turn_index'') (\<lambda>turn.
           with_key turn
             (ensure (key_get (provider_states st) turn = None) (atif_error ''atif_duplicate_provider_request'')
               (Inr (st\<lparr>provider_states := key_set (provider_states st) turn ''in_flight''\<rparr>))))
       else with_key event_type (
         if event_type = PStr ''provider.completed'' \<or> event_type = PStr ''provider.failed'' then
           rbind (py_item data ''turn_index'') (\<lambda>turn.
             with_key turn
               (ensure (key_get (provider_states st) turn = Some ''in_flight'')
                  (atif_error ''atif_orphan_provider_settlement'')
                  (Inr (st\<lparr>provider_states := key_set (provider_states st) turn
                     (if event_type = PStr ''provider.completed'' then ''completed'' else ''failed'')\<rparr>))))
         else if event_type = PStr ''tool.registered'' then
           rbind (py_item data ''call_id'') (\<lambda>call.
             with_key call
               (ensure (key_get (registered st) call = None) (atif_error ''atif_duplicate_tool_registration'')
                 (Inr (st\<lparr>registered := key_set (registered st) call event\<rparr>))))
         else if event_type = PStr ''tool.completed'' then
           rbind (py_item data ''call_id'') (\<lambda>call.
             with_key call
               (ensure (key_get (registered st) call \<noteq> None \<and> key_get (completed st) call = None)
                  (atif_error ''atif_orphan_tool_completion'')
                  (Inr (st\<lparr>completed := key_set (completed st) call event\<rparr>))))
         else if event_type = PStr ''assistant.final'' then
           ensure (final_text st = PNone) (atif_error ''atif_duplicate_final'')
             (rbind (py_item data ''text'') (\<lambda>t. Inr (st\<lparr>final_text := t\<rparr>)))
         else Inr st)))"

definition empty_scan :: success_scan where
  "empty_scan = \<lparr>provider_states = [], registered = [], completed = [], final_text = PNone\<rparr>"

text \<open>\<open>set(a) == set(b)\<close> on key sets.\<close>

definition same_keys :: "'a keyed \<Rightarrow> 'b keyed \<Rightarrow> bool" where
  "same_keys a b \<longleftrightarrow> list_all (\<lambda>e. key_get b (fst e) \<noteq> None) a \<and> list_all (\<lambda>e. key_get a (fst e) \<noteq> None) b"

definition check_scan :: "success_scan \<Rightarrow> unit result" where
  "check_scan st =
     ensure (\<not> list_ex (\<lambda>e. snd e = ''in_flight'') (provider_states st)) (atif_error ''atif_incomplete_provider_call'')
    (ensure (\<not> list_ex (\<lambda>e. snd e \<noteq> ''completed'') (provider_states st)) (atif_error ''atif_failed_provider_call'')
    (ensure (final_text st \<noteq> PNone) (atif_error ''atif_final_missing'')
    (ensure (same_keys (registered st) (completed st)) (atif_error ''atif_incomplete_tool_call'') (Inr ()))))"

text \<open>\<open>{**registration["data"], "completion": completion["data"]}\<close>.\<close>

definition join_call :: "pydict keyed \<Rightarrow> pyval \<times> pydict \<Rightarrow> pydict result" where
  "join_call completions call =
     (case key_get completions (fst call) of
        None \<Rightarrow> Inl KeyError
      | Some completion \<Rightarrow>
          rbind (dict_item (snd call) ''data'') (\<lambda>data.
            case data of
              PDict d \<Rightarrow> rbind (dict_item completion ''data'') (\<lambda>c. Inr (dict_set d ''completion'' c))
            | _ \<Rightarrow> Inl TypeError))"

definition tool_steps :: "pydict keyed \<Rightarrow> pystr \<Rightarrow> pyval list \<Rightarrow> pydict keyed \<Rightarrow> pyval list result" where
  "tool_steps completions model = rfold (\<lambda>steps call.
     rbind (join_call completions call) (\<lambda>data.
     rbind (tool_step (int (length steps) + 1) (PStr model) data) (\<lambda>step. Inr (steps @ [step]))))"

definition final_step :: "int \<Rightarrow> pystr \<Rightarrow> pyval \<Rightarrow> pyval" where
  "final_step step_id model message =
     PDict [(''step_id'', PInt step_id), (''source'', PStr ''agent''), (''model_name'', PStr model),
            (''message'', message), (''llm_call_count'', PInt 1)]"

definition final_metrics :: "pydict \<Rightarrow> pyval list \<Rightarrow> pyval" where
  "final_metrics source steps =
     PDict (totals_dict (usage_totals source) @ [(''total_steps'', PInt (int (length steps)))])"

definition run_identity :: "pydict \<Rightarrow> pystr list \<Rightarrow> pydict result" where
  "run_identity run_record keys = rmap (\<lambda>k. rbind (dict_item run_record k) (\<lambda>v. Inr (k, v))) keys"

definition project_trajectory ::
  "pystr \<Rightarrow> pydict list \<Rightarrow> pydict \<Rightarrow> pystr \<Rightarrow> pystr \<Rightarrow> pystr \<Rightarrow> pydict result" where
  "project_trajectory instruction events run_record agent_name agent_version model_name =
     ensure (instruction \<noteq> []) (atif_error ''atif_instruction_missing'')
    (ensure (dict_get run_record ''terminal_status'' = PStr ''success'') (atif_error ''atif_run_not_successful'')
    (ensure (events \<noteq> [] \<and> dict_get (last events) ''type'' = PStr ''run.completed'')
       (atif_error ''atif_success_terminal_missing'')
    (rbind (rfold scan_event empty_scan events) (\<lambda>st.
     rbind (check_scan st) (\<lambda>_.
     rbind (tool_steps (completed st) model_name [user_step instruction] (registered st)) (\<lambda>called.
       let steps = called @ [final_step (int (length called) + 1) model_name (final_text st)]
       in rbind (dict_item run_record ''run_id'') (\<lambda>session.
          rbind (run_identity run_record [''trial_id'', ''attempt_id'', ''run_spec_sha256'', ''events_sha256'']) (\<lambda>extra.
            let trajectory =
              [(''schema_version'', PStr atif_version), (''session_id'', session),
               (''agent'', agent_identity agent_name agent_version model_name),
               (''steps'', PList steps), (''final_metrics'', final_metrics run_record steps),
               (''extra'', PDict extra)]
            in rbind (validate_minimal_trajectory trajectory) (\<lambda>_. Inr trajectory)))))))))"

section \<open>The prefix of an unsuccessful run\<close>

text \<open>\<open>json.loads\<close> with the hook that refuses duplicate keys.\<close>

definition argument_hooks :: json_hooks where
  "argument_hooks =
     \<lparr>object_hook = unique_object (atif_error ''partial_tool_arguments_duplicate_field''),
      constant_hook = \<lambda>c. Inr (PNonFinite c)\<rparr>"

definition arguments_object :: "pyval \<Rightarrow> pydict result" where
  "arguments_object raw =
     (case raw of
        PStr s \<Rightarrow>
          (case json_loads argument_hooks s of
             Inl JSONDecodeError \<Rightarrow> Inl (atif_error ''partial_tool_arguments_invalid'')
           | Inl TypeError \<Rightarrow> Inl (atif_error ''partial_tool_arguments_invalid'')
           | Inl e \<Rightarrow> Inl e
           | Inr v \<Rightarrow> (case v of PDict d \<Rightarrow> Inr d | _ \<Rightarrow> Inl (atif_error ''partial_tool_arguments_invalid'')))
      | _ \<Rightarrow> Inl (atif_error ''partial_tool_arguments_invalid''))"

datatype turn_state = TurnInFlight | TurnCompleted pydict | TurnFailed pydict

record provider_turn =
  turn_index :: pyval
  turn_requested :: pydict
  turn_state :: turn_state

datatype call_state = CallInFlight | CallCompleted pydict | CallFailed pydict

record tool_call =
  call_id :: pyval
  function_name :: pyval
  call_arguments :: pydict
  call_known :: pyval
  call_dispatched :: bool
  call_state :: call_state

record prefix_scan =
  provider_turns :: "provider_turn keyed"
  tool_calls :: "tool_call keyed"
  assistant_final :: pyval

definition items :: "pyval \<Rightarrow> pystr list \<Rightarrow> pydict result" where
  "items data keys = rmap (\<lambda>k. rbind (py_item data k) (\<lambda>v. Inr (k, v))) keys"

definition settle_turn :: "prefix_scan \<Rightarrow> pyval \<Rightarrow> pystr \<Rightarrow> (pyval \<Rightarrow> turn_state result) \<Rightarrow> prefix_scan result" where
  "settle_turn st data code settled =
     rbind (py_item data ''turn_index'') (\<lambda>turn.
       with_key turn
         (case key_get (provider_turns st) turn of
            None \<Rightarrow> Inl (atif_error code)
          | Some t \<Rightarrow>
              ensure (turn_state t = TurnInFlight) (atif_error code)
                (rbind (settled data) (\<lambda>new.
                   Inr (st\<lparr>provider_turns := key_set (provider_turns st) turn (t\<lparr>turn_state := new\<rparr>)\<rparr>)))))"

text \<open>\<open>call["function_name"] != data["provider_name"]\<close> is evaluated only when the call exists.\<close>

definition update_call ::
  "prefix_scan \<Rightarrow> pyval \<Rightarrow> pystr \<Rightarrow> (tool_call \<Rightarrow> bool) \<Rightarrow> (pyval \<Rightarrow> tool_call \<Rightarrow> tool_call result) \<Rightarrow> prefix_scan result" where
  "update_call st data code allowed change =
     rbind (py_item data ''call_id'') (\<lambda>id.
       with_key id
         (case key_get (tool_calls st) id of
            None \<Rightarrow> Inl (atif_error code)
          | Some c \<Rightarrow>
              rbind (py_item data ''provider_name'') (\<lambda>name.
                ensure (py_eq (function_name c) name \<and> allowed c \<and> call_state c = CallInFlight) (atif_error code)
                  (rbind (change data c) (\<lambda>c'.
                     Inr (st\<lparr>tool_calls := key_set (tool_calls st) id c'\<rparr>))))))"

definition request_turn :: "prefix_scan \<Rightarrow> pyval \<Rightarrow> prefix_scan result" where
  "request_turn st data =
     rbind (py_item data ''turn_index'') (\<lambda>turn.
       with_key turn
         (ensure (key_get (provider_turns st) turn = None) (atif_error ''partial_duplicate_provider_request'')
           (rbind (items data [''history_item_count'', ''tool_count'', ''function_output_call_ids'']) (\<lambda>requested.
              Inr (st\<lparr>provider_turns := key_set (provider_turns st) turn
                 \<lparr>turn_index = turn, turn_requested = requested, turn_state = TurnInFlight\<rparr>\<rparr>)))))"

definition register_call :: "prefix_scan \<Rightarrow> pyval \<Rightarrow> prefix_scan result" where
  "register_call st data =
     rbind (py_item data ''call_id'') (\<lambda>id.
       with_key id
         (ensure (key_get (tool_calls st) id = None) (atif_error ''partial_duplicate_tool_registration'')
           (rbind (py_item data ''provider_name'') (\<lambda>name.
            rbind (py_item data ''arguments_json'') (\<lambda>raw.
            rbind (arguments_object raw) (\<lambda>arguments.
            rbind (py_item data ''known'') (\<lambda>known.
              Inr (st\<lparr>tool_calls := key_set (tool_calls st) id
                 \<lparr>call_id = id, function_name = name, call_arguments = arguments, call_known = known,
                  call_dispatched = False, call_state = CallInFlight\<rparr>\<rparr>))))))))"

definition turn_completion :: "pyval \<Rightarrow> turn_state result" where
  "turn_completion data =
     rbind (items data [''response_id'', ''model'', ''call_ids'', ''has_final_text'']) (\<lambda>completion.
     rbind (py_item data ''usage'') (\<lambda>usage.
       Inr (TurnCompleted (completion @ [(''usage_present'', PBool (usage \<noteq> PNone))]))))"

definition turn_failure :: "pyval \<Rightarrow> turn_state result" where
  "turn_failure data = rbind (items data [''code'']) (\<lambda>failure. Inr (TurnFailed failure))"

definition call_completion :: "pyval \<Rightarrow> tool_call \<Rightarrow> tool_call result" where
  "call_completion data c =
     rbind (items data [''execution_attempted'', ''outcome'', ''output'']) (\<lambda>observation.
       Inr (c\<lparr>call_state := CallCompleted observation\<rparr>))"

definition call_failure :: "pyval \<Rightarrow> tool_call \<Rightarrow> tool_call result" where
  "call_failure data c =
     rbind (items data [''code'', ''execution_may_have_started'', ''cleanup_verified'', ''census_verified'',
                        ''recoverability'']) (\<lambda>failure.
       Inr (c\<lparr>call_state := CallFailed failure\<rparr>))"

definition prefix_event :: "prefix_scan \<Rightarrow> pydict \<Rightarrow> prefix_scan result" where
  "prefix_event st event =
     rbind (dict_item event ''type'') (\<lambda>event_type.
     rbind (dict_item event ''data'') (\<lambda>data.
       if event_type = PStr ''provider.requested'' then request_turn st data
       else if event_type = PStr ''provider.completed'' then
         settle_turn st data ''partial_orphan_provider_completion'' turn_completion
       else if event_type = PStr ''provider.failed'' then
         settle_turn st data ''partial_orphan_provider_failure'' turn_failure
       else if event_type = PStr ''tool.registered'' then register_call st data
       else if event_type = PStr ''tool.dispatched'' then
         update_call st data ''partial_orphan_tool_dispatch'' (\<lambda>c. \<not> call_dispatched c)
           (\<lambda>_ c. Inr (c\<lparr>call_dispatched := True\<rparr>))
       else if event_type = PStr ''tool.completed'' then
         update_call st data ''partial_orphan_tool_completion'' (\<lambda>_. True) call_completion
       else if event_type = PStr ''tool.failed'' then
         update_call st data ''partial_orphan_tool_failure'' (\<lambda>_. True) call_failure
       else if event_type = PStr ''assistant.final'' then
         ensure (assistant_final st = PNone) (atif_error ''partial_duplicate_final'')
           (rbind (py_item data ''text'') (\<lambda>t. Inr (st\<lparr>assistant_final := t\<rparr>)))
       else Inr st))"

definition empty_prefix :: prefix_scan where
  "empty_prefix = \<lparr>provider_turns = [], tool_calls = [], assistant_final = PNone\<rparr>"

definition prefix_projection :: "pydict list \<Rightarrow> prefix_scan result" where
  "prefix_projection events = rfold prefix_event empty_prefix events"

section \<open>Trajectories of unsuccessful runs\<close>

text \<open>The dictionaries that \<open>_prefix_projection\<close> builds, in insertion order.\<close>

definition turn_dict :: "provider_turn \<Rightarrow> pyval" where
  "turn_dict t = PDict
     ([(''turn_index'', turn_index t),
       (''state'', PStr (case turn_state t of TurnInFlight \<Rightarrow> ''in_flight'' | TurnCompleted _ \<Rightarrow> ''completed''
                         | TurnFailed _ \<Rightarrow> ''failed'')),
       (''requested'', PDict (turn_requested t))]
      @ (case turn_state t of TurnInFlight \<Rightarrow> [] | TurnCompleted d \<Rightarrow> [(''completion'', PDict d)]
         | TurnFailed d \<Rightarrow> [(''failure'', PDict d)]))"

definition state_name :: "call_state \<Rightarrow> pystr" where
  "state_name s = (case s of CallInFlight \<Rightarrow> ''in_flight'' | CallCompleted _ \<Rightarrow> ''completed'' | CallFailed _ \<Rightarrow> ''failed'')"

definition call_dict :: "tool_call \<Rightarrow> pyval" where
  "call_dict c = PDict
     ([(''call_id'', call_id c), (''function_name'', function_name c), (''arguments'', PDict (call_arguments c)),
       (''known'', call_known c), (''state'', PStr (state_name (call_state c))),
       (''dispatched'', PBool (call_dispatched c))]
      @ (case call_state c of CallInFlight \<Rightarrow> [] | CallCompleted d \<Rightarrow> [(''observation'', PDict d)]
         | CallFailed d \<Rightarrow> [(''failure'', PDict d)]))"

text \<open>One agent step per registered call; only a completed call has an observation.\<close>

definition observation_part :: "tool_call \<Rightarrow> pydict result" where
  "observation_part c =
     (case call_state c of
        CallCompleted observation \<Rightarrow>
          rbind (dict_item observation ''output'') (\<lambda>output.
          rbind (dict_item observation ''execution_attempted'') (\<lambda>attempted.
          rbind (dict_item observation ''outcome'') (\<lambda>outcome.
            Inr [(''observation'', PDict [(''results'', PList [PDict
              [(''source_call_id'', call_id c), (''content'', output),
               (''extra'', PDict [(''execution_attempted'', attempted), (''outcome'', outcome)])]])])])))
      | _ \<Rightarrow> Inr [])"

definition call_extra :: "tool_call \<Rightarrow> pydict" where
  "call_extra c =
     [(''known'', call_known c), (''state'', PStr (state_name (call_state c))),
      (''dispatched'', PBool (call_dispatched c))]
     @ (case call_state c of CallFailed d \<Rightarrow> [(''failure'', PDict d)] | _ \<Rightarrow> [])"

definition call_step :: "int \<Rightarrow> pystr \<Rightarrow> tool_call \<Rightarrow> pyval result" where
  "call_step step_id model c =
     rbind (observation_part c) (\<lambda>observation.
       Inr (PDict
         ([(''step_id'', PInt step_id), (''source'', PStr ''agent''), (''model_name'', PStr model),
           (''message'', PStr []),
           (''tool_calls'', PList [PDict [(''tool_call_id'', call_id c), (''function_name'', function_name c),
              (''arguments'', PDict (call_arguments c)), (''extra'', PDict (call_extra c))]])]
          @ observation)))"

definition prefix_atif_steps :: "pystr \<Rightarrow> tool_call list \<Rightarrow> pyval \<Rightarrow> pystr \<Rightarrow> pyval list result" where
  "prefix_atif_steps instruction calls final model =
     rbind (rfold (\<lambda>steps c. rbind (call_step (int (length steps) + 1) model c) (\<lambda>step. Inr (steps @ [step])))
              [user_step instruction] calls) (\<lambda>steps.
       Inr (if final = PNone then steps
            else steps @ [PDict [(''step_id'', PInt (int (length steps) + 1)), (''source'', PStr ''agent''),
                                 (''model_name'', PStr model), (''message'', final)]]))"

record agent_names =
  agent_name :: pystr
  agent_version :: pystr
  model_name :: pystr

definition names_dict :: "agent_names \<Rightarrow> pyval" where
  "names_dict a = agent_identity (agent_name a) (agent_version a) (model_name a)"

definition prefix_atif_trajectory ::
  "pystr \<Rightarrow> pydict list \<Rightarrow> pydict \<Rightarrow> pydict \<Rightarrow> pydict \<Rightarrow> agent_names \<Rightarrow> pystr \<Rightarrow> pydict option \<Rightarrow> pydict result" where
  "prefix_atif_trajectory instruction events identity terminal_failure usage_source agent source_kind event_prefix =
     ensure (instruction \<noteq> []) (atif_error ''atif_instruction_missing'')
    (rbind (prefix_projection events) (\<lambda>st.
     rbind (prefix_atif_steps instruction (map snd (tool_calls st)) (assistant_final st) (model_name agent)) (\<lambda>steps.
     rbind (run_identity identity [''trial_id'', ''attempt_id'', ''run_spec_sha256'']) (\<lambda>ids.
     let extra = ids
           @ [(''source_kind'', PStr source_kind), (''terminal_failure'', PDict terminal_failure),
              (''provider_turns'', PList (map (\<lambda>e. turn_dict (snd e)) (provider_turns st)))]
           @ (case dict_get identity ''events_sha256'' of PStr h \<Rightarrow> [(''events_sha256'', PStr h)] | _ \<Rightarrow> [])
           @ (case event_prefix of None \<Rightarrow> [] | Some d \<Rightarrow> [(''event_prefix'', PDict d)])
     in rbind (dict_item identity ''run_id'') (\<lambda>session.
          let trajectory =
            [(''schema_version'', PStr atif_version), (''session_id'', session),
             (''agent'', names_dict agent), (''steps'', PList steps),
             (''final_metrics'', final_metrics usage_source steps), (''extra'', PDict extra)]
          in rbind (validate_minimal_trajectory trajectory) (\<lambda>_. Inr trajectory))))))"

definition failure_of_record :: "pydict \<Rightarrow> pydict \<Rightarrow> pydict result" where
  "failure_of_record run_record terminal =
     rbind (dict_item run_record ''terminal_status'') (\<lambda>status.
     rbind (dict_item run_record ''terminal_phase'') (\<lambda>phase.
     rbind (dict_item run_record ''terminal_code'') (\<lambda>code.
     rbind (dict_item terminal ''seq'') (\<lambda>seq.
     rbind (dict_item terminal ''elapsed_ms'') (\<lambda>elapsed.
       Inr [(''status'', status), (''phase'', phase), (''code'', code), (''event_seq'', seq),
            (''elapsed_ms'', elapsed)])))))"

definition project_failure_trajectory ::
  "pystr \<Rightarrow> pydict list \<Rightarrow> pydict \<Rightarrow> agent_names \<Rightarrow> pydict result" where
  "project_failure_trajectory instruction events run_record agent =
     ensure (dict_get run_record ''terminal_status'' \<noteq> PStr ''success'') (atif_error ''atif_failure_run_is_successful'')
    (ensure (events \<noteq> [] \<and> dict_get (last events) ''type'' = PStr ''run.failed'')
       (atif_error ''atif_failure_terminal_missing'')
    (rbind (failure_of_record run_record (last events)) (\<lambda>failure.
       prefix_atif_trajectory instruction events run_record failure run_record agent ''committed_failure'' None)))"

text \<open>\<open>last[key] if last is not None else None\<close>.\<close>

definition last_item :: "pydict list \<Rightarrow> pystr \<Rightarrow> pyval result" where
  "last_item events k = (if events = [] then Inr PNone else dict_item (last events) k)"

record emergency =
  em_status :: pystr
  em_phase :: pystr
  em_code :: pystr
  em_usage_coverage :: pydict
  em_usage_totals :: pydict
  em_source_sha256 :: pystr
  em_source_byte_length :: int
  em_validated_sha256 :: pystr
  em_validated_byte_length :: int
  em_stop_reason :: pystr

definition emergency_failure :: "emergency \<Rightarrow> pydict list \<Rightarrow> pydict result" where
  "emergency_failure em events =
     rbind (last_item events ''seq'') (\<lambda>seq.
     rbind (last_item events ''elapsed_ms'') (\<lambda>elapsed.
       Inr [(''status'', PStr (em_status em)), (''phase'', PStr (em_phase em)), (''code'', PStr (em_code em)),
            (''event_seq'', seq), (''elapsed_ms'', elapsed), (''evidence'', PStr ''adapter_emergency'')]))"

definition emergency_prefix :: "emergency \<Rightarrow> pydict list \<Rightarrow> pydict result" where
  "emergency_prefix em events =
     rbind (last_item events ''seq'') (\<lambda>seq.
       Inr [(''source_sha256'', PStr (em_source_sha256 em)), (''source_byte_length'', PInt (em_source_byte_length em)),
            (''validated_sha256'', PStr (em_validated_sha256 em)),
            (''validated_byte_length'', PInt (em_validated_byte_length em)),
            (''last_valid_seq'', seq), (''stop_reason'', PStr (em_stop_reason em))])"

definition project_emergency_trajectory ::
  "pystr \<Rightarrow> pydict list \<Rightarrow> pydict \<Rightarrow> emergency \<Rightarrow> agent_names \<Rightarrow> pydict result" where
  "project_emergency_trajectory instruction events identity em agent =
     rbind (emergency_failure em events) (\<lambda>failure.
     rbind (emergency_prefix em events) (\<lambda>event_prefix.
       prefix_atif_trajectory instruction events identity failure
         [(''usage_totals'', PDict (em_usage_totals em))] agent ''emergency_prefix''
         (Some (event_prefix @ [(''usage_coverage'', PDict (em_usage_coverage em))]))))"

section \<open>Partial documents\<close>

definition project_partial_trajectory ::
  "pystr \<Rightarrow> pydict list \<Rightarrow> pydict \<Rightarrow> agent_names \<Rightarrow> pydict result" where
  "project_partial_trajectory instruction events run_record agent =
     ensure (instruction \<noteq> []) (atif_error ''partial_instruction_missing'')
    (ensure (dict_get run_record ''terminal_status'' \<noteq> PStr ''success'') (atif_error ''partial_run_not_failed'')
    (ensure (events \<noteq> []) IndexError
    (rbind (dict_item (last events) ''type'') (\<lambda>last_type.
     ensure (last_type = PStr ''run.failed'') (atif_error ''partial_terminal_event_missing'')
    (rbind (prefix_projection events) (\<lambda>st.
     rbind (dict_item run_record ''run_id'') (\<lambda>session.
     rbind (failure_of_record run_record (last events)) (\<lambda>failure.
     rbind (run_identity run_record [''provider_call_coverage'', ''usage_totals'']) (\<lambda>usage.
     rbind (run_identity run_record [''trial_id'', ''attempt_id'', ''run_spec_sha256'', ''events_sha256'']) (\<lambda>extra.
       Inr [(''schema_version'', PStr partial_trajectory_version), (''session_id'', session),
            (''agent'', names_dict agent), (''instruction'', PStr instruction),
            (''provider_turns'', PList (map (\<lambda>e. turn_dict (snd e)) (provider_turns st))),
            (''tool_calls'', PList (map (\<lambda>e. call_dict (snd e)) (tool_calls st))),
            (''assistant_final'', assistant_final st), (''terminal_failure'', PDict failure),
            (''usage'', PDict usage), (''extra'', PDict extra)]))))))))))"

definition project_emergency_prefix ::
  "pystr \<Rightarrow> pydict list \<Rightarrow> pydict \<Rightarrow> emergency \<Rightarrow> agent_names \<Rightarrow> pydict result" where
  "project_emergency_prefix instruction events identity em agent =
     ensure (instruction \<noteq> []) (atif_error ''emergency_instruction_missing'')
    (rbind (prefix_projection events) (\<lambda>st.
     rbind (dict_item identity ''run_id'') (\<lambda>session.
     rbind (emergency_failure em events) (\<lambda>failure.
     rbind (emergency_prefix em events) (\<lambda>event_prefix.
     rbind (run_identity identity [''trial_id'', ''attempt_id'', ''run_spec_sha256'']) (\<lambda>extra.
       Inr [(''schema_version'', PStr ''nano-emergency-prefix-v1''), (''session_id'', session),
            (''agent'', names_dict agent), (''instruction'', PStr instruction),
            (''provider_turns'', PList (map (\<lambda>e. turn_dict (snd e)) (provider_turns st))),
            (''tool_calls'', PList (map (\<lambda>e. call_dict (snd e)) (tool_calls st))),
            (''assistant_final'', assistant_final st), (''terminal_failure'', PDict failure),
            (''event_prefix'', PDict event_prefix),
            (''usage'', PDict [(''provider_call_coverage'', PDict (em_usage_coverage em)),
                               (''usage_totals'', PDict (em_usage_totals em))]),
            (''extra'', PDict extra)]))))))"

end
