(* ===== verification/Atif_Correct.thy ===== *)
theory Atif_Correct
  imports Atif Json_Correct
begin

text \<open>
  Correctness of the trajectory projection (\<open>Atif\<close>): a successful projection is complete, a failed
  run's projection always passes the validator and contains exactly the observations of its log,
  and the token counts read back from a trajectory are those of the run.
\<close>

section \<open>Numbered steps\<close>

text \<open>The loop that appends one step per element, numbered by the steps so far.\<close>

lemma numbered_steps:
  "rfold (\<lambda>steps c. rbind (f (int (length steps) + 1) c) (\<lambda>step. Inr (steps @ [step]))) acc cs = Inr out
     \<longleftrightarrow> (\<exists>new. out = acc @ new \<and> length new = length cs
           \<and> (\<forall>i < length cs. f (int (length acc + i) + 1) (cs ! i) = Inr (new ! i)))"
proof (induction cs arbitrary: acc)
  case Nil
  then show ?case by auto
next
  case (Cons c cs)
  show ?case
  proof (cases "f (int (length acc) + 1) c")
    case (Inl e)
    then show ?thesis by (auto simp: less_Suc_eq_0_disj)
  next
    case (Inr x)
    have "(\<exists>new. out = (acc @ [x]) @ new \<and> length new = length cs
             \<and> (\<forall>i < length cs. f (int (length (acc @ [x]) + i) + 1) (cs ! i) = Inr (new ! i)))
      \<longleftrightarrow> (\<exists>new. out = acc @ new \<and> length new = length (c # cs)
             \<and> (\<forall>i < length (c # cs). f (int (length acc + i) + 1) ((c # cs) ! i) = Inr (new ! i)))"
      (is "?l \<longleftrightarrow> ?r")
    proof
      assume ?l
      then obtain new where "out = (acc @ [x]) @ new" "length new = length cs"
        "\<forall>i < length cs. f (int (length (acc @ [x]) + i) + 1) (cs ! i) = Inr (new ! i)" by blast
      then show ?r using Inr by (intro exI [of _ "x # new"]) (auto simp: less_Suc_eq_0_disj)
    next
      assume ?r
      then obtain new where new: "out = acc @ new" "length new = length (c # cs)"
        "\<forall>i < length (c # cs). f (int (length acc + i) + 1) ((c # cs) ! i) = Inr (new ! i)" by blast
      then obtain y ys where y: "new = y # ys" by (cases new) auto
      have "y = x" using new(3) Inr y by auto
      moreover have "f (int (length (acc @ [x]) + i) + 1) (cs ! i) = Inr (ys ! i)" if "i < length cs" for i
        using new(3) that y by (force dest: spec [of _ "Suc i"])
      ultimately show ?l using new(1,2) y by (intro exI [of _ ys]) simp
    qed
    then show ?thesis using Inr Cons.IH [of "acc @ [x]"] by simp
  qed
qed

lemma validate_steps_Inr:
  "validate_steps failed k vs = Inr () \<longleftrightarrow> (\<forall>i < length vs. validate_step failed (k + i) (vs ! i) = Inr ())"
proof (induction vs arbitrary: k)
  case Nil
  then show ?case by simp
next
  case (Cons v vs)
  show ?case by (auto simp: rbind_Inr_iff Cons.IH less_Suc_eq_0_disj)
qed

section \<open>Collected items\<close>

lemma items_Inr: "items data keys = Inr d \<Longrightarrow> map fst d = keys \<and> (\<forall>k \<in> set keys. py_item data k = dict_item d k)"
proof (induction keys arbitrary: d)
  case Nil
  then show ?case by (simp add: items_def)
next
  case (Cons k keys)
  then obtain v d' where v: "py_item data k = Inr v" "items data keys = Inr d'" "d = (k, v) # d'"
    by (auto simp: items_def rbind_Inr_iff)
  then show ?case using Cons.IH [OF v(2)] by (auto simp: dict_item_def)
qed

lemma run_identity_Inr: "run_identity r keys = Inr d \<Longrightarrow> map fst d = keys"
  by (induction keys arbitrary: d) (auto simp: run_identity_def rbind_Inr_iff)

lemma run_identity_defined: "(\<And>k. k \<in> set keys \<Longrightarrow> map_of r k \<noteq> None) \<Longrightarrow> \<exists>d. run_identity r keys = Inr d"
proof -
  assume "\<And>k. k \<in> set keys \<Longrightarrow> map_of r k \<noteq> None"
  then have "run_identity r keys = Inr (map (\<lambda>k. (k, the (map_of r k))) keys)"
    unfolding run_identity_def by (intro rmap_all_Inr) (auto simp: dict_item_def split: option.splits)
  then show ?thesis by blast
qed

section \<open>Calls of a prefix\<close>

text \<open>Call ids are strings, as the runtime's grammar has them.\<close>

definition text_id :: "pydict \<Rightarrow> bool" where
  "text_id e =
     (case map_of e ''data'' of
        Some (PDict d) \<Rightarrow> (case map_of d ''call_id'' of None \<Rightarrow> True | Some (PStr s) \<Rightarrow> True | Some _ \<Rightarrow> False)
      | _ \<Rightarrow> True)"

lemma text_idD: "text_id e \<Longrightarrow> dict_item e ''data'' = Inr data \<Longrightarrow> py_item data ''call_id'' = Inr v \<Longrightarrow> \<exists>s. v = PStr s"
  by (auto simp: text_id_def dict_item_def py_item_def split: option.splits pyval.splits)

lemma key_get_Some: "key_get m (PStr s) = Some x \<Longrightarrow> (PStr s, x) \<in> set m"
  by (induction m) (auto split: if_splits)

lemma key_get_None: "key_get m (PStr s) = None \<longleftrightarrow> PStr s \<notin> fst ` set m"
  by (induction m) auto

lemma key_get_mem: "distinct (map fst m) \<Longrightarrow> (PStr s, x) \<in> set m \<Longrightarrow> key_get m (PStr s) = Some x"
  by (induction m) force+

lemma key_set_new: "key_get m (PStr s) = None \<Longrightarrow> key_set m (PStr s) x = m @ [(PStr s, x)]"
  by (induction m) (auto split: if_splits)

lemma key_set_keys: "key_get m (PStr s) \<noteq> None \<Longrightarrow> map fst (key_set m (PStr s) x) = map fst m"
  by (induction m) (auto split: if_splits)

lemma key_set_get: "key_get (key_set m (PStr s) x) (PStr t) = (if s = t then Some x else key_get m (PStr t))"
  by (induction m) auto

text \<open>
  What the log says of a call: the data of its completion and of its failure.
\<close>

definition settles :: "pydict \<Rightarrow> pystr \<Rightarrow> pystr list \<Rightarrow> pystr \<Rightarrow> pydict \<Rightarrow> bool" where
  "settles e kind keys cid d \<longleftrightarrow>
     dict_item e ''type'' = Inr (PStr kind) \<and>
     (\<exists>data. dict_item e ''data'' = Inr data \<and> py_item data ''call_id'' = Inr (PStr cid) \<and> items data keys = Inr d)"

abbreviation completes :: "pydict \<Rightarrow> pystr \<Rightarrow> pydict \<Rightarrow> bool" where
  "completes e \<equiv> settles e ''tool.completed'' [''execution_attempted'', ''outcome'', ''output'']"

abbreviation fails :: "pydict \<Rightarrow> pystr \<Rightarrow> pydict \<Rightarrow> bool" where
  "fails e \<equiv> settles e ''tool.failed''
     [''code'', ''execution_may_have_started'', ''cleanup_verified'', ''census_verified'', ''recoverability'']"

text \<open>The state of a call, and of all calls, after the events \<open>es\<close>.\<close>

definition call_reflects :: "pydict list \<Rightarrow> pystr \<Rightarrow> tool_call \<Rightarrow> bool" where
  "call_reflects es cid c \<longleftrightarrow>
     call_id c = PStr cid
     \<and> (\<forall>d. call_state c = CallCompleted d \<longleftrightarrow> (\<exists>e \<in> set es. completes e cid d))
     \<and> (\<forall>d. call_state c = CallFailed d \<longleftrightarrow> (\<exists>e \<in> set es. fails e cid d))"

definition calls_reflect :: "pydict list \<Rightarrow> tool_call keyed \<Rightarrow> bool" where
  "calls_reflect es calls \<longleftrightarrow>
     distinct (map fst calls)
     \<and> (\<forall>e \<in> set calls. \<exists>cid. fst e = PStr cid \<and> call_reflects es cid (snd e))
     \<and> (\<forall>e \<in> set es. \<forall>cid d. completes e cid d \<or> fails e cid d \<longrightarrow> PStr cid \<in> fst ` set calls)"

lemma set_key_set:
  "distinct (map fst m) \<Longrightarrow> key_get m (PStr s) = Some y
    \<Longrightarrow> e \<in> set (key_set m (PStr s) x) \<longleftrightarrow> e = (PStr s, x) \<or> (e \<in> set m \<and> fst e \<noteq> PStr s)"
  by (induction m) (force split: if_splits)+

lemma calls_reflect_update:
  assumes inv: "calls_reflect es calls" and c: "key_get calls (PStr cid) = Some c" "call_state c = CallInFlight"
    and c': "call_id c' = call_id c"
    and e: "\<And>i d. completes e i d \<longleftrightarrow> i = cid \<and> call_state c' = CallCompleted d"
      "\<And>i d. fails e i d \<longleftrightarrow> i = cid \<and> call_state c' = CallFailed d"
  shows "calls_reflect (es @ [e]) (key_set calls (PStr cid) c')"
proof -
  have dist: "distinct (map fst calls)" using inv by (simp add: calls_reflect_def)
  have mem: "(PStr cid, c) \<in> set calls" using c(1) by (rule key_get_Some)
  then have "call_reflects es cid c" using inv by (auto simp: calls_reflect_def)
  then have none: "\<not> completes x cid d" "\<not> fails x cid d" if "x \<in> set es" for x d
    using that c(2) unfolding call_reflects_def by auto
  have here: "call_reflects (es @ [e]) cid c'"
    using \<open>call_reflects es cid c\<close> none e c' by (auto simp: call_reflects_def)
  have there: "call_reflects (es @ [e]) i x" if "call_reflects es i x" "i \<noteq> cid" for i x
    using that e by (auto simp: call_reflects_def)
  have keys: "map fst (key_set calls (PStr cid) c') = map fst calls"
    using c(1) by (intro key_set_keys) simp
  then have set_keys: "fst ` set (key_set calls (PStr cid) c') = fst ` set calls"
    by (metis set_map)
  have all: "\<forall>x \<in> set (key_set calls (PStr cid) c'). \<exists>i. fst x = PStr i \<and> call_reflects (es @ [e]) i (snd x)"
  proof
    fix x
    assume "x \<in> set (key_set calls (PStr cid) c')"
    then consider "x = (PStr cid, c')" | "x \<in> set calls" "fst x \<noteq> PStr cid"
      using set_key_set [OF dist c(1)] by blast
    then show "\<exists>i. fst x = PStr i \<and> call_reflects (es @ [e]) i (snd x)"
    proof cases
      case 1
      then show ?thesis using here by simp
    next
      case 2
      then obtain i where "fst x = PStr i" "call_reflects es i (snd x)"
        using inv by (auto simp: calls_reflect_def)
      then show ?thesis using there 2 by auto
    qed
  qed
  have "PStr i \<in> fst ` set calls" if "x \<in> set (es @ [e])" "completes x i d \<or> fails x i d" for x i d
  proof (cases "x = e")
    case True
    then have "i = cid" using that e by auto
    then show ?thesis using mem by force
  next
    case False
    then show ?thesis using that inv by (auto simp: calls_reflect_def)
  qed
  then show ?thesis using dist keys set_keys all by (simp add: calls_reflect_def)
qed

lemma calls_reflect_other:
  assumes "calls_reflect es calls" and "\<And>i d. \<not> completes e i d" and "\<And>i d. \<not> fails e i d"
  shows "calls_reflect (es @ [e]) calls"
  using assms unfolding calls_reflect_def call_reflects_def by simp

lemma calls_reflect_register:
  assumes inv: "calls_reflect es calls" and new: "key_get calls (PStr cid) = None"
    and c: "call_id c = PStr cid" "call_state c = CallInFlight"
    and e: "\<And>i d. \<not> completes e i d" "\<And>i d. \<not> fails e i d"
  shows "calls_reflect (es @ [e]) (key_set calls (PStr cid) c)"
proof -
  have k: "PStr cid \<notin> fst ` set calls" using new by (simp add: key_get_None)
  then have none: "\<not> completes x cid d" "\<not> fails x cid d" if "x \<in> set es" for x d
    using that inv unfolding calls_reflect_def by blast+
  have "call_reflects (es @ [e]) cid c" using c none e by (auto simp: call_reflects_def)
  then show ?thesis
    using calls_reflect_other [OF inv e] k
    by (simp add: key_set_new [OF new] calls_reflect_def)
qed

lemma settles_kind: "settles e kind keys cid d \<Longrightarrow> dict_item e ''type'' = Inr (PStr kind)"
  by (simp add: settles_def)

lemma update_call_Inr:
  assumes "update_call st data code allowed change = Inr st'"
  obtains k c name c' where "py_item data ''call_id'' = Inr k" "hashable k" "key_get (tool_calls st) k = Some c"
    "call_state c = CallInFlight" "change data c = Inr c'" "st' = st\<lparr>tool_calls := key_set (tool_calls st) k c'\<rparr>"
  using assms by (auto simp: update_call_def rbind_Inr_iff with_key_def split: option.splits)

lemma register_call_Inr:
  assumes "register_call st data = Inr st'"
  obtains k c where "py_item data ''call_id'' = Inr k" "hashable k" "key_get (tool_calls st) k = None"
    "call_id c = k" "call_state c = CallInFlight" "st' = st\<lparr>tool_calls := key_set (tool_calls st) k c\<rparr>"
proof -
  obtain k where k: "py_item data ''call_id'' = Inr k" "hashable k" "key_get (tool_calls st) k = None"
    and "\<exists>n a w. st' = st\<lparr>tool_calls := key_set (tool_calls st) k \<lparr>call_id = k, function_name = n,
        call_arguments = a, call_known = w, call_dispatched = False, call_state = CallInFlight\<rparr>\<rparr>"
    using assms by (auto simp: register_call_def rbind_Inr_iff with_key_def)
  then obtain n a w where "st' = st\<lparr>tool_calls := key_set (tool_calls st) k \<lparr>call_id = k, function_name = n,
        call_arguments = a, call_known = w, call_dispatched = False, call_state = CallInFlight\<rparr>\<rparr>" by blast
  with k show thesis by (intro that) simp_all
qed

lemma prefix_event_reflects:
  assumes inv: "calls_reflect es (tool_calls st)" and run: "prefix_event st e = Inr st'" and tid: "text_id e"
  shows "calls_reflect (es @ [e]) (tool_calls st')"
proof -
  obtain ty data where ty: "dict_item e ''type'' = Inr ty" and data: "dict_item e ''data'' = Inr data"
    using run by (auto simp: prefix_event_def rbind_Inr_iff)
  have settle: "settles e kind keys i d \<longleftrightarrow>
      ty = PStr kind \<and> py_item data ''call_id'' = Inr (PStr i) \<and> items data keys = Inr d" for kind keys i d
    by (simp add: settles_def ty data)
  have ids: "\<exists>cid. k = PStr cid" if "py_item data ''call_id'' = Inr k" for k
    using text_idD [OF tid data that] .
  consider "ty = PStr ''tool.registered''" | "ty = PStr ''tool.dispatched''" | "ty = PStr ''tool.completed''"
    | "ty = PStr ''tool.failed''" | "ty \<notin> PStr ` {''tool.registered'', ''tool.dispatched'', ''tool.completed'', ''tool.failed''}"
    by auto
  then show ?thesis
  proof cases
    case 1
    then have "register_call st data = Inr st'" using run by (simp add: prefix_event_def ty data)
    then obtain k c where k: "py_item data ''call_id'' = Inr k" "key_get (tool_calls st) k = None"
      "call_id c = k" "call_state c = CallInFlight" and st': "st' = st\<lparr>tool_calls := key_set (tool_calls st) k c\<rparr>"
      by (rule register_call_Inr)
    obtain cid where cid: "k = PStr cid" using ids k(1) by blast
    have "calls_reflect (es @ [e]) (key_set (tool_calls st) (PStr cid) c)"
      using k 1 by (intro calls_reflect_register [OF inv]) (auto simp: cid settle)
    then show ?thesis by (simp add: st' cid)
  next
    case 2
    then have "update_call st data ''partial_orphan_tool_dispatch'' (\<lambda>c. \<not> call_dispatched c)
           (\<lambda>_ c. Inr (c\<lparr>call_dispatched := True\<rparr>)) = Inr st'"
      using run by (simp add: prefix_event_def ty data)
    then obtain k c where k: "py_item data ''call_id'' = Inr k" "key_get (tool_calls st) k = Some c"
      "call_state c = CallInFlight"
      and st': "st' = st\<lparr>tool_calls := key_set (tool_calls st) k (c\<lparr>call_dispatched := True\<rparr>)\<rparr>"
      by (auto elim!: update_call_Inr)
    obtain cid where cid: "k = PStr cid" using ids k(1) by blast
    have "calls_reflect (es @ [e]) (key_set (tool_calls st) (PStr cid) (c\<lparr>call_dispatched := True\<rparr>))"
      using k 2 by (intro calls_reflect_update [OF inv]) (auto simp: cid settle)
    then show ?thesis by (simp add: st' cid)
  next
    case 3
    then have "update_call st data ''partial_orphan_tool_completion'' (\<lambda>_. True) call_completion = Inr st'"
      using run by (simp add: prefix_event_def ty data)
    then obtain k c d where k: "py_item data ''call_id'' = Inr k" "key_get (tool_calls st) k = Some c"
      "call_state c = CallInFlight" "items data [''execution_attempted'', ''outcome'', ''output''] = Inr d"
      and st': "st' = st\<lparr>tool_calls := key_set (tool_calls st) k (c\<lparr>call_state := CallCompleted d\<rparr>)\<rparr>"
      by (auto elim!: update_call_Inr simp: call_completion_def rbind_Inr_iff)
    obtain cid where cid: "k = PStr cid" using ids k(1) by blast
    have "calls_reflect (es @ [e]) (key_set (tool_calls st) (PStr cid) (c\<lparr>call_state := CallCompleted d\<rparr>))"
      using k 3 by (intro calls_reflect_update [OF inv]) (auto simp: cid settle)
    then show ?thesis by (simp add: st' cid)
  next
    case 4
    then have "update_call st data ''partial_orphan_tool_failure'' (\<lambda>_. True) call_failure = Inr st'"
      using run by (simp add: prefix_event_def ty data)
    then obtain k c d where k: "py_item data ''call_id'' = Inr k" "key_get (tool_calls st) k = Some c"
      "call_state c = CallInFlight" "items data [''code'', ''execution_may_have_started'', ''cleanup_verified'',
          ''census_verified'', ''recoverability''] = Inr d"
      and st': "st' = st\<lparr>tool_calls := key_set (tool_calls st) k (c\<lparr>call_state := CallFailed d\<rparr>)\<rparr>"
      by (auto elim!: update_call_Inr simp: call_failure_def rbind_Inr_iff)
    obtain cid where cid: "k = PStr cid" using ids k(1) by blast
    have "calls_reflect (es @ [e]) (key_set (tool_calls st) (PStr cid) (c\<lparr>call_state := CallFailed d\<rparr>))"
      using k 4 by (intro calls_reflect_update [OF inv]) (auto simp: cid settle)
    then show ?thesis by (simp add: st' cid)
  next
    case 5
    then have "tool_calls st' = tool_calls st"
      using run
      by (auto simp: prefix_event_def ty data request_turn_def settle_turn_def rbind_Inr_iff with_key_def
          split: if_splits option.splits)
    then show ?thesis using calls_reflect_other [OF inv] 5 settle by auto
  qed
qed

lemma prefix_projection_reflects:
  assumes "prefix_projection events = Inr st" and "list_all text_id events"
  shows "calls_reflect events (tool_calls st)"
proof -
  have "calls_reflect es (tool_calls st)" if "rfold prefix_event empty_prefix es = Inr st" "list_all text_id es" for es st
    using that
  proof (induction es arbitrary: st rule: rev_induct)
    case Nil
    then show ?case by (auto simp: empty_prefix_def calls_reflect_def)
  next
    case (snoc e es)
    then obtain mid where "rfold prefix_event empty_prefix es = Inr mid" "prefix_event mid e = Inr st"
      by (auto simp: rfold_append rbind_Inr_iff)
    then show ?case using snoc prefix_event_reflects by simp
  qed
  then show ?thesis using assms by (simp add: prefix_projection_def)
qed

section \<open>Steps of a prefix pass the validator\<close>

lemma dict_item_keys: "map fst d = keys \<Longrightarrow> k \<in> set keys \<Longrightarrow> \<exists>v. dict_item d k = Inr v"
  unfolding dict_item_def by (metis image_set map_of_eq_None_iff not_Some_eq option.simps(5))

lemma observation_part_defined:
  assumes "call_reflects es cid c"
  shows "\<exists>obs. observation_part c = Inr obs"
proof (cases "call_state c")
  case (CallCompleted d)
  then obtain e where "completes e cid d" using assms unfolding call_reflects_def by blast
  then have "map fst d = [''execution_attempted'', ''outcome'', ''output'']"
    using items_Inr by (auto simp: settles_def)
  then show ?thesis
    using dict_item_keys [of d _ "''output''"] dict_item_keys [of d _ "''execution_attempted''"]
      dict_item_keys [of d _ "''outcome''"] CallCompleted
    by (fastforce simp: observation_part_def)
qed (simp_all add: observation_part_def)

lemma observation_part_empty:
  "observation_part c = Inr obs \<Longrightarrow> obs = [] \<longleftrightarrow> (\<forall>d. call_state c \<noteq> CallCompleted d)"
  by (auto simp: observation_part_def rbind_Inr_iff split: call_state.splits)

lemma call_step_valid:
  assumes "call_step k model c = Inr v" and "call_id c = PStr cid" and "k = int n"
  shows "validate_step True n v = Inr ()"
proof -
  obtain obs where obs: "observation_part c = Inr obs" using assms(1) by (auto simp: call_step_def rbind_Inr_iff)
  show ?thesis
  proof (cases "call_state c")
    case (CallCompleted d)
    then show ?thesis
      using assms obs
      by (auto simp: call_step_def observation_part_def rbind_Inr_iff validate_step_def str_in_def with_key_def
          validate_calls_def observation_ok_def dict_get_def dict_get_default_def py_get_def Let_def)
  qed (use assms obs in \<open>auto simp: call_step_def observation_part_def validate_step_def str_in_def with_key_def
      validate_calls_def open_call_ok_def dict_get_def dict_get_default_def py_get_def call_extra_def
      state_name_def Let_def\<close>)
qed

definition agent_named :: "agent_names \<Rightarrow> bool" where
  "agent_named a \<longleftrightarrow> agent_name a \<noteq> [] \<and> agent_version a \<noteq> [] \<and> model_name a \<noteq> []"

lemma agent_valid_names: "agent_named a \<Longrightarrow> agent_valid (names_dict a)"
  by (simp add: agent_named_def agent_valid_def names_dict_def agent_identity_def dict_get_def)

lemma user_step_valid: "validate_step f 1 (user_step instruction) = Inr ()"
  by (simp add: user_step_def validate_step_def str_in_def with_key_def dict_get_def validate_calls_def
      dict_get_default_def)

lemma agent_step_valid:
  "validate_step f n (PDict ([(''step_id'', PInt (int n)), (''source'', PStr ''agent''),
     (''model_name'', PStr model), (''message'', PStr txt)] @ tail)) = Inr ()"
  if "map_of tail ''tool_calls'' = None"
  using that by (simp add: validate_step_def str_in_def with_key_def dict_get_def validate_calls_def
      dict_get_default_def)

definition final_is_text :: "pyval \<Rightarrow> bool" where
  "final_is_text v \<longleftrightarrow> (case v of PNone \<Rightarrow> True | PStr s \<Rightarrow> True | _ \<Rightarrow> False)"

lemma prefix_steps_valid:
  assumes refl: "\<And>c. c \<in> set calls \<Longrightarrow> \<exists>cid. call_reflects es cid c" and final: "final_is_text final"
  shows "\<exists>steps. prefix_atif_steps instruction calls final model = Inr (user_step instruction # steps)
     \<and> length steps = length calls + (if final = PNone then 0 else 1)
     \<and> validate_steps True 1 (user_step instruction # steps) = Inr ()"
proof -
  have def1: "\<exists>v. call_step k model c = Inr v" if "c \<in> set calls" for k c
    using observation_part_defined refl [OF that] by (fastforce simp: call_step_def)
  define new where "new = map (\<lambda>i. projr (call_step (int (1 + i) + 1) model (calls ! i))) [0..<length calls]"
  have len: "length new = length calls" by (simp add: new_def)
  have new: "call_step (int (1 + i) + 1) model (calls ! i) = Inr (new ! i)" if "i < length calls" for i
    using def1 [of "calls ! i" "int (1 + i) + 1"] that by (auto simp: new_def)
  have "rfold (\<lambda>steps c. rbind (call_step (int (length steps) + 1) model c) (\<lambda>step. Inr (steps @ [step])))
      [user_step instruction] calls = Inr (user_step instruction # new)"
    using numbered_steps [of "\<lambda>k. call_step k model" "[user_step instruction]" calls "user_step instruction # new"]
      len new by auto
  then have steps: "prefix_atif_steps instruction calls final model = Inr (user_step instruction # new @
      (if final = PNone then [] else [PDict [(''step_id'', PInt (int (1 + length calls) + 1)), (''source'', PStr ''agent''),
          (''model_name'', PStr model), (''message'', final)]]))"
    by (simp add: prefix_atif_steps_def len)
  have calls_ok: "validate_step True (2 + i) (new ! i) = Inr ()" if i: "i < length calls" for i
  proof -
    obtain cid where cid: "call_id (calls ! i) = PStr cid"
      using refl [OF nth_mem [OF i]] unfolding call_reflects_def by blast
    show ?thesis using call_step_valid [OF new [OF i] cid, of "2 + i"] by simp
  qed
  have each: "validate_step True (2 + i) ((new @ (if final = PNone then []
      else [PDict [(''step_id'', PInt (int (1 + length calls) + 1)), (''source'', PStr ''agent''),
          (''model_name'', PStr model), (''message'', final)]])) ! i) = Inr ()"
    if i: "i < length new + (if final = PNone then 0 else 1)" for i
  proof (cases "i < length new")
    case True
    then show ?thesis using calls_ok len by (simp add: nth_append)
  next
    case False
    then have "final \<noteq> PNone" "i = length new" using i by (auto split: if_splits)
    moreover from this obtain answer where "final = PStr answer" using final by (auto simp: final_is_text_def split: pyval.splits)
    ultimately show ?thesis
      using agent_step_valid [of "[]" True "2 + length calls" model answer] len by (simp add: nth_append)
  qed
  have tail: "validate_steps True 2 (new @ (if final = PNone then []
      else [PDict [(''step_id'', PInt (int (1 + length calls) + 1)), (''source'', PStr ''agent''),
          (''model_name'', PStr model), (''message'', final)]])) = Inr ()"
    unfolding validate_steps_Inr by (intro allI impI each) (auto split: if_splits)
  have "validate_steps True 1 (user_step instruction # vs) = Inr ()" if "validate_steps True 2 vs = Inr ()" for vs
    using that user_step_valid [of True instruction] by (simp add: numeral_2_eq_2)
  from this [OF tail] steps show ?thesis
    by (intro exI [of _ "new @ _"] conjI) (auto simp: len)
qed

section \<open>Complete logs\<close>

definition count_type :: "pystr \<Rightarrow> pydict list \<Rightarrow> nat" where
  "count_type ty es = length (filter (\<lambda>e. dict_get e ''type'' = PStr ty) es)"

definition count_state :: "pystr \<Rightarrow> pystr keyed \<Rightarrow> nat" where
  "count_state v m = length (filter (\<lambda>e. snd e = v) m)"

lemma key_set_absent: "key_get m k = None \<Longrightarrow> key_set m k x = m @ [(k, x)]"
  by (induction m) (auto split: if_splits)

lemma count_state_set:
  "key_get m k = Some y \<Longrightarrow> y \<noteq> x \<Longrightarrow> count_state v (key_set m k x) =
     (if v = x then count_state v m + 1 else if v = y then count_state v m - 1 else count_state v m)"
proof (induction m)
  case (Cons e m)
  have "0 < count_state y m" if "key_get m k = Some y"
    using that by (induction m) (auto simp: count_state_def split: if_splits)
  then show ?case using Cons by (auto simp: count_state_def split: if_splits)
qed simp

lemma count_state_pos: "key_get m k = Some y \<Longrightarrow> 0 < count_state y m"
  by (induction m) (auto simp: count_state_def split: if_splits)

lemma key_set_length: "key_get m k \<noteq> None \<Longrightarrow> length (key_set m k x) = length m"
  by (induction m) (auto split: if_splits)

definition scan_counts :: "pydict list \<Rightarrow> success_scan \<Rightarrow> bool" where
  "scan_counts es st \<longleftrightarrow>
     length (registered st) = count_type ''tool.registered'' es
     \<and> length (completed st) = count_type ''tool.completed'' es
     \<and> length (provider_states st) = count_type ''provider.requested'' es
     \<and> count_state ''completed'' (provider_states st) = count_type ''provider.completed'' es
     \<and> count_state ''failed'' (provider_states st) = count_type ''provider.failed'' es"

definition scan_keys :: "success_scan \<Rightarrow> bool" where
  "scan_keys st \<longleftrightarrow>
     distinct (map fst (registered st)) \<and> distinct (map fst (completed st))
     \<and> (\<forall>e \<in> set (registered st). \<exists>s. fst e = PStr s) \<and> (\<forall>e \<in> set (completed st). \<exists>s. fst e = PStr s)"

lemma scan_event_counts:
  assumes "scan_counts es st" and "scan_event st e = Inr st'"
  shows "scan_counts (es @ [e]) st'"
proof -
  obtain ty data where ty: "dict_item e ''type'' = Inr ty" and data: "dict_item e ''data'' = Inr data"
    using assms(2) by (auto simp: scan_event_def rbind_Inr_iff)
  then have get: "dict_get e ''type'' = ty" by (auto simp: dict_item_def dict_get_def split: option.splits)
  have count: "count_type k (es @ [e]) = count_type k es + (if ty = PStr k then 1 else 0)" for k
    by (simp add: count_type_def get)
  consider "ty = PStr ''provider.requested''" | "ty = PStr ''provider.completed''" | "ty = PStr ''provider.failed''"
    | "ty = PStr ''tool.registered''" | "ty = PStr ''tool.completed''" | "ty = PStr ''assistant.final''"
    | "ty \<notin> PStr ` {''provider.requested'', ''provider.completed'', ''provider.failed'', ''tool.registered'',
                    ''tool.completed'', ''assistant.final''}"
    by auto
  then show ?thesis
  proof cases
    case 1
    then obtain k where "key_get (provider_states st) k = None"
      "st' = st\<lparr>provider_states := key_set (provider_states st) k ''in_flight''\<rparr>"
      using assms(2) by (auto simp: scan_event_def ty data rbind_Inr_iff with_key_def)
    then show ?thesis using assms(1) 1 by (simp add: scan_counts_def count key_set_absent count_state_def)
  next
    case 2
    then obtain k where "key_get (provider_states st) k = Some ''in_flight''"
      "st' = st\<lparr>provider_states := key_set (provider_states st) k ''completed''\<rparr>"
      using assms(2) by (auto simp: scan_event_def ty data rbind_Inr_iff with_key_def)
    then show ?thesis using assms(1) 2 by (simp add: scan_counts_def count key_set_length count_state_set)
  next
    case 3
    then obtain k where "key_get (provider_states st) k = Some ''in_flight''"
      "st' = st\<lparr>provider_states := key_set (provider_states st) k ''failed''\<rparr>"
      using assms(2) by (auto simp: scan_event_def ty data rbind_Inr_iff with_key_def)
    then show ?thesis using assms(1) 3 by (simp add: scan_counts_def count key_set_length count_state_set)
  next
    case 4
    then obtain k where "key_get (registered st) k = None" "st' = st\<lparr>registered := key_set (registered st) k e\<rparr>"
      using assms(2) by (auto simp: scan_event_def ty data rbind_Inr_iff with_key_def)
    then show ?thesis using assms(1) 4 by (simp add: scan_counts_def count key_set_absent)
  next
    case 5
    then obtain k where "key_get (completed st) k = None" "st' = st\<lparr>completed := key_set (completed st) k e\<rparr>"
      using assms(2) by (auto simp: scan_event_def ty data rbind_Inr_iff with_key_def)
    then show ?thesis using assms(1) 5 by (simp add: scan_counts_def count key_set_absent)
  next
    case 6
    then obtain t where "st' = st\<lparr>final_text := t\<rparr>"
      using assms(2) by (auto simp: scan_event_def ty data rbind_Inr_iff with_key_def)
    then show ?thesis using assms(1) 6 by (simp add: scan_counts_def count)
  next
    case 7
    then have "st' = st"
      using assms(2) by (auto simp: scan_event_def ty data rbind_Inr_iff with_key_def split: if_splits)
    then show ?thesis using assms(1) 7 by (auto simp: scan_counts_def count)
  qed
qed

lemma key_set_text:
  assumes "distinct (map fst m)" and "\<forall>e \<in> set m. \<exists>s. fst e = PStr s" and "key_get m (PStr s) = None"
  shows "distinct (map fst (key_set m (PStr s) x))" "\<forall>e \<in> set (key_set m (PStr s) x). \<exists>s. fst e = PStr s"
  using assms by (auto simp: key_set_new key_get_None)

lemma scan_event_keys:
  assumes inv: "scan_keys st" and run: "scan_event st e = Inr st'" and tid: "text_id e"
  shows "scan_keys st'"
proof -
  obtain ty data where ty: "dict_item e ''type'' = Inr ty" and data: "dict_item e ''data'' = Inr data"
    using run by (auto simp: scan_event_def rbind_Inr_iff)
  have ids: "\<exists>cid. k = PStr cid" if "py_item data ''call_id'' = Inr k" for k
    using text_idD [OF tid data that] .
  consider "ty = PStr ''tool.registered''" | "ty = PStr ''tool.completed''"
    | "ty \<notin> PStr ` {''tool.registered'', ''tool.completed''}" by auto
  then show ?thesis
  proof cases
    case 1
    then obtain k where k: "py_item data ''call_id'' = Inr k" "key_get (registered st) k = None"
      and st': "st' = st\<lparr>registered := key_set (registered st) k e\<rparr>"
      using run by (auto simp: scan_event_def ty data rbind_Inr_iff with_key_def)
    obtain cid where "k = PStr cid" using ids k(1) by blast
    then show ?thesis using inv key_set_text [of "registered st" cid e] k(2) by (simp add: scan_keys_def st')
  next
    case 2
    then obtain k where k: "py_item data ''call_id'' = Inr k" "key_get (completed st) k = None"
      and st': "st' = st\<lparr>completed := key_set (completed st) k e\<rparr>"
      using run by (auto simp: scan_event_def ty data rbind_Inr_iff with_key_def)
    obtain cid where "k = PStr cid" using ids k(1) by blast
    then show ?thesis using inv key_set_text [of "completed st" cid e] k(2) by (simp add: scan_keys_def st')
  next
    case 3
    then have "registered st' = registered st" "completed st' = completed st"
      using run by (auto simp: scan_event_def ty data rbind_Inr_iff with_key_def split: if_splits)
    then show ?thesis using inv by (simp add: scan_keys_def)
  qed
qed

lemma scan_all:
  assumes "rfold scan_event empty_scan es = Inr st"
  shows "scan_counts es st" "list_all text_id es \<Longrightarrow> scan_keys st"
proof -
  have "scan_counts es st \<and> (list_all text_id es \<longrightarrow> scan_keys st)"
    using assms
  proof (induction es arbitrary: st rule: rev_induct)
    case Nil
    then show ?case by (auto simp: empty_scan_def scan_counts_def scan_keys_def count_type_def count_state_def)
  next
    case (snoc e es)
    then obtain mid where "rfold scan_event empty_scan es = Inr mid" "scan_event mid e = Inr st"
      by (auto simp: rfold_append rbind_Inr_iff)
    then show ?case using snoc scan_event_counts scan_event_keys by auto
  qed
  then show "scan_counts es st" "list_all text_id es \<Longrightarrow> scan_keys st" by simp_all
qed

lemma same_keys_length:
  assumes "scan_keys st" and "same_keys (registered st) (completed st)"
  shows "length (registered st) = length (completed st)"
proof -
  have "fst ` set (registered st) = fst ` set (completed st)"
  proof (intro set_eqI iffI)
    fix k
    assume k: "k \<in> fst ` set (registered st)"
    then obtain s where s: "k = PStr s" using assms(1) by (auto simp: scan_keys_def)
    have "key_get (completed st) k \<noteq> None" using k assms(2) by (auto simp: same_keys_def list_all_iff)
    then show "k \<in> fst ` set (completed st)" using key_get_None [of "completed st" s] s by simp
  next
    fix k
    assume k: "k \<in> fst ` set (completed st)"
    then obtain s where s: "k = PStr s" using assms(1) by (auto simp: scan_keys_def)
    have "key_get (registered st) k \<noteq> None" using k assms(2) by (auto simp: same_keys_def list_all_iff)
    then show "k \<in> fst ` set (registered st)" using key_get_None [of "registered st" s] s by simp
  qed
  then show ?thesis
    using assms(1) unfolding scan_keys_def by (metis distinct_card length_map set_map)
qed

lemma all_completed:
  assumes "\<not> list_ex (\<lambda>e. snd e \<noteq> ''completed'') m"
  shows "count_state ''completed'' m = length m" "count_state ''failed'' m = 0"
  using assms by (auto simp: count_state_def list_ex_iff filter_empty_conv intro!: arg_cong [of _ _ length] filter_True)

lemma tool_steps_shape:
  assumes "tool_steps completions model acc calls = Inr out"
  shows "\<exists>new. out = acc @ new \<and> length new = length calls"
proof -
  have "tool_steps completions model acc calls
      = rfold (\<lambda>steps c. rbind (rbind (join_call completions c) (\<lambda>data. tool_step (int (length steps) + 1) (PStr model) data))
                 (\<lambda>step. Inr (steps @ [step]))) acc calls"
    by (simp add: tool_steps_def rbind_assoc)
  then show ?thesis
    using assms numbered_steps [of "\<lambda>k c. rbind (join_call completions c) (tool_step k (PStr model))" acc calls out]
    by auto
qed

lemma project_trajectory_Inr:
  assumes "project_trajectory instruction events run_record name version model = Inr t"
  obtains st called where "rfold scan_event empty_scan events = Inr st" "check_scan st = Inr ()"
    "length called = length (registered st)"
    "dict_get t ''steps'' = PList (user_step instruction # called
        @ [final_step (int (length called) + 2) model (final_text st)])"
    "dict_get t ''final_metrics'' = final_metrics run_record (user_step instruction # called
        @ [final_step (int (length called) + 2) model (final_text st)])"
proof -
  obtain st out t' where st: "rfold scan_event empty_scan events = Inr st" "check_scan st = Inr ()"
    and out: "tool_steps (completed st) model [user_step instruction] (registered st) = Inr out"
    and t: "dict_get t ''steps'' = PList (out @ [final_step (int (length out) + 1) model (final_text st)])"
      "dict_get t ''final_metrics'' = final_metrics run_record (out @ [final_step (int (length out) + 1) model (final_text st)])"
    using assms by (auto simp: project_trajectory_def rbind_Inr_iff Let_def dict_get_def)
  obtain called where "out = [user_step instruction] @ called" "length called = length (registered st)"
    using tool_steps_shape [OF out] by blast
  then show thesis using st t by (intro that [of st called]) (simp_all add: add.commute)
qed

section \<open>Properties\<close>

definition last_settlement_ok :: "pydict \<Rightarrow> bool" where
  "last_settlement_ok e \<longleftrightarrow> dict_get e ''type'' = PStr ''run.failed''
     \<and> map_of e ''seq'' \<noteq> None \<and> map_of e ''elapsed_ms'' \<noteq> None"

definition failure_record_ok :: "pydict \<Rightarrow> bool" where
  "failure_record_ok r \<longleftrightarrow> dict_get r ''terminal_status'' \<noteq> PStr ''success''
     \<and> list_all (\<lambda>k. map_of r k \<noteq> None) [''run_id'', ''trial_id'', ''attempt_id'', ''run_spec_sha256'',
         ''terminal_status'', ''terminal_phase'', ''terminal_code'']"

lemma dict_item_defined: "map_of d k \<noteq> None \<Longrightarrow> \<exists>v. dict_item d k = Inr v"
  by (auto simp: dict_item_def)

lemma failure_of_record_defined:
  assumes "failure_record_ok r" and "last_settlement_ok e"
  shows "\<exists>d. failure_of_record r e = Inr d"
  using assms
  by (auto simp: failure_record_ok_def last_settlement_ok_def failure_of_record_def dict_item_def)

text \<open>
  C38: A failed run always has a trajectory. If the events of a failed run follow the log grammar
  (the projection of the prefix accepts them, call ids and the final answer are text, the last
  event is \<open>run.failed\<close>) and the run record is complete, then \<open>project_failure_trajectory\<close> returns:
  the validator accepts what it built, whatever tool calls and provider turns were left open. The
  trajectory has one step for the instruction, one per registered call, and one for the answer
  if there was one.
\<close>

theorem failed_run_projects:
  assumes "prefix_projection events = Inr st" and "list_all text_id events" and "final_is_text (assistant_final st)"
    and "events \<noteq> []" and "last_settlement_ok (last events)" and "failure_record_ok run_record"
    and "instruction \<noteq> []" and "agent_named agent"
  shows "\<exists>t steps. project_failure_trajectory instruction events run_record agent = Inr t
     \<and> dict_get t ''steps'' = PList steps
     \<and> length steps = 1 + length (tool_calls st) + (if assistant_final st = PNone then 0 else 1)"
proof -
  obtain failure where failure: "failure_of_record run_record (last events) = Inr failure"
    using failure_of_record_defined [OF assms(6,5)] by blast
  have "calls_reflect events (tool_calls st)" using assms(1,2) by (rule prefix_projection_reflects)
  then have "\<exists>cid. call_reflects events cid c" if "c \<in> set (map snd (tool_calls st))" for c
    using that by (auto simp: calls_reflect_def)
  then obtain steps where steps: "prefix_atif_steps instruction (map snd (tool_calls st)) (assistant_final st)
      (model_name agent) = Inr (user_step instruction # steps)"
    and len: "length steps = length (tool_calls st) + (if assistant_final st = PNone then 0 else 1)"
    and valid: "validate_steps True 1 (user_step instruction # steps) = Inr ()"
    using prefix_steps_valid [of "map snd (tool_calls st)" events "assistant_final st" instruction "model_name agent"]
      assms(3) by auto
  obtain ids where ids: "run_identity run_record [''trial_id'', ''attempt_id'', ''run_spec_sha256''] = Inr ids"
    using run_identity_defined [of "[''trial_id'', ''attempt_id'', ''run_spec_sha256'']" run_record] assms(6)
    by (auto simp: failure_record_ok_def)
  then have keys: "map fst ids = [''trial_id'', ''attempt_id'', ''run_spec_sha256'']" by (rule run_identity_Inr)
  then obtain x y z where xyz: "ids = [(''trial_id'', x), (''attempt_id'', y), (''run_spec_sha256'', z)]"
    by (auto simp: map_eq_Cons_conv)
  obtain session where session: "dict_item run_record ''run_id'' = Inr session"
    using dict_item_defined [of run_record "''run_id''"] assms(6) by (auto simp: failure_record_ok_def)
  have agent: "agent_valid (names_dict agent)" using assms(8) by (rule agent_valid_names)
  let ?extra = "ids @ [(''source_kind'', PStr ''committed_failure''), (''terminal_failure'', PDict failure),
              (''provider_turns'', PList (map (\<lambda>e. turn_dict (snd e)) (provider_turns st)))]
           @ (case dict_get run_record ''events_sha256'' of PStr h \<Rightarrow> [(''events_sha256'', PStr h)] | _ \<Rightarrow> []) @ []"
  let ?t = "[(''schema_version'', PStr atif_version), (''session_id'', session),
             (''agent'', names_dict agent), (''steps'', PList (user_step instruction # steps)),
             (''final_metrics'', final_metrics run_record (user_step instruction # steps)), (''extra'', PDict ?extra)]"
  have failed: "dict_get ?extra ''terminal_failure'' = PDict failure" by (simp add: dict_get_def xyz)
  have user: "py_item (user_step instruction) ''source'' = Inr (PStr ''user'')"
    by (simp add: user_step_def py_item_def dict_item_def)
  have parts: "dict_get ?t ''schema_version'' = PStr atif_version" "keys_are ?t root_fields"
    "dict_get ?t ''agent'' = names_dict agent" "dict_get ?t ''steps'' = PList (user_step instruction # steps)"
    "dict_get ?t ''extra'' = PDict ?extra"
    by (simp_all add: dict_get_def keys_are_def dict_keys_def root_fields_def)
  have "validate_minimal_trajectory ?t = Inr ()"
    unfolding validate_minimal_trajectory_def parts pyval.case list.case failed Let_def
    using valid user agent parts(2) by simp
  then have "prefix_atif_trajectory instruction events run_record failure run_record agent ''committed_failure'' None = Inr ?t"
    using assms(7)
    by (simp only: prefix_atif_trajectory_def assms(1) steps ids session rbind_simps ensure_simps Let_def option.case)
      simp
  then have "project_failure_trajectory instruction events run_record agent = Inr ?t"
    using assms(4-6) failure by (simp add: project_failure_trajectory_def failure_record_ok_def last_settlement_ok_def)
  then show ?thesis using len parts(4) by (intro exI [of _ ?t] exI [of _ "user_step instruction # steps"]) simp
qed

definition sample_events :: "pydict list" where
  "sample_events =
     [[(''type'', PStr ''tool.registered''),
       (''data'', PDict [(''call_id'', PStr ''c1''), (''provider_name'', PStr ''read''),
                         (''arguments_json'', PStr ''{}''), (''known'', PBool True)])],
      [(''type'', PStr ''tool.completed''),
       (''data'', PDict [(''call_id'', PStr ''c1''), (''provider_name'', PStr ''read''),
                         (''execution_attempted'', PBool True), (''outcome'', PStr ''ok''), (''output'', PStr ''text'')])],
      [(''type'', PStr ''tool.registered''),
       (''data'', PDict [(''call_id'', PStr ''c2''), (''provider_name'', PStr ''edit''),
                         (''arguments_json'', PStr ''{}''), (''known'', PBool True)])],
      [(''type'', PStr ''run.failed''), (''data'', PDict []), (''seq'', PInt 4), (''elapsed_ms'', PInt 90)]]"

definition sample_record :: pydict where
  "sample_record =
     [(''terminal_status'', PStr ''failed''), (''terminal_phase'', PStr ''tool''), (''terminal_code'', PStr ''x''),
      (''run_id'', PStr ''r''), (''trial_id'', PStr ''t''), (''attempt_id'', PStr ''a''),
      (''run_spec_sha256'', PStr ''s'')]"

definition sample_agent :: agent_names where
  "sample_agent = \<lparr>agent_name = ''surf'', agent_version = ''1'', model_name = ''m''\<rparr>"

lemma empty_arguments: "arguments_object (PStr ''{}'') = Inr []"
  by code_simp

lemma sample_projection:
  "\<exists>st. prefix_projection sample_events = Inr st \<and> assistant_final st = PNone
     \<and> map fst (tool_calls st) = [PStr ''c1'', PStr ''c2'']"
proof -
  have "case prefix_projection sample_events of Inl e \<Rightarrow> False
    | Inr st \<Rightarrow> assistant_final st = PNone \<and> map fst (tool_calls st) = [PStr ''c1'', PStr ''c2'']"
    by code_simp
  then show ?thesis by (auto split: sum.splits)
qed

theorem failed_run_projects_witness:
  "\<exists>t steps. project_failure_trajectory ''do it'' sample_events sample_record sample_agent = Inr t
     \<and> dict_get t ''steps'' = PList steps \<and> length steps = 3"
proof -
  obtain st where st: "prefix_projection sample_events = Inr st" "assistant_final st = PNone"
    and keys: "map fst (tool_calls st) = [PStr ''c1'', PStr ''c2'']"
    using sample_projection by (elim exE conjE)
  have "length (tool_calls st) = 2" using arg_cong [OF keys, of length] by simp
  moreover have "\<exists>t steps. project_failure_trajectory ''do it'' sample_events sample_record sample_agent = Inr t
     \<and> dict_get t ''steps'' = PList steps
     \<and> length steps = 1 + length (tool_calls st) + (if assistant_final st = PNone then 0 else 1)"
    by (rule failed_run_projects [OF st(1)])
      (simp_all add: st(2) final_is_text_def sample_events_def text_id_def last_settlement_ok_def dict_get_def
        failure_record_ok_def sample_record_def agent_named_def sample_agent_def)
  ultimately show ?thesis using st(2) by auto
qed

text \<open>
  C8: The observations of a prefix are those of its log. A registered call is completed, with
  exactly the recorded observation, if and only if the log has a \<open>tool.completed\<close> event for it,
  failed if and only if it has a \<open>tool.failed\<close> event, and its step carries an observation only in
  the first case: an unresolved call never receives an invented one.
\<close>

theorem prefix_observations_exact:
  assumes "prefix_projection events = Inr st" and "list_all text_id events" and "(k, c) \<in> set (tool_calls st)"
  shows "\<exists>cid. k = PStr cid \<and> call_id c = k
     \<and> (\<forall>d. call_state c = CallCompleted d \<longleftrightarrow> (\<exists>e \<in> set events. completes e cid d))
     \<and> (\<forall>d. call_state c = CallFailed d \<longleftrightarrow> (\<exists>e \<in> set events. fails e cid d))
     \<and> (\<exists>obs. observation_part c = Inr obs \<and> (obs = [] \<longleftrightarrow> \<not> (\<exists>e \<in> set events. \<exists>d. completes e cid d)))"
proof -
  obtain cid where k: "k = PStr cid" and c: "call_reflects events cid c"
    using prefix_projection_reflects [OF assms(1,2)] assms(3) by (fastforce simp: calls_reflect_def)
  obtain obs where obs: "observation_part c = Inr obs" using observation_part_defined [OF c] by blast
  then have "obs = [] \<longleftrightarrow> \<not> (\<exists>e \<in> set events. \<exists>d. completes e cid d)"
    using observation_part_empty [OF obs] c unfolding call_reflects_def by blast
  then show ?thesis using k c obs unfolding call_reflects_def by auto
qed

theorem prefix_observations_exact_witness:
  "\<exists>st c. prefix_projection sample_events = Inr st \<and> (PStr ''c1'', c) \<in> set (tool_calls st)
     \<and> (\<exists>d. call_state c = CallCompleted d)"
proof -
  obtain st where st: "prefix_projection sample_events = Inr st"
    and keys: "map fst (tool_calls st) = [PStr ''c1'', PStr ''c2'']"
    using sample_projection by (elim exE conjE)
  have ids: "list_all text_id sample_events" by (simp add: sample_events_def text_id_def)
  have "PStr ''c1'' \<in> set (map fst (tool_calls st))" unfolding keys by simp
  then obtain c where c: "(PStr ''c1'', c) \<in> set (tool_calls st)" by auto
  let ?d = "[(''execution_attempted'', PBool True), (''outcome'', PStr ''ok''), (''output'', PStr ''text'')]"
  have "\<exists>e \<in> set sample_events. completes e ''c1'' ?d"
    by (simp add: sample_events_def settles_def items_def dict_item_def py_item_def)
  then have "call_state c = CallCompleted ?d"
    using prefix_observations_exact [OF st ids c] by auto
  then show ?thesis using st c by blast
qed


definition sample_success :: "pydict list" where
  "sample_success =
     [[(''type'', PStr ''provider.requested''), (''data'', PDict [(''turn_index'', PInt 0)])],
      [(''type'', PStr ''provider.completed''), (''data'', PDict [(''turn_index'', PInt 0)])],
      [(''type'', PStr ''tool.registered''),
       (''data'', PDict [(''call_id'', PStr ''c1''), (''provider_name'', PStr ''read''), (''arguments_json'', PStr ''{}'')])],
      [(''type'', PStr ''tool.completed''),
       (''data'', PDict [(''call_id'', PStr ''c1''), (''execution_attempted'', PBool True),
                         (''outcome'', PStr ''ok''), (''output'', PStr ''text'')])],
      [(''type'', PStr ''assistant.final''), (''data'', PDict [(''text'', PStr ''done'')])],
      [(''type'', PStr ''run.completed''), (''data'', PDict [])]]"

definition sample_success_record :: pydict where
  "sample_success_record =
     [(''terminal_status'', PStr ''success''), (''run_id'', PStr ''r''), (''trial_id'', PStr ''t''),
      (''attempt_id'', PStr ''a''), (''run_spec_sha256'', PStr ''s''), (''events_sha256'', PStr ''e''),
      (''usage_totals'', PDict [(''input_tokens'', PInt 7), (''output_tokens'', PInt 5)])]"

lemma sample_trajectory:
  "\<exists>t. project_trajectory ''do it'' sample_success sample_success_record ''surf'' ''1'' ''m'' = Inr t"
proof -
  have "case project_trajectory ''do it'' sample_success sample_success_record ''surf'' ''1'' ''m'' of
      Inl e \<Rightarrow> False | Inr t \<Rightarrow> True"
    by code_simp
  then show ?thesis by (auto split: sum.splits)
qed


text \<open>
  C39: The token counts survive the trajectory. What \<open>usage_context\<close> reads from the trajectory of
  a run, successful or failed, is exactly what \<open>_usage_totals\<close> computed from its run record, and
  these counts are never negative.
\<close>

theorem usage_context_of_trajectory:
  assumes "project_trajectory instruction events run_record name version model = Inr t
     \<or> project_failure_trajectory instruction events run_record agent = Inr t"
  shows "usage_context t = Inr (usage_totals run_record)
     \<and> 0 \<le> prompt_tokens (usage_totals run_record) \<and> 0 \<le> completion_tokens (usage_totals run_record)
     \<and> 0 \<le> cached_tokens (usage_totals run_record)"
proof -
  obtain steps where "dict_get t ''final_metrics'' = final_metrics run_record steps"
    using assms
  proof
    assume "project_failure_trajectory instruction events run_record agent = Inr t"
    then show thesis
      using that by (auto simp: project_failure_trajectory_def prefix_atif_trajectory_def rbind_Inr_iff Let_def
          dict_get_def)
  qed (auto elim!: project_trajectory_Inr intro: that)
  then have "usage_context t = Inr (usage_totals run_record)"
    by (simp add: usage_context_def final_metrics_def totals_dict_def dict_get_default_def py_int_def)
  moreover have nonneg: "0 \<le> known_or_zero v" for v
    by (cases v) (auto simp: known_or_zero_def)
  have "0 \<le> prompt_tokens (foldl add_usage z us) \<and> 0 \<le> completion_tokens (foldl add_usage z us)
      \<and> 0 \<le> cached_tokens (foldl add_usage z us)"
    if "0 \<le> prompt_tokens z \<and> 0 \<le> completion_tokens z \<and> 0 \<le> cached_tokens z" for z us
    using that
  proof (induction us arbitrary: z)
    case (Cons u us)
    have "0 \<le> prompt_tokens (add_usage z u) \<and> 0 \<le> completion_tokens (add_usage z u) \<and> 0 \<le> cached_tokens (add_usage z u)"
      using Cons.prems nonneg by (auto simp: add_usage_def Let_def split: pyval.split)
    then show ?case using Cons.IH by simp
  qed simp
  then have "0 \<le> prompt_tokens (usage_totals run_record) \<and> 0 \<le> completion_tokens (usage_totals run_record)
     \<and> 0 \<le> cached_tokens (usage_totals run_record)"
    using nonneg by (auto simp: usage_totals_def Let_def split: pyval.split)
  ultimately show ?thesis by simp
qed

theorem usage_context_of_trajectory_witness:
  "\<exists>t. project_trajectory ''do it'' sample_success sample_success_record ''surf'' ''1'' ''m'' = Inr t
     \<and> usage_context t = Inr \<lparr>prompt_tokens = 7, completion_tokens = 5, cached_tokens = 0\<rparr>"
proof -
  obtain t where t: "project_trajectory ''do it'' sample_success sample_success_record ''surf'' ''1'' ''m'' = Inr t"
    using sample_trajectory by (elim exE)
  have "usage_totals sample_success_record = \<lparr>prompt_tokens = 7, completion_tokens = 5, cached_tokens = 0\<rparr>"
    by (simp add: usage_totals_def sample_success_record_def dict_get_def known_or_zero_def)
  then show ?thesis using t usage_context_of_trajectory [OF disjI1 [OF t]] by auto
qed

end
