(* ===== verification/Regex.thy ===== *)
theory Regex
  imports Json_Correct
begin

text \<open>
  Python's \<open>re\<close> module and \<open>str\<close> methods, as far as the Git history policy uses them. A pattern
  is the tree that \<open>re.compile\<close> builds from its text; \<open>ends\<close> lists the ends of its matches in the
  order in which the backtracking engine tries them, so the first one is the match that is
  reported; \<open>matches\<close> is the language of a pattern, and \<open>ends_matches\<close> shows that the engine
  finds exactly it.
\<close>

section \<open>Code points\<close>

text \<open>
  The properties of characters beyond ASCII that \<open>re\<close> reads in the interpreter's Unicode database:
  which are alphanumeric and which are decimal digits. Nothing is assumed of them.
\<close>

record unicode =
  alnum_points :: "nat \<Rightarrow> bool"
  decimal_points :: "nat \<Rightarrow> bool"

fun decode_point :: "bytes \<Rightarrow> nat" where
  "decode_point [a] = ord_of a"
| "decode_point [a, b] = (ord_of a - 192) * 64 + (ord_of b - 128)"
| "decode_point [a, b, c] = (ord_of a - 224) * 4096 + (ord_of b - 128) * 64 + (ord_of c - 128)"
| "decode_point [a, b, c, d] =
     (ord_of a - 240) * 262144 + (ord_of b - 128) * 4096 + (ord_of c - 128) * 64 + (ord_of d - 128)"
| "decode_point _ = 0"

text \<open>The code points of a \<open>str\<close>; every byte of an invalid representation stands for itself.\<close>

definition point_width :: "bytes \<Rightarrow> nat" where
  "point_width s = max 1 (utf8_width True s)"

function code_points :: "pystr \<Rightarrow> nat list" where
  "code_points [] = []"
| "code_points (c # s) =
     decode_point (take (point_width (c # s)) (c # s)) # code_points (drop (point_width (c # s)) (c # s))"
  by pat_completeness auto
termination
  by (relation "measure length") (auto simp: point_width_def)

definition of_points :: "nat list \<Rightarrow> pystr" where
  "of_points cs = concat (map utf8_of cs)"

text \<open>\<open>str.isspace\<close> of one character, which is also the class \<open>\s\<close>.\<close>

definition is_space_point :: "nat \<Rightarrow> bool" where
  "is_space_point c \<longleftrightarrow>
     (9 \<le> c \<and> c \<le> 13) \<or> (28 \<le> c \<and> c \<le> 32) \<or> c = 133 \<or> c = 160 \<or> c = 5760
     \<or> (8192 \<le> c \<and> c \<le> 8202) \<or> c = 8232 \<or> c = 8233 \<or> c = 8239 \<or> c = 8287 \<or> c = 12288"

definition is_digit_point :: "unicode \<Rightarrow> nat \<Rightarrow> bool" where
  "is_digit_point u c \<longleftrightarrow> (if c < 128 then 48 \<le> c \<and> c \<le> 57 else decimal_points u c)"

text \<open>The class \<open>\w\<close>, which decides where \<open>\b\<close> matches.\<close>

definition is_word_point :: "unicode \<Rightarrow> nat \<Rightarrow> bool" where
  "is_word_point u c \<longleftrightarrow>
     (if c < 128
      then (48 \<le> c \<and> c \<le> 57) \<or> (65 \<le> c \<and> c \<le> 90) \<or> (97 \<le> c \<and> c \<le> 122) \<or> c = 95
      else alnum_points u c)"

definition lower_point :: "nat \<Rightarrow> nat" where
  "lower_point c = (if 65 \<le> c \<and> c \<le> 90 then c + 32 else c)"

text \<open>
  Equality under \<open>re.IGNORECASE\<close>: the four characters beyond ASCII whose case folding is an ASCII
  letter match it too.
\<close>

definition same_letter :: "bool \<Rightarrow> nat \<Rightarrow> nat \<Rightarrow> bool" where
  "same_letter ci c x \<longleftrightarrow>
     x = c
     \<or> ci \<and> (lower_point x = lower_point c
            \<or> lower_point c = 105 \<and> (x = 304 \<or> x = 305)
            \<or> lower_point c = 115 \<and> x = 383
            \<or> lower_point c = 107 \<and> x = 8490)"

section \<open>Patterns\<close>

datatype char_item = Point nat | Span nat nat | Space | Digit

text \<open>
  \<open>Chars neg items\<close> is a character class, negated or not; \<open>Repeat greedy least most\<close> a quantifier;
  \<open>Group n\<close> a capturing group. \<open>AtEnd\<close> is \<open>$\<close> without \<open>re.MULTILINE\<close>.
\<close>

datatype regex =
    Nothing
  | Chars bool "char_item list"
  | Boundary
  | AtEnd
  | Seq regex regex
  | Alt regex regex
  | Repeat bool nat "nat option" regex
  | Group nat regex

record flags =
  chardata :: unicode
  ignore_case :: bool

fun item_matches :: "flags \<Rightarrow> nat \<Rightarrow> char_item \<Rightarrow> bool" where
  "item_matches f x (Point c) = same_letter (ignore_case f) c x"
| "item_matches f x (Span a b) = list_ex (\<lambda>c. same_letter (ignore_case f) c x) [a..<Suc b]"
| "item_matches f x Space = is_space_point x"
| "item_matches f x Digit = is_digit_point (chardata f) x"

definition class_matches :: "flags \<Rightarrow> bool \<Rightarrow> char_item list \<Rightarrow> nat \<Rightarrow> bool" where
  "class_matches f neg items x \<longleftrightarrow> list_ex (item_matches f x) items = (\<not> neg)"

definition word_at :: "flags \<Rightarrow> nat list \<Rightarrow> nat \<Rightarrow> bool" where
  "word_at f s i \<longleftrightarrow> i < length s \<and> is_word_point (chardata f) (s ! i)"

definition at_boundary :: "flags \<Rightarrow> nat list \<Rightarrow> nat \<Rightarrow> bool" where
  "at_boundary f s i \<longleftrightarrow> (0 < i \<and> word_at f s (i - 1)) \<noteq> word_at f s i"

definition at_end :: "nat list \<Rightarrow> nat \<Rightarrow> bool" where
  "at_end s i \<longleftrightarrow> i = length s \<or> Suc i = length s \<and> s ! i = 10"

section \<open>The engine\<close>

text \<open>What the groups captured so far: the latest capture of a group is the first in the list.\<close>

type_synonym captures = "(nat \<times> nat \<times> nat) list"

text \<open>
  The repetitions of a step, at least \<open>least\<close> and at most \<open>most\<close> of them; a greedy quantifier
  tries one more first.
\<close>

fun repeats :: "bool \<Rightarrow> ('p \<Rightarrow> 'p list) \<Rightarrow> nat \<Rightarrow> nat \<Rightarrow> 'p \<Rightarrow> 'p list" where
  "repeats greedy step least 0 p = (if least = 0 then [p] else [])"
| "repeats greedy step least (Suc most) p =
     (let further = concat (map (repeats greedy step (least - 1) most) (step p)) in
      if 0 < least then further else if greedy then further @ [p] else p # further)"

text \<open>
  An unbounded quantifier may repeat as often as there are characters left: every iteration beyond
  \<open>least\<close> takes at least one (\<open>ends_matches\<close>).
\<close>

definition most_repeats :: "nat list \<Rightarrow> nat \<Rightarrow> nat \<Rightarrow> nat option \<Rightarrow> nat" where
  "most_repeats s i least most =
     (case most of Some m \<Rightarrow> m | None \<Rightarrow> least + (length s - i))"

primrec ends :: "flags \<Rightarrow> nat list \<Rightarrow> regex \<Rightarrow> nat \<times> captures \<Rightarrow> (nat \<times> captures) list" where
  "ends f s Nothing p = [p]"
| "ends f s (Chars neg items) p =
     (if fst p < length s \<and> class_matches f neg items (s ! fst p) then [(Suc (fst p), snd p)] else [])"
| "ends f s Boundary p = (if at_boundary f s (fst p) then [p] else [])"
| "ends f s AtEnd p = (if at_end s (fst p) then [p] else [])"
| "ends f s (Seq a b) p = concat (map (ends f s b) (ends f s a p))"
| "ends f s (Alt a b) p = ends f s a p @ ends f s b p"
| "ends f s (Repeat greedy least most r) p =
     repeats greedy (ends f s r) least (most_repeats s (fst p) least most) p"
| "ends f s (Group n r) p = map (\<lambda>q. (fst q, (n, fst p, fst q) # snd q)) (ends f s r p)"

text \<open>\<open>pattern.search(s, start)\<close>: where the leftmost match starts and ends, and its groups.\<close>

record found =
  found_start :: nat
  found_end :: nat
  found_groups :: captures

fun search_from :: "flags \<Rightarrow> regex \<Rightarrow> nat list \<Rightarrow> nat list \<Rightarrow> found option" where
  "search_from f r s [] = None"
| "search_from f r s (i # is) =
     (case ends f s r (i, []) of
        [] \<Rightarrow> search_from f r s is
      | q # _ \<Rightarrow> Some \<lparr>found_start = i, found_end = fst q, found_groups = snd q\<rparr>)"

definition search :: "flags \<Rightarrow> regex \<Rightarrow> nat list \<Rightarrow> nat \<Rightarrow> found option" where
  "search f r s start = search_from f r s [start..<Suc (length s)]"

text \<open>\<open>pattern.finditer(s)\<close>: the successive matches, each from the end of the one before.\<close>

lemma search_from_start: "search_from f r s is = Some m \<Longrightarrow> found_start m \<in> set is"
  by (induction "is") (auto split: list.splits)

lemma search_start: "search f r s start = Some m \<Longrightarrow> start \<le> found_start m \<and> found_start m \<le> length s"
  using search_from_start [of f r s "[start..<Suc (length s)]" m] by (auto simp: search_def simp del: upt_Suc)

function find_all :: "flags \<Rightarrow> regex \<Rightarrow> nat list \<Rightarrow> nat \<Rightarrow> found list" where
  "find_all f r s start =
     (case search f r s start of
        None \<Rightarrow> []
      | Some m \<Rightarrow> m # find_all f r s (max (Suc (found_start m)) (found_end m)))"
  by pat_completeness auto
termination
  by (relation "measure (\<lambda>(f, r, s, start). Suc (length s) - start)") (auto dest: search_start)

declare find_all.simps [simp del]

definition between :: "nat list \<Rightarrow> nat \<Rightarrow> nat \<Rightarrow> nat list" where
  "between s a b = take (b - a) (drop a s)"

definition group0 :: "nat list \<Rightarrow> found \<Rightarrow> nat list" where
  "group0 s m = between s (found_start m) (found_end m)"

definition group_text :: "nat list \<Rightarrow> found \<Rightarrow> nat \<Rightarrow> nat list option" where
  "group_text s m n = map_option (\<lambda>(a, b). between s a b) (map_of (found_groups m) n)"

section \<open>The language of a pattern\<close>

primrec matches :: "flags \<Rightarrow> nat list \<Rightarrow> regex \<Rightarrow> nat \<Rightarrow> nat \<Rightarrow> bool" where
  "matches f s Nothing = (=)"
| "matches f s (Chars neg items) = (\<lambda>i j. j = Suc i \<and> i < length s \<and> class_matches f neg items (s ! i))"
| "matches f s Boundary = (\<lambda>i j. j = i \<and> at_boundary f s i)"
| "matches f s AtEnd = (\<lambda>i j. j = i \<and> at_end s i)"
| "matches f s (Seq a b) = matches f s a OO matches f s b"
| "matches f s (Alt a b) = (\<lambda>i j. matches f s a i j \<or> matches f s b i j)"
| "matches f s (Repeat greedy least most r) =
     (\<lambda>i j. \<exists>n. least \<le> n \<and> (case most of None \<Rightarrow> True | Some m \<Rightarrow> n \<le> m) \<and> (matches f s r ^^ n) i j)"
| "matches f s (Group n r) = matches f s r"

text \<open>A relation between positions that only moves forward, and not beyond the end.\<close>

definition forward :: "nat \<Rightarrow> (nat \<Rightarrow> nat \<Rightarrow> bool) \<Rightarrow> bool" where
  "forward len R \<longleftrightarrow> (\<forall>i j. R i j \<longrightarrow> i \<le> j \<and> (i < j \<longrightarrow> j \<le> len))"

lemma forwardD: "forward len R \<Longrightarrow> R i j \<Longrightarrow> i \<le> j \<and> (i < j \<longrightarrow> j \<le> len)"
  by (simp add: forward_def)

lemma forward_compose: "forward len R \<Longrightarrow> forward len S \<Longrightarrow> forward len (R OO S)"
  unfolding forward_def by (metis le_neq_implies_less le_trans relcomppE)

lemma forward_power: "forward len R \<Longrightarrow> forward len (R ^^ n)"
  by (induction n) (simp_all add: forward_compose, simp add: forward_def)

lemma matches_forward: "forward (length s) (matches f s r)"
proof (induction r)
  case (Repeat greedy least most r)
  then have "forward (length s) (matches f s r ^^ n)" for n by (rule forward_power)
  then show ?case by (auto simp: forward_def)
qed (simp_all add: forward_compose, auto simp: forward_def)

text \<open>Iterations that do not move can be left out, so a bounded number of them is enough.\<close>

lemma power_shorten:
  assumes "forward len R" and "(R ^^ n) i j" and "least \<le> n"
  shows "\<exists>m. least \<le> m \<and> m \<le> least + (len - i) \<and> (R ^^ m) i j"
  using assms(2,3)
proof (induction n arbitrary: i least)
  case 0
  then show ?case by auto
next
  case (Suc n)
  obtain k where k: "R i k" "(R ^^ n) k j" using relpowp_Suc_D2 [OF Suc.prems(1)] by blast
  note fw = forwardD [OF assms(1) k(1)]
  show ?case
  proof (cases least)
    case (Suc l)
    with Suc.IH [OF k(2), of l] Suc.prems obtain m where
      "l \<le> m" "m \<le> l + (len - k)" "(R ^^ m) k j" by auto
    with k(1) fw Suc show ?thesis by (intro exI [of _ "Suc m"]) (auto intro: relpowp_Suc_I2 simp del: relpowp.simps)
  next
    case 0
    from Suc.IH [OF k(2), of 0] obtain m where m: "m \<le> len - k" "(R ^^ m) k j" by auto
    show ?thesis
    proof (cases "k = i")
      case True
      with m 0 show ?thesis by auto
    next
      case False
      with m k(1) fw 0 show ?thesis by (intro exI [of _ "Suc m"]) (auto intro: relpowp_Suc_I2 simp del: relpowp.simps)
    qed
  qed
qed

lemma union_over_ends:
  assumes "fst ` set ps = {k. R k}"
  shows "(\<Union>q \<in> set ps. {j. F (fst q) j}) = {j. \<exists>k. R k \<and> F k j}"
proof -
  have "(\<Union>q \<in> set ps. {j. F (fst q) j}) = (\<Union>k \<in> fst ` set ps. {j. F k j})" by simp
  then show ?thesis using assms by auto
qed

lemma repeats_power:
  assumes step: "\<And>p. fst ` set (step p) = {j. R (fst p) j}"
  shows "fst ` set (repeats greedy step least most p) =
           {j. \<exists>n. least \<le> n \<and> n \<le> most \<and> (R ^^ n) (fst p) j}"
proof (induction most arbitrary: least p)
  case 0
  then show ?case by auto
next
  case (Suc most)
  have further: "fst ` set (concat (map (repeats greedy step (least - 1) most) (step p))) =
      {j. \<exists>n. least - 1 \<le> n \<and> n \<le> most \<and> (R ^^ Suc n) (fst p) j}"
  proof -
    have "fst ` set (concat (map (repeats greedy step (least - 1) most) (step p))) =
        (\<Union>q \<in> set (step p). {j. \<exists>n. least - 1 \<le> n \<and> n \<le> most \<and> (R ^^ n) (fst q) j})"
      by (simp add: image_UN Suc.IH)
    also have "\<dots> = {j. \<exists>k. R (fst p) k \<and> (\<exists>n. least - 1 \<le> n \<and> n \<le> most \<and> (R ^^ n) k j)}"
      by (rule union_over_ends [OF step])
    also have "\<dots> = {j. \<exists>n. least - 1 \<le> n \<and> n \<le> most \<and> (R ^^ Suc n) (fst p) j}"
      by (auto dest!: relpowp_Suc_D2 intro: relpowp_Suc_I2 simp del: relpowp.simps)
    finally show ?thesis .
  qed
  have first: "(\<exists>n. P n) \<longleftrightarrow> P 0 \<or> (\<exists>n. P (Suc n))" for P
    by (metis not0_implies_Suc)
  have shift: "(\<exists>n. least \<le> n \<and> n \<le> Suc most \<and> Q n) \<longleftrightarrow>
      (least = 0 \<and> Q 0) \<or> (\<exists>n. least - 1 \<le> n \<and> n \<le> most \<and> Q (Suc n))" for Q
    by (subst first) (simp add: Suc_le_eq less_Suc_eq_le le_diff_conv)
  have "fst ` set (repeats greedy step least (Suc most) p) =
      (if least = 0 then {fst p} else {}) \<union>
      fst ` set (concat (map (repeats greedy step (least - 1) most) (step p)))"
    by (auto simp: Let_def)
  then show ?case unfolding further shift by auto
qed

text \<open>
  The engine is sound and complete: it reports exactly the ends of the substrings in the language,
  whatever the order it tries them in and whatever the groups captured before.
\<close>

theorem ends_matches: "fst ` set (ends f s r p) = {j. matches f s r (fst p) j}"
proof (induction r arbitrary: p)
  case (Seq a b)
  have "fst ` set (ends f s (Seq a b) p) = (\<Union>q \<in> set (ends f s a p). {j. matches f s b (fst q) j})"
    by (simp add: image_UN Seq.IH(2))
  also have "\<dots> = {j. \<exists>k. matches f s a (fst p) k \<and> matches f s b k j}"
    by (rule union_over_ends [OF Seq.IH(1)])
  finally show ?case by (simp add: relcompp_apply)
next
  case (Repeat greedy least most r)
  note rep = repeats_power [of "ends f s r" "matches f s r" greedy least _ p, OF Repeat.IH]
  show ?case
  proof (cases most)
    case None
    have "(\<exists>n. least \<le> n \<and> n \<le> least + (length s - fst p) \<and> (matches f s r ^^ n) (fst p) j) \<longleftrightarrow>
        (\<exists>n. least \<le> n \<and> (matches f s r ^^ n) (fst p) j)" for j
      using power_shorten [OF matches_forward] by blast
    then show ?thesis using None by (simp add: rep most_repeats_def)
  qed (simp add: rep most_repeats_def)
next
  case (Group n r)
  then show ?case by (simp add: image_image)
qed (auto simp: image_Un)

lemma ends_empty: "ends f s r p = [] \<longleftrightarrow> (\<forall>j. \<not> matches f s r (fst p) j)"
  using ends_matches [of f s r p] by (metis empty_Collect_eq image_is_empty set_empty)

lemma search_from_None: "search_from f r s is = None \<longleftrightarrow> (\<forall>i \<in> set is. \<forall>j. \<not> matches f s r i j)"
proof (induction "is")
  case (Cons i "is")
  then show ?case using ends_empty [of f s r "(i, [])"] by (auto split: list.splits)
qed simp

text \<open>\<open>search\<close> fails exactly when no substring is in the language, and what it finds is in it.\<close>

theorem search_None: "search f r s start = None \<longleftrightarrow> (\<forall>i \<le> length s. start \<le> i \<longrightarrow> (\<forall>j. \<not> matches f s r i j))"
  by (auto simp: search_def search_from_None simp del: upt_Suc)

lemma search_from_Some: "search_from f r s is = Some m \<Longrightarrow> matches f s r (found_start m) (found_end m)"
proof (induction "is")
  case (Cons i "is")
  then show ?case
    using ends_matches [of f s r "(i, [])"] by (auto split: list.splits)
qed simp

theorem search_Some:
  assumes "search f r s start = Some m"
  shows "matches f s r (found_start m) (found_end m)"
  using assms search_from_Some by (simp add: search_def)

lemma find_all_matches: "m \<in> set (find_all f r s start) \<Longrightarrow>
  start \<le> found_start m \<and> found_start m \<le> length s \<and> matches f s r (found_start m) (found_end m)"
proof (induction f r s start rule: find_all.induct)
  case (1 f r s start)
  show ?case
  proof (cases "search f r s start")
    case None
    with "1.prems" show ?thesis by (simp add: find_all.simps)
  next
    case (Some k)
    note here = search_start [OF Some] search_Some [OF Some]
    from "1.prems" Some consider "m = k"
      | "m \<in> set (find_all f r s (max (Suc (found_start k)) (found_end k)))"
      by (subst (asm) find_all.simps) auto
    then show ?thesis
      using here "1.IH" [OF Some] by cases auto
  qed
qed

lemma matches_bounds:
  assumes "matches f s r i j" and "i \<le> length s"
  shows "i \<le> j" "j \<le> length s"
  using forwardD [OF matches_forward assms(1)] assms(2) by (auto simp: le_less)

end
