(* ===== verification/Json_Ascii.thy ===== *)
theory Json_Ascii
  imports Regex
begin

text \<open>
  \<open>json.dumps(value, sort_keys=True, separators=(",", ":"))\<close> with its default
  \<open>ensure_ascii=True\<close>: every character beyond \<open>~\<close>, which only strings contain, is written as one
  or two \<open>\u\<close> escapes. Reading such a document gives the value back.
\<close>

definition hex_escape :: "nat \<Rightarrow> string" where
  "hex_escape n =
     [CHR 0x5C, CHR ''u'', hex_char (n div 4096), hex_char (n div 256 mod 16), hex_char (n div 16 mod 16),
      hex_char (n mod 16)]"

definition ascii_point :: "nat \<Rightarrow> string" where
  "ascii_point n =
     (if n < 127 then [char_of n]
      else if n < 65536 then hex_escape n
      else hex_escape (55296 + (n - 65536) div 1024) @ hex_escape (56320 + (n - 65536) mod 1024))"

definition json_ascii :: "string \<Rightarrow> string" where
  "json_ascii t = concat (map ascii_point (code_points t))"

definition ascii_json :: "pyval \<Rightarrow> bytes result" where
  "ascii_json v =
     (case json_dumps (sort_keys v) of
        None \<Rightarrow> Inl Outside_model
      | Some t \<Rightarrow> Inr (json_ascii t @ [char_of (10 :: nat)]))"

section \<open>Code points of a concatenation\<close>

declare code_points.simps(2) [simp del]

lemma code_points_step:
  "s \<noteq> [] \<Longrightarrow> code_points s = decode_point (take (point_width s) s) # code_points (drop (point_width s) s)"
  by (cases s) (simp_all add: code_points.simps(2))

lemma code_points_append:
  assumes "gen_utf8 True s"
  shows "code_points (s @ t) = code_points s @ code_points t"
  using assms
proof (induction "True" s rule: gen_utf8.induct)
  case (1 s)
  show ?case
  proof (cases "s = []")
    case False
    let ?w = "utf8_width True s"
    from False "1.prems" have w: "?w \<noteq> 0" and v: "gen_utf8 True (drop ?w s)"
      by (subst (asm) gen_utf8.simps; simp split: if_splits)+
    then have "point_width s = ?w" "point_width (s @ t) = ?w"
      by (simp_all add: point_width_def utf8_width_append)
    then show ?thesis
      using False "1.hyps" w v utf8_width_le [of True s]
      by (simp add: code_points_step [of s] code_points_step [of "s @ t"])
  qed simp
qed

lemma json_ascii_append: "gen_utf8 True s \<Longrightarrow> json_ascii (s @ t) = json_ascii s @ json_ascii t"
  by (simp add: json_ascii_def code_points_append)

lemma code_points_ascii: "ord_of c < 128 \<Longrightarrow> code_points (c # s) = ord_of c # code_points s"
  by (simp add: code_points_step point_width_def utf8_width_ascii)

lemma json_ascii_Cons: "ord_of c < 127 \<Longrightarrow> json_ascii (c # s) = c # json_ascii s"
  by (simp add: json_ascii_def code_points_ascii ascii_point_def)

lemma json_ascii_Nil [simp]: "json_ascii [] = []"
  by (simp add: json_ascii_def)

lemma json_ascii_plain: "list_all (\<lambda>c. ord_of c < 127) s \<Longrightarrow> json_ascii (s @ t) = s @ json_ascii t"
  by (induction s) (simp_all add: json_ascii_Cons)

section \<open>One character\<close>

lemma hex_digits_sum: "4096 * (n div 4096) + 256 * (n div 256 mod 16) + 16 * (n div 16 mod 16) + n mod 16 = (n :: nat)"
proof -
  define a b c where "a = n div 16" and "b = a div 16" and "c = b div 16"
  have "n div 4096 = c" "n div 256 = b" "n div 16 = a"
    by (simp_all add: a_def b_def c_def flip: div_mult2_eq)
  moreover have "16 * c + b mod 16 = b" "16 * b + a mod 16 = a" "16 * a + n mod 16 = n"
    by (simp_all only: a_def b_def c_def mult_div_mod_eq)
  ultimately show ?thesis by simp
qed

lemma hex4_hex_escape: "n < 65536 \<Longrightarrow> hex4 (drop 2 (hex_escape n) @ r) = Some n"
proof -
  assume "n < 65536"
  then have "n div 4096 < 16" by (intro less_mult_imp_div_less) simp
  then show ?thesis by (simp add: hex_escape_def hex_value_hex_char hex_digits_sum)
qed

lemma hex_escape_split: "hex_escape n = CHR 0x5C # CHR ''u'' # drop 2 (hex_escape n)"
  by (simp add: hex_escape_def)

lemma scan_unicode:
  "hex4 r1 = Some u \<Longrightarrow>
     scan_string (CHR 0x5C # CHR ''u'' # r1) =
       (case low_surrogate u (drop 4 r1) of
          Some l \<Rightarrow> prepend (utf8_of (65536 + (u - 55296) * 1024 + (l - 56320))) (scan_string (drop 10 r1))
        | None \<Rightarrow> prepend (utf8_of u) (scan_string (drop 4 r1)))"
  by (subst scan_string.simps(2)) simp

lemma scan_hex_escape:
  assumes "n < 65536" and "low_surrogate n r = None"
  shows "scan_string (hex_escape n @ r) = prepend (utf8_of n) (scan_string r)"
proof -
  have "drop 4 (drop 2 (hex_escape n) @ r) = r" by (simp add: hex_escape_def)
  then show ?thesis
    using assms scan_unicode [OF hex4_hex_escape [OF assms(1), of r]]
    by (subst hex_escape_split) simp
qed

lemma scan_hex_pair:
  assumes "hi < 1024" and "lo < 1024"
  shows "scan_string (hex_escape (55296 + hi) @ hex_escape (56320 + lo) @ r) =
           prepend (utf8_of (65536 + hi * 1024 + lo)) (scan_string r)"
proof -
  let ?r = "hex_escape (56320 + lo) @ r"
  have "low_surrogate (55296 + hi) ?r = Some (56320 + lo)"
    using assms hex4_hex_escape [of "56320 + lo" r] by (simp add: low_surrogate_def hex_escape_def)
  moreover have "drop 4 (drop 2 (hex_escape (55296 + hi)) @ ?r) = ?r"
    "drop 10 (drop 2 (hex_escape (55296 + hi)) @ ?r) = r" by (simp_all add: hex_escape_def)
  ultimately show ?thesis
    using assms scan_unicode [OF hex4_hex_escape [of "55296 + hi" ?r]]
    by (subst hex_escape_split) simp
qed

lemma scan_ascii_point:
  assumes "127 \<le> n" and "n < 1114112" and "n < 55296 \<or> 57343 < n"
  shows "scan_string (ascii_point n @ r) = prepend (utf8_of n) (scan_string r)"
proof (cases "n < 65536")
  case True
  moreover have "low_surrogate n r = None" using assms(3) by (auto simp: low_surrogate_def)
  ultimately show ?thesis using assms(1) by (simp add: ascii_point_def scan_hex_escape)
next
  case False
  then have "65536 + (n - 65536) div 1024 * 1024 + (n - 65536) mod 1024 = n"
    using div_mult_mod_eq [of "n - 65536" 1024] by linarith
  moreover have "(n - 65536) div 1024 < 1024" using assms False by (simp add: less_mult_imp_div_less)
  ultimately show ?thesis
    using False scan_hex_pair [of "(n - 65536) div 1024" "(n - 65536) mod 1024" r] by (simp add: ascii_point_def)
qed

text \<open>Decoding the bytes of a character and encoding its code point again.\<close>

lemma byte_split: "128 \<le> x \<Longrightarrow> x < 192 \<Longrightarrow> 128 + (x - 128) mod 64 = (x :: nat)"
  by simp

lemma cont_range: "is_cont c \<Longrightarrow> 128 \<le> ord_of c \<and> ord_of c < 192"
  by (auto simp: is_cont_def)

lemma point2:
  assumes "utf8_ok2 (ord_of a) b"
  shows "utf8_of (decode_point [a, b]) = [a, b]" "128 \<le> decode_point [a, b]" "decode_point [a, b] < 2048"
proof -
  from assms cont_range [of b] have r: "194 \<le> ord_of a" "ord_of a < 224" "128 \<le> ord_of b" "ord_of b < 192"
    by (auto simp: utf8_ok2_def)
  define x y where "x = ord_of a - 192" and "y = ord_of b - 128"
  with r have xy: "2 \<le> x" "x < 32" "y < 64" "a = char_of (192 + x)" "b = char_of (128 + y)"
    by (auto simp flip: ord_of_inject)
  have d: "decode_point [a, b] = x * 64 + y" by (simp add: x_def y_def)
  then show "128 \<le> decode_point [a, b]" "decode_point [a, b] < 2048" using xy by auto
  then show "utf8_of (decode_point [a, b]) = [a, b]"
    unfolding d utf8_of_def using xy by simp
qed

lemma point3:
  assumes "utf8_ok3 False (ord_of a) b c"
  shows "utf8_of (decode_point [a, b, c]) = [a, b, c]" "2048 \<le> decode_point [a, b, c]"
    "decode_point [a, b, c] < 65536" "decode_point [a, b, c] < 55296 \<or> 57343 < decode_point [a, b, c]"
proof -
  from assms cont_range [of b] cont_range [of c]
  have r: "224 \<le> ord_of a" "ord_of a < 240" "128 \<le> ord_of b" "ord_of b < 192" "128 \<le> ord_of c" "ord_of c < 192"
    "ord_of a = 224 \<longrightarrow> 160 \<le> ord_of b" "ord_of a = 237 \<longrightarrow> ord_of b < 160"
    by (auto simp: utf8_ok3_def)
  define x y z where "x = ord_of a - 224" and "y = ord_of b - 128" and "z = ord_of c - 128"
  with r have xyz: "x < 16" "y < 64" "z < 64" "x = 0 \<longrightarrow> 32 \<le> y" "x = 13 \<longrightarrow> y < 32"
    "a = char_of (224 + x)" "b = char_of (128 + y)" "c = char_of (128 + z)"
    by (auto simp flip: ord_of_inject)
  have d: "decode_point [a, b, c] = x * 4096 + y * 64 + z" by (simp add: x_def y_def z_def)
  show l: "2048 \<le> decode_point [a, b, c]" unfolding d using xyz by (cases "x = 0") auto
  show u: "decode_point [a, b, c] < 65536" unfolding d using xyz by auto
  show "decode_point [a, b, c] < 55296 \<or> 57343 < decode_point [a, b, c]"
    unfolding d using xyz by (cases "x = 13"; cases "x < 13") auto
  have "(x * 4096 + y * 64 + z) div 4096 = x" using xyz by simp
  moreover have "(x * 4096 + y * 64 + z) div 64 = x * 64 + y" using xyz by simp
  moreover have "(x * 64 + y) mod 64 = y" "(x * 4096 + y * 64 + z) mod 64 = z"
    using xyz mod_mult_self1 [of z "x * 64 + y" 64] by (simp_all add: algebra_simps)
  ultimately show "utf8_of (decode_point [a, b, c]) = [a, b, c]"
    using l u xyz(6-8) unfolding d utf8_of_def by simp
qed

lemma point4:
  assumes "utf8_ok4 (ord_of a) b c e"
  shows "utf8_of (decode_point [a, b, c, e]) = [a, b, c, e]" "65536 \<le> decode_point [a, b, c, e]"
    "decode_point [a, b, c, e] < 1114112"
proof -
  from assms cont_range [of b] cont_range [of c] cont_range [of e]
  have r: "240 \<le> ord_of a" "ord_of a < 245" "128 \<le> ord_of b" "ord_of b < 192" "128 \<le> ord_of c" "ord_of c < 192"
    "128 \<le> ord_of e" "ord_of e < 192" "ord_of a = 240 \<longrightarrow> 144 \<le> ord_of b" "ord_of a = 244 \<longrightarrow> ord_of b < 144"
    by (auto simp: utf8_ok4_def)
  define x y z w where "x = ord_of a - 240" and "y = ord_of b - 128" and "z = ord_of c - 128"
    and "w = ord_of e - 128"
  with r have xyz: "x < 5" "y < 64" "z < 64" "w < 64" "x = 0 \<longrightarrow> 16 \<le> y" "x = 4 \<longrightarrow> y < 16"
    "a = char_of (240 + x)" "b = char_of (128 + y)" "c = char_of (128 + z)" "e = char_of (128 + w)"
    by (auto simp flip: ord_of_inject)
  have d: "decode_point [a, b, c, e] = x * 262144 + y * 4096 + z * 64 + w"
    by (simp add: x_def y_def z_def w_def)
  show l: "65536 \<le> decode_point [a, b, c, e]" unfolding d using xyz by (cases "x = 0") auto
  show "decode_point [a, b, c, e] < 1114112" unfolding d using xyz by (cases "x = 4"; cases "x < 4") auto
  have "(x * 262144 + y * 4096 + z * 64 + w) div 262144 = x"
    "(x * 262144 + y * 4096 + z * 64 + w) div 4096 = x * 64 + y"
    "(x * 262144 + y * 4096 + z * 64 + w) div 64 = x * 4096 + y * 64 + z" using xyz by simp_all
  moreover have "(x * 64 + y) mod 64 = y" "(x * 4096 + y * 64 + z) mod 64 = z"
    "(x * 262144 + y * 4096 + z * 64 + w) mod 64 = w"
    using xyz mod_mult_self1 [of z "x * 64 + y" 64] mod_mult_self1 [of w "x * 4096 + y * 64 + z" 64]
    by (simp_all add: algebra_simps)
  ultimately show "utf8_of (decode_point [a, b, c, e]) = [a, b, c, e]"
    using l xyz(7-10) unfolding d utf8_of_def by simp
qed

section \<open>Strings\<close>

text \<open>What precedes the first character beyond ASCII is copied, and each such character is read back.\<close>

lemma escape_is_ascii:
  assumes "ord_of c < 127"
  shows "list_all (\<lambda>c. ord_of c < 127) (json_escape c)"
  using assms by (auto simp: json_escape_def hex_char_def ord_escapes)

lemma scan_ascii_char:
  assumes "ord_of c < 128"
  shows "scan_string (json_ascii (json_escape c @ t) @ r) = prepend [c] (scan_string (json_ascii t @ r))"
proof (cases "ord_of c = 127")
  case True
  then have esc: "json_escape c = [c]"
    by (auto simp: json_escape_def ord_escapes simp flip: ord_of_inject)
  have "utf8_of 127 = [c]" using True by (simp add: utf8_of_def flip: ord_of_inject)
  then show ?thesis
    using True scan_ascii_point [of 127 "json_ascii t @ r"]
    by (simp add: esc json_ascii_def code_points_ascii)
next
  case False
  then have "ord_of c < 127" using assms by simp
  from json_ascii_plain [OF escape_is_ascii [OF this], of t] show ?thesis
    by (simp add: scan_string_escape)
qed

lemma scan_wide_char:
  assumes "code_points s = decode_point p # code_points t" and "utf8_of (decode_point p) = p"
    and "127 \<le> decode_point p" "decode_point p < 1114112"
    and "decode_point p < 55296 \<or> 57343 < decode_point p"
  shows "scan_string (json_ascii s @ r) = prepend p (scan_string (json_ascii t @ r))"
  using assms scan_ascii_point [OF assms(3-5), of "json_ascii t @ r"] by (simp add: json_ascii_def)

lemma valid_utf8_points:
  assumes "valid_utf8 s"
  obtains "s = []"
  | a r where "s = a # r" "ord_of a < 128" "valid_utf8 r"
  | p r where "s = p @ r" "p \<noteq> []" "valid_utf8 r" "list_all (\<lambda>c. 128 \<le> ord_of c) p"
      "\<And>t. code_points (p @ t) = decode_point p # code_points t" "utf8_of (decode_point p) = p"
      "127 \<le> decode_point p" "decode_point p < 1114112"
      "decode_point p < 55296 \<or> 57343 < decode_point p"
proof (cases "s = []")
  case False
  define w where "w = utf8_width False s"
  from assms False have w: "w \<noteq> 0" and r: "valid_utf8 (drop w s)"
    unfolding w_def by (subst (asm) gen_utf8.simps; simp split: if_splits)+
  show ?thesis
  proof (cases "ord_of (hd s) < 128")
    case True
    then show ?thesis using that(2) [of "hd s" "tl s"] False r utf8_width_ascii [of "hd s" False "tl s"]
      by (simp add: w_def drop_Suc)
  next
    case ascii: False
    define p where "p = take w s"
    have wide: "(\<exists>a b. p = [a, b] \<and> utf8_ok2 (ord_of a) b) \<or> (\<exists>a b c. p = [a, b, c] \<and> utf8_ok3 False (ord_of a) b c)
        \<or> (\<exists>a b c d. p = [a, b, c, d] \<and> utf8_ok4 (ord_of a) b c d)"
      using w ascii unfolding w_def p_def
      by (cases "(False, s)" rule: utf8_width.cases) (auto split: if_splits)
    have "utf8_width True (p @ t) = length p" for t
      using wide ascii utf8_width_append [of True p t]
      by (auto simp: utf8_ok2_def utf8_ok3_def utf8_ok4_def)
    moreover from wide have p: "p \<noteq> []" and "max (Suc 0) (length p) = length p" by auto
    ultimately have "code_points (p @ t) = decode_point p # code_points t" for t
      by (simp add: code_points_step point_width_def)
    moreover from wide have "list_all (\<lambda>c. 128 \<le> ord_of c) p"
      using cont_range by (fastforce simp: utf8_ok2_def utf8_ok3_def utf8_ok4_def)
    moreover have "utf8_of (decode_point p) = p \<and> 127 \<le> decode_point p \<and> decode_point p < 1114112
        \<and> (decode_point p < 55296 \<or> 57343 < decode_point p)"
      using wide
    proof (elim disjE exE conjE)
      fix a b assume "p = [a, b]" "utf8_ok2 (ord_of a) b"
      then show ?thesis using point2 [of a b] by (simp del: decode_point.simps)
    next
      fix a b c assume "p = [a, b, c]" "utf8_ok3 False (ord_of a) b c"
      then show ?thesis using point3 [of a b c] by (simp del: decode_point.simps)
    next
      fix a b c d assume "p = [a, b, c, d]" "utf8_ok4 (ord_of a) b c d"
      then show ?thesis using point4 [of a b c d] by (simp del: decode_point.simps)
    qed
    ultimately show ?thesis
      using p r by (intro that(3) [of p "drop w s"]) (simp_all add: p_def)
  qed
qed (rule that(1))

lemma scan_ascii_string:
  "valid_utf8 s \<Longrightarrow> scan_string (json_ascii (concat (map json_escape s) @ CHR 0x22 # t)) = Inr (s, json_ascii t)"
proof (induction s rule: length_induct)
  case (1 s)
  from "1.prems" show ?case
  proof (cases rule: valid_utf8_points)
    case 1
    then show ?thesis by (simp add: json_ascii_Cons ord_escapes scan_string.simps(2))
  next
    case (2 a r)
    then show ?thesis
      using "1.IH" scan_ascii_char [of a "concat (map json_escape r) @ CHR 0x22 # t" "[]"] by simp
  next
    case (3 p r)
    let ?rest = "concat (map json_escape r) @ CHR 0x22 # t"
    have "scan_string (json_ascii (p @ ?rest) @ []) = prepend p (scan_string (json_ascii ?rest @ []))"
      by (rule scan_wide_char) (use 3 in auto)
    then show ?thesis
      using 3 "1.IH" json_escape_high [OF 3(4)] by simp
  qed
qed

section \<open>Flat documents\<close>

text \<open>The values of a flat record: no containers, no floats, and strings that can be encoded.\<close>

fun flat_val :: "pyval \<Rightarrow> bool" where
  "flat_val (PStr s) = valid_utf8 s"
| "flat_val (PFloat q) = False"
| "flat_val (PNonFinite c) = False"
| "flat_val (PList xs) = False"
| "flat_val (PDict d) = False"
| "flat_val _ = True"

definition flat_dict :: "pydict \<Rightarrow> bool" where
  "flat_dict d \<longleftrightarrow> list_all (\<lambda>kv. valid_utf8 (fst kv) \<and> flat_val (snd kv)) d"

lemma flat_dict_simps [simp]:
  "flat_dict []" "flat_dict ((k, v) # d) \<longleftrightarrow> valid_utf8 k \<and> flat_val v \<and> flat_dict d"
  by (simp_all add: flat_dict_def)

lemma json_ascii_json_string:
  "json_ascii (json_string s @ t) = CHR 0x22 # json_ascii (concat (map json_escape s) @ CHR 0x22 # t)"
  by (simp add: json_string_def json_ascii_Cons ord_escapes)

definition closer :: "char \<Rightarrow> bool" where
  "closer c \<longleftrightarrow> c = CHR '','' \<or> c = CHR ''}''"

lemma closer_facts: "closer c \<Longrightarrow> ord_of c < 127 \<and> \<not> is_ws c \<and> follow_ok (c # r)"
  by (auto simp: closer_def ord_escapes)

lemma digits_ascii: "list_all is_digit ds \<Longrightarrow> list_all (\<lambda>c. ord_of c < 127) ds"
  by (auto simp: list_all_iff is_digit_def)

lemma int_repr_ascii: "int_repr i = Some t \<Longrightarrow> list_all (\<lambda>c. ord_of c < 127) t"
  using digits_ascii [OF nat_repr_digits, of "nat \<bar>i\<bar>"]
  by (auto simp: int_repr_def Let_def ord_escapes split: if_splits)

lemma json_value_flat:
  assumes "json_dumps v = Some t" and "flat_val v" and "closer c"
  shows "json_value h (Suc n) (json_ascii (t @ c # r)) = Inr (v, c # json_ascii r)"
proof -
  note c = closer_facts [OF assms(3), of "json_ascii r"]
  then have tail: "json_ascii (c # r) = c # json_ascii r" by (simp add: json_ascii_Cons)
  show ?thesis
  proof (cases v)
    case (PInt i)
    with assms(1) have t: "int_repr i = Some t" by simp
    show ?thesis
      using json_value_number [OF t, of "c # json_ascii r" h n] c PInt
      by (simp add: json_ascii_plain [OF int_repr_ascii [OF t]] tail)
  next
    case (PStr s)
    then have t: "t = json_string s" and "valid_utf8 s" using assms by auto
    then show ?thesis
      using scan_ascii_string [of s "c # r"] PStr
      by (simp add: t json_ascii_json_string json_value.simps tail)
  next
    case PNone
    then have t: "t = ''null''" using assms(1) by simp
    show ?thesis using json_value_literals(1) [of h n "c # json_ascii r"] PNone
      by (simp add: t tail json_ascii_Cons ord_of_def)
  next
    case (PBool b)
    then have t: "t = (if b then ''true'' else ''false'')" using assms(1) by simp
    show ?thesis
      using json_value_literals(2,3) [of h n "c # json_ascii r"] PBool
      by (cases b) (simp_all add: t tail json_ascii_Cons ord_of_def)
  qed (use assms in simp_all)
qed

lemma flat_start:
  assumes "json_dumps v = Some t" and "flat_val v"
  shows "skip_ws (json_ascii (t @ r)) = json_ascii (t @ r)"
proof -
  obtain c u where t: "t = c # u" "\<not> is_ws c"
    using json_dumps_start [OF assms(1)] by (auto simp: value_start_def)
  have "ord_of c < 127"
  proof (cases v)
    case (PInt i)
    then show ?thesis using assms(1) t int_repr_ascii [of i t] by simp
  qed (use assms t in \<open>auto simp: json_string_def ord_of_def split: if_splits\<close>)
  then show ?thesis using t by (simp add: json_ascii_Cons skip_ws_Cons)
qed

lemma json_members_flat:
  "dump_members d = Some t \<Longrightarrow> flat_dict d \<Longrightarrow> d \<noteq> [] \<Longrightarrow> length d < n \<Longrightarrow>
     json_members h n (json_ascii (t @ r)) = Inr (d, json_ascii r)"
proof (induction d arbitrary: t n)
  case Nil
  then show ?case by simp
next
  case (Cons kv d)
  obtain k v where kv: "kv = (k, v)" by fastforce
  with Cons.prems obtain t0 where t0: "json_dumps v = Some t0" and flat: "valid_utf8 k" "flat_val v" "flat_dict d"
    by (auto split: option.splits)
  from Cons.prems obtain m where n: "n = Suc (Suc m)" by (cases n; cases "n - 1") auto
  define c u where "c = (if d = [] then CHR ''}'' else CHR '','')"
    and "u = (if d = [] then r else the (dump_members d) @ r)"
  have t: "t @ r = json_string k @ CHR '':'' # t0 @ c # u"
    using Cons.prems kv t0 by (auto simp: c_def u_def split: if_splits option.splits)
  have c: "closer c" by (simp add: c_def closer_def)
  have "json_value h (Suc m) (json_ascii (t0 @ c # u)) = Inr (v, c # json_ascii u)"
    by (rule json_value_flat [OF t0 flat(2) c])
  moreover have "scan_string (json_ascii (concat (map json_escape k) @ CHR 0x22 # CHR '':'' # t0 @ c # u)) =
      Inr (k, CHR '':'' # json_ascii (t0 @ c # u))"
    using scan_ascii_string [OF flat(1)] by (simp add: json_ascii_Cons ord_escapes)
  ultimately have step: "json_members h n (json_ascii (t @ r)) =
      (if d = [] then Inr ([(k, v)], json_ascii u)
       else rbind (json_members h (Suc m) (skip_ws (json_ascii u))) (\<lambda>(ps, r'). Inr ((k, v) # ps, r')))"
    using closer_facts [OF c] flat_start [OF t0 flat(2), of "c # u"] n
    by (simp add: t json_ascii_json_string json_members.simps skip_ws_Cons c_def)
  show ?case
  proof (cases d)
    case Nil
    with step kv show ?thesis by (simp add: u_def)
  next
    case (Cons kv' d')
    with Cons.prems kv t0 obtain t1 where t1: "dump_members d = Some t1"
      by (auto split: option.splits if_splits)
    obtain k' x where "t1 = json_string k' @ x"
      using t1 Cons by (cases kv') (auto split: option.splits if_splits)
    then have "skip_ws (json_ascii (t1 @ r)) = json_ascii (t1 @ r)"
      by (simp add: json_ascii_json_string skip_ws_Cons)
    then show ?thesis
      using Cons.IH [OF t1 flat(3), of "Suc m"] Cons.prems n step Cons kv t1 by (simp add: u_def)
  qed
qed

lemma flat_facts: "flat_val v \<Longrightarrow> sort_keys v = v \<and> strs_ok v \<and> wf_val v \<and> finite_val v"
  by (cases v) auto

lemma flat_sort_dict:
  assumes "flat_dict d"
  shows "sort_dict d = sort_key fst d" "flat_dict (sort_dict d)"
proof -
  have "map (map_prod id sort_keys) d = d"
    using assms flat_facts by (intro map_idI) (auto simp: flat_dict_def list_all_iff)
  then show "sort_dict d = sort_key fst d" by (simp add: sort_dict_def)
  then show "flat_dict (sort_dict d)" using assms by (simp add: flat_dict_def list_all_iff)
qed

lemma flat_strs_ok: "flat_dict d \<Longrightarrow> list_all (\<lambda>kv. valid_utf8 (fst kv) \<and> strs_ok (snd kv)) d"
  using flat_facts by (auto simp: flat_dict_def list_all_iff)

lemma json_ascii_length: "valid_utf8 s \<Longrightarrow> length (json_ascii t) \<le> length (json_ascii (s @ t))"
  by (simp add: json_ascii_append valid_utf8_surrogatepass)

text \<open>A document is at least as long as its list of members, so the scanner has fuel for it.\<close>

lemma json_ascii_members_length:
  "dump_members d = Some t \<Longrightarrow> flat_dict d \<Longrightarrow> length d \<le> length (json_ascii (t @ r))"
proof (induction d arbitrary: t)
  case Nil
  then show ?case by simp
next
  case (Cons kv d)
  obtain k v where kv: "kv = (k, v)" by fastforce
  with Cons.prems obtain t0 where t0: "json_dumps v = Some t0" and flat: "valid_utf8 k" "flat_val v" "flat_dict d"
    by (auto split: option.splits)
  define c u where "c = (if d = [] then CHR ''}'' else CHR '','')"
    and "u = (if d = [] then [] else the (dump_members d))"
  have t: "t = (json_string k @ CHR '':'' # t0) @ c # u"
    using Cons.prems kv t0 by (auto simp: c_def u_def split: if_splits option.splits)
  have "valid_utf8 (json_string k @ CHR '':'' # t0)"
    using flat flat_facts valid_utf8_json_dumps(1) [OF t0] by (simp add: valid_utf8_append valid_utf8_json_string)
  from json_ascii_length [OF this, of "c # u @ r"]
  have "length (json_ascii (c # u @ r)) \<le> length (json_ascii (t @ r))" by (simp add: t)
  moreover have "length (json_ascii (c # u @ r)) = Suc (length (json_ascii (u @ r)))"
    by (simp add: c_def json_ascii_Cons ord_escapes)
  moreover have "length d \<le> length (json_ascii (u @ r))"
  proof (cases d)
    case (Cons kv' d')
    with Cons.prems kv t0 obtain t1 where t1: "dump_members d = Some t1"
      by (auto split: option.splits if_splits)
    with Cons.IH [OF t1 flat(3)] Cons show ?thesis by (simp add: u_def)
  qed simp
  ultimately show ?case by simp
qed

context json_reader
begin

text \<open>Reading a flat document gives its record back, with the keys in order.\<close>

theorem loads_ascii_flat:
  assumes "ascii_json (PDict d) = Inr b" and "flat_dict d" and "distinct (map fst d)" and "d \<noteq> []"
  shows "json_loads h b = Inr (PDict (sort_dict d))"
proof -
  let ?d = "sort_dict d" and ?nl = "[char_of (10 :: nat)]"
  from assms(1) obtain m where m: "dump_members ?d = Some m" and b: "b = json_ascii (''{'' @ m) @ ?nl"
    by (auto simp: ascii_json_def split: option.splits)
  note flat = flat_sort_dict(2) [OF assms(2)]
  have "valid_utf8 m" using valid_utf8_json_dumps(3) [OF m] flat_strs_ok [OF flat] by simp
  then have b': "b = CHR ''{'' # json_ascii (m @ ?nl)"
    by (simp add: b json_ascii_Cons json_ascii_append valid_utf8_surrogatepass ord_escapes)
  have ne: "?d \<noteq> []" using assms(4) flat_sort_dict(1) [OF assms(2)] by (metis length_0_conv length_sort)
  then obtain k x where "m = json_string k @ x"
    using m by (cases ?d) (auto split: option.splits if_splits)
  then obtain y where y: "json_ascii (m @ ?nl) = CHR 0x22 # y" by (simp add: json_ascii_json_string)
  have "json_members h (Suc (2 * length b)) (json_ascii (m @ ?nl)) = Inr (?d, ?nl)"
    using json_members_flat [OF m flat ne, of "Suc (2 * length b)" h ?nl]
      json_ascii_members_length [OF m flat, of ?nl] b' by (simp add: json_ascii_Cons)
  moreover have "skip_ws b = b" by (simp add: b' skip_ws_Cons)
  moreover have "json_value h (Suc (Suc (2 * length b))) b =
      rbind (json_members h (Suc (2 * length b)) (json_ascii (m @ ?nl)))
        (\<lambda>(ps, r'). rbind (object_hook h ps) (\<lambda>v. Inr (v, r')))"
    using json_value_object(2) [of "CHR 0x22 # y" h "Suc (2 * length b)" "[]"]
    by (simp add: b' y value_start_def)
  moreover have "skip_ws ?nl = []" by (simp add: skip_ws_def is_ws_def)
  ultimately show ?thesis
    using hook_distinct [of ?d] assms(3) by (simp add: json_loads_def json_fuel_def)
qed

end

lemma ascii_json_cong: "sort_keys v = sort_keys w \<Longrightarrow> ascii_json v = ascii_json w"
  by (simp add: ascii_json_def)

lemma ascii_json_sorted: "flat_dict d \<Longrightarrow> ascii_json (PDict (sort_dict d)) = ascii_json (PDict d)"
  using flat_sort_dict [of d] flat_sort_dict(1) [of "sort_dict d"]
  by (intro ascii_json_cong) (simp add: sort_key_id_if_sorted)

lemma hex_escape_ascii: "n < 65536 \<Longrightarrow> list_all (\<lambda>c. ord_of c < 128) (hex_escape n)"
proof -
  assume "n < 65536"
  then have "n div 4096 < 16" by (intro less_mult_imp_div_less) simp
  then show ?thesis by (simp add: hex_escape_def ord_hex_char ord_escapes)
qed

lemma ascii_point_ascii:
  assumes "n < 1114112"
  shows "list_all (\<lambda>c. ord_of c < 128) (ascii_point n)"
proof (cases "n < 65536")
  case False
  with assms have "(n - 65536) div 1024 < 1024" by (intro less_mult_imp_div_less) simp
  moreover have "(n - 65536) mod 1024 < 1024" by simp
  ultimately have "55296 + (n - 65536) div 1024 < 65536" "56320 + (n - 65536) mod 1024 < 65536" by linarith+
  then show ?thesis using False hex_escape_ascii by (simp add: ascii_point_def)
qed (simp add: ascii_point_def hex_escape_ascii)

lemma json_ascii_ascii: "valid_utf8 s \<Longrightarrow> list_all (\<lambda>c. ord_of c < 128) (json_ascii s)"
proof (induction s rule: length_induct)
  case (1 s)
  from "1.prems" show ?case
  proof (cases rule: valid_utf8_points)
    case 1
    then show ?thesis by simp
  next
    case (2 a r)
    then have "list_all (\<lambda>c. ord_of c < 128) (json_ascii r)" using "1.IH" by simp
    then show ?thesis using 2 ascii_point_ascii [of "ord_of a"]
      by (simp add: json_ascii_def code_points_ascii)
  next
    case (3 p r)
    then have "list_all (\<lambda>c. ord_of c < 128) (json_ascii r)" using "1.IH" by simp
    then show ?thesis using 3 ascii_point_ascii [of "decode_point p"] by (simp add: json_ascii_def)
  qed
qed

lemma ascii_json_valid:
  assumes "ascii_json (PDict d) = Inr b" and "flat_dict d"
  shows "valid_utf8 b"
proof -
  obtain t where t: "json_dumps (sort_keys (PDict d)) = Some t" and b: "b = json_ascii t @ [char_of (10 :: nat)]"
    using assms(1) unfolding ascii_json_def by (cases "json_dumps (sort_keys (PDict d))") auto
  have "valid_utf8 t"
    using valid_utf8_json_dumps(1) [OF t] flat_strs_ok [OF flat_sort_dict(2) [OF assms(2)]] by simp
  from json_ascii_ascii [OF this] show ?thesis by (simp add: b valid_utf8_ascii)
qed

section \<open>How long an ASCII document can be\<close>

lemma length_ascii_point: "length (ascii_point n) \<le> 12"
  by (simp add: ascii_point_def hex_escape_def)

lemma length_code_points: "length (code_points s) \<le> length s"
proof (induction s rule: length_induct)
  case (1 s)
  show ?case
  proof (cases "s = []")
    case False
    let ?u = "drop (point_width s) s"
    from False have shorter: "length ?u < length s" by (simp add: point_width_def)
    with 1 have "length (code_points ?u) \<le> length ?u" by blast
    with shorter have "Suc (length (code_points ?u)) \<le> length s" by linarith
    then show ?thesis using False by (simp add: code_points_step [of s])
  qed simp
qed

lemma length_json_ascii: "length (json_ascii t) \<le> 12 * length t"
proof -
  have "sum_list (map (\<lambda>n. length (ascii_point n)) ns) \<le> 12 * length ns" for ns
    by (induction ns) (use length_ascii_point in \<open>auto intro: add_mono\<close>)
  from this [of "code_points t"] show ?thesis
    using length_code_points [of t] by (simp add: json_ascii_def length_concat comp_def)
qed

lemma length_ascii_json:
  assumes "ascii_json (PDict d) = Inr b" and "flat_dict d"
  shows "length b \<le> 12 * dump_bound (PDict d) + 1"
proof -
  obtain t where t: "json_dumps (sort_keys (PDict d)) = Some t" and b: "b = json_ascii t @ [char_of (10 :: nat)]"
    using assms(1) unfolding ascii_json_def by (cases "json_dumps (sort_keys (PDict d))") auto
  have "sum_list (map f (sort_key fst d)) = sum_list (map f d)" for f :: "pystr \<times> pyval \<Rightarrow> nat"
    by (metis mset_map mset_sort sum_mset_sum_list)
  then have "dump_bound (sort_keys (PDict d)) = dump_bound (PDict d)"
    using flat_sort_dict(1) [OF assms(2)] by simp
  then show ?thesis using length_dumps(1) [OF t] length_json_ascii [of t] by (simp add: b)
qed

end
