(* ===== verification/Git_Capability.thy ===== *)
theory Git_Capability
  imports Regex Sha256 "HOL-Library.Product_Lexorder"
begin

text \<open>
  \<open>harbor/git_history_capability.py\<close>: the compiler that decides from a task's instruction
  whether an agent is granted access to the Git history that was there before the run, the record
  of its decision, and the validator of such records.
\<close>

section \<open>Building patterns\<close>

definition cat :: "regex list \<Rightarrow> regex" where
  "cat rs = foldr Seq rs Nothing"

fun alts :: "regex list \<Rightarrow> regex" where
  "alts [] = Chars False []"
| "alts [r] = r"
| "alts (r # rs) = Alt r (alts rs)"

definition lit :: "string \<Rightarrow> regex" where
  "lit s = cat (map (\<lambda>c. Chars False [Point (ord_of c)]) s)"

abbreviation one_of :: "string list \<Rightarrow> regex" where
  "one_of ws \<equiv> alts (map lit ws)"

abbreviation opt :: "regex \<Rightarrow> regex" where
  "opt \<equiv> Repeat True 0 (Some 1)"

abbreviation spaces :: regex where
  "spaces \<equiv> Repeat True 1 None (Chars False [Space])"

text \<open>\<open>\b(?:w1|w2|...)\b\<close>.\<close>

abbreviation word_of :: "regex list \<Rightarrow> regex" where
  "word_of rs \<equiv> cat [Boundary, alts rs, Boundary]"

text \<open>\<open>[^.!?\n]{0,n}\<close>.\<close>

definition gap :: "nat \<Rightarrow> regex" where
  "gap n = Repeat True 0 (Some n) (Chars True [Point 46, Point 33, Point 63, Point 10])"

section \<open>The patterns of the policy\<close>

definition negation :: regex where
  "negation = word_of (map lit [''not'', ''never'', ''without'', ''don'' @ [CHR 0x27] @ ''t''])"

definition recovery_verbs :: "regex list" where
  "recovery_verbs = map lit [''recover'', ''restore'', ''retrieve'', ''reconstruct'']"

definition from_backup :: regex where
  "from_backup =
     cat [Boundary, one_of [''from'', ''using''], spaces,
          opt (cat [one_of [''the'', ''a'', ''an''], spaces]),
          opt (cat [one_of [''supplied'', ''provided'', ''saved'', ''local'', ''filesystem''], spaces]),
          one_of [''backup'', ''archive'', ''snapshot''], Boundary]"

definition non_history_recovery_source :: regex where
  "non_history_recovery_source =
     alts
       [cat [word_of recovery_verbs, gap 160, from_backup],
        cat [Boundary, lit ''not'', spaces, lit ''from'', spaces, opt (cat [lit ''the'', spaces]),
             opt (cat [one_of [''git'', ''commit'', ''repository''], spaces]), lit ''history'', Boundary],
        cat [from_backup, gap 160, word_of recovery_verbs]]"

definition analyse :: regex where
  "analyse = cat [lit ''analy'', Chars False [Point 115, Point 122], lit ''e'']"

definition look_through :: regex where
  "look_through = cat [lit ''look'', spaces, lit ''through'']"

definition reading_verbs :: "regex list" where
  "reading_verbs =
     [lit ''inspect'', analyse, lit ''review'', lit ''search'', lit ''examine'', lit ''read'', lit ''use'',
      lit ''trace'', look_through]"

definition explicit_history_action :: regex where
  "explicit_history_action =
     alts
       [cat [word_of (reading_verbs @ [lit ''bisect'']), gap 96, Boundary,
             opt (alts (map (\<lambda>w. cat [lit w, spaces]) [''git'', ''commit'', ''revision'', ''version''])),
             lit ''history'', Boundary],
        cat [word_of (reading_verbs @ map lit [''recover'', ''restore'']), gap 96, Boundary,
             lit ''reflog'', Boundary],
        cat [word_of (map lit [''recover'', ''restore'', ''find'', ''inspect'', ''compare'']), gap 96, Boundary,
             one_of [''deleted'', ''lost'', ''prior'', ''previous'', ''earlier'', ''old'', ''pre-existing''], spaces,
             one_of [''commit'', ''revision'', ''branch'', ''tag''], opt (lit ''s''), Boundary],
        cat [Boundary, lit ''compare'', Boundary, gap 96,
             word_of (map lit [''commits'', ''revisions'', ''branches'', ''tags''])],
        cat [word_of (map lit [''find'', ''identify'', ''locate'', ''determine'']), gap 96, Boundary,
             lit ''commit'', Boundary, gap 48,
             word_of (map lit [''introduced'', ''caused'', ''before'', ''after''])],
        cat [Boundary, opt (cat [lit ''git'', spaces]), lit ''bisect'', Boundary]]"

definition removed_words :: "regex list" where
  "removed_words = map lit [''removed'', ''deleted'', ''lost'', ''purged'']"

definition payload_noun :: regex where
  "payload_noun =
     cat [Boundary, one_of [''secret'', ''credential'', ''data'', ''file'', ''content'', ''value'', ''token''],
          opt (lit ''s''), Boundary]"

definition some_history :: regex where
  "some_history =
     cat [Boundary, opt (alts (map (\<lambda>w. cat [lit w, spaces]) [''git'', ''repository''])),
          lit ''history'', Boundary]"

definition rewriting :: regex where
  "rewriting = word_of [cat [lit ''rewrit'', one_of [''e'', ''ing'', ''ten'']], lit ''rewrote'']"

definition earlier_word :: regex where
  "earlier_word =
     cat [Boundary, one_of [''earlier'', ''previous'', ''prior'', ''old'', ''pre-existing''], spaces]"

text \<open>History is said to have been rewritten or lost, in the same or the previous sentence.\<close>

definition history_lost :: regex where
  "history_lost =
     alts
       [cat [payload_noun, gap 192, word_of removed_words, gap 128,
             alts [cat [rewriting, gap 64, some_history],
                   cat [some_history, gap 64, word_of (map lit [''rewritten'', ''rewrote''])]]],
        cat [earlier_word, opt (alts (map (\<lambda>w. cat [lit w, spaces]) [''git'', ''repository''])),
             lit ''history'', Boundary, gap 128, word_of (removed_words @ [lit ''rewritten''])]]"

definition sentence_break :: regex where
  "sentence_break =
     alts
       [Repeat True 0 (Some 64) (Chars False [Space, Point 44, Point 59, Point 58, Point 45]),
        cat [Chars False [Point 46, Point 33, Point 63],
             Repeat True 0 (Some 32) (Chars False [Point 9, Point 13, Point 10, Point 32]),
             opt (cat [lit ''please'', Boundary,
                       Repeat True 0 None (Chars False [Point 9, Point 13, Point 10, Point 32])]),
             opt (cat [Repeat True 1 None (Chars False [Digit]), Chars False [Point 46, Point 41],
                       Repeat True 0 None (Chars False [Point 9, Point 32])])]]"

definition rewritten_history_recovery :: regex where
  "rewritten_history_recovery =
     alts
       [cat [history_lost, gap 96, sentence_break, word_of recovery_verbs, gap 128, payload_noun],
        cat [word_of recovery_verbs, gap 128, payload_noun,
             Repeat False 0 (Some 256) (Chars True [Point 46, Point 33, Point 63, Point 10]),
             alts
               [cat [word_of removed_words, gap 128, rewriting, gap 64, some_history],
                cat [earlier_word, one_of [''commit'', ''revision'', ''history''], Boundary]]]]"

section \<open>The span that supports a grant\<close>

definition policy_flags :: "unicode \<Rightarrow> flags" where
  "policy_flags u = \<lparr>chardata = u, ignore_case = True\<rparr>"

text \<open>\<open>s.rfind(c, 0, hi)\<close> and \<open>s.find(c, lo)\<close>.\<close>

definition rfind :: "nat \<Rightarrow> nat list \<Rightarrow> nat \<Rightarrow> int" where
  "rfind c s hi =
     (case filter (\<lambda>i. s ! i = c) (rev [0..<min hi (length s)]) of [] \<Rightarrow> -1 | i # _ \<Rightarrow> int i)"

definition find_point :: "nat \<Rightarrow> nat list \<Rightarrow> nat \<Rightarrow> nat option" where
  "find_point c s lo = (case filter (\<lambda>i. s ! i = c) [lo..<length s] of [] \<Rightarrow> None | i # _ \<Rightarrow> Some i)"

definition sentence_stops :: "nat list" where
  "sentence_stops = [46, 33, 63, 10]"

text \<open>Where the sentence of a match begins and ends.\<close>

definition sentence_from :: "nat list \<Rightarrow> found \<Rightarrow> nat" where
  "sentence_from s m = nat (foldr max (map (\<lambda>c. rfind c s (found_start m)) sentence_stops) (-1) + 1)"

definition sentence_to :: "nat list \<Rightarrow> found \<Rightarrow> nat" where
  "sentence_to s m =
     foldr min (List.map_filter (\<lambda>c. find_point c s (found_end m)) sentence_stops) (length s)"

text \<open>The last \<open>n\<close> elements, \<open>xs[-n:]\<close>.\<close>

definition last_n :: "nat \<Rightarrow> 'a list \<Rightarrow> 'a list" where
  "last_n n xs = drop (length xs - n) xs"

definition supports :: "unicode \<Rightarrow> nat list \<Rightarrow> found \<times> bool \<Rightarrow> bool" where
  "supports u s entry =
     (let m = fst entry; f = policy_flags u;
          prefix = between s (sentence_from s m) (found_start m);
          recovery_clause = between s (sentence_from s m) (sentence_to s m)
      in search f negation (last_n 64 prefix) 0 = None
         \<and> search f negation (group0 s m) 0 = None
         \<and> (\<not> snd entry \<or> search f non_history_recovery_source recovery_clause 0 = None))"

text \<open>The matches in order; the flag marks those of the second pattern.\<close>

definition history_matches :: "unicode \<Rightarrow> nat list \<Rightarrow> (found \<times> bool) list" where
  "history_matches u s =
     sort_key (\<lambda>e. (found_start (fst e), found_end (fst e)))
       (map (\<lambda>m. (m, False)) (find_all (policy_flags u) explicit_history_action s 0)
        @ map (\<lambda>m. (m, True)) (find_all (policy_flags u) rewritten_history_recovery s 0))"

definition supporting_match :: "unicode \<Rightarrow> nat list \<Rightarrow> found option" where
  "supporting_match u s = map_option fst (find (supports u s) (history_matches u s))"

definition supporting_span :: "unicode \<Rightarrow> pyval \<Rightarrow> pystr option result" where
  "supporting_span u instruction =
     (case instruction of
        PStr t \<Rightarrow>
          ensure (\<not> list_all is_space_point (code_points t)) (ValueError ''canonical_instruction_invalid'')
            (Inr (map_option (\<lambda>m. of_points (group0 (code_points t) m))
                    (supporting_match u (code_points t))))
      | _ \<Rightarrow> Inl (ValueError ''canonical_instruction_invalid''))"

section \<open>The compiler and the validator\<close>

definition history_required :: pystr where
  "history_required = ''required''"

definition history_not_required :: pystr where
  "history_not_required = ''not_required''"

definition capability_keys :: "pystr list" where
  "capability_keys =
     [''schema_version'', ''policy_version'', ''git_history_access'', ''canonical_instruction_sha256'',
      ''trusted_manifest_sha256'', ''supporting_span_sha256'']"

definition access_of :: "pystr option \<Rightarrow> pystr" where
  "access_of spn = (if spn = None then history_not_required else history_required)"

definition compile_git_history_access :: "unicode \<Rightarrow> pyval \<Rightarrow> pystr result" where
  "compile_git_history_access u instruction =
     rbind (supporting_span u instruction) (\<lambda>spn. Inr (access_of spn))"

definition source_digest_valid :: "pyval \<Rightarrow> bool" where
  "source_digest_valid v = (case v of PStr s \<Rightarrow> is_sha256_hex s | _ \<Rightarrow> False)"

definition sha256_text :: "pystr \<Rightarrow> pystr result" where
  "sha256_text s = rbind (py_encode s) (\<lambda>b. Inr (sha256_hex b))"

definition compile_git_history_capability :: "unicode \<Rightarrow> pyval \<Rightarrow> pyval \<Rightarrow> pydict result" where
  "compile_git_history_capability u instruction manifest =
     ensure (source_digest_valid manifest) (ValueError ''trusted_manifest_digest_invalid'')
       (rbind (supporting_span u instruction) (\<lambda>spn.
        rbind (case instruction of PStr t \<Rightarrow> sha256_text t | _ \<Rightarrow> Inl AttributeError) (\<lambda>digest.
        rbind (case spn of None \<Rightarrow> Inr PNone | Some t \<Rightarrow> rbind (sha256_text t) (\<lambda>d. Inr (PStr d))) (\<lambda>evidence.
          Inr [(''schema_version'', PStr ''nano-git-history-capability-v1''),
               (''policy_version'', PStr ''nano-git-history-capability-policy-v2''),
               (''git_history_access'', PStr (access_of spn)),
               (''canonical_instruction_sha256'', PStr digest),
               (''trusted_manifest_sha256'', manifest),
               (''supporting_span_sha256'', evidence)]))))"

definition capability_error :: py_error where
  "capability_error = ValueError ''git_history_capability_invalid''"

definition validate_git_history_capability :: "unicode \<Rightarrow> pyval \<Rightarrow> pyval \<Rightarrow> pyval \<Rightarrow> pydict result" where
  "validate_git_history_capability u v instruction manifest =
     rbind (catch is_value_error (compile_git_history_capability u instruction manifest) (Inl capability_error))
       (\<lambda>expected.
          case v of
            PDict observed \<Rightarrow>
              ensure (keys_are observed capability_keys \<and> py_eq v (PDict expected)) capability_error (Inr expected)
          | _ \<Rightarrow> Inl capability_error)"

section \<open>What a grant rests on\<close>

declare case_dict_Inr [simp] case_str_Inr [simp]

lemma rfind_0: "rfind c s 0 = -1"
  by (simp add: rfind_def)

lemma rfind_Suc: "hi < length s \<Longrightarrow> rfind c s (Suc hi) = (if s ! hi = c then int hi else rfind c s hi)"
  by (simp add: rfind_def)

lemma rfind_less: "hi \<le> length s \<Longrightarrow> rfind c s hi < int hi"
  by (induction hi) (auto simp: rfind_0 rfind_Suc)

lemma rfind_after: "hi \<le> length s \<Longrightarrow> rfind c s hi < int i \<Longrightarrow> i < hi \<Longrightarrow> s ! i \<noteq> c"
  by (induction hi) (auto simp: rfind_Suc less_Suc_eq split: if_splits)

lemma rfind_at: "hi \<le> length s \<Longrightarrow> rfind c s hi = -1 \<or> 0 \<le> rfind c s hi \<and> s ! nat (rfind c s hi) = c"
  by (induction hi) (auto simp: rfind_0 rfind_Suc)

text \<open>A sentence starts at the beginning of the text or behind the last stop before the match.\<close>

definition in_sentence :: "nat list \<Rightarrow> nat \<Rightarrow> nat \<Rightarrow> bool" where
  "in_sentence s k i \<longleftrightarrow> k \<le> i \<and> (\<forall>x. k \<le> x \<longrightarrow> x < i \<longrightarrow> s ! x \<notin> set sentence_stops)
     \<and> (0 < k \<longrightarrow> s ! (k - 1) \<in> set sentence_stops)"

lemma sentence_from_spec:
  assumes "found_start m \<le> length s"
  shows "in_sentence s (sentence_from s m) (found_start m)"
proof -
  let ?r = "\<lambda>c. rfind c s (found_start m)"
  define k where "k = foldr max (map ?r sentence_stops) (-1)"
  have upper: "?r c \<le> k" if "c \<in> set sentence_stops" for c
    using that by (auto simp: k_def sentence_stops_def)
  have pick: "k = -1 \<or> (\<exists>c \<in> set sentence_stops. k = ?r c)"
    by (simp add: k_def sentence_stops_def max_def)
  have after: "s ! x \<notin> set sentence_stops" if "k < int x" "x < found_start m" for x
  proof
    assume c: "s ! x \<in> set sentence_stops"
    from upper [OF c] that(1) have "?r (s ! x) < int x" by simp
    from rfind_after [OF assms this that(2)] show False by simp
  qed
  have bound: "k < int (found_start m)" using pick rfind_less [OF assms] by fastforce
  have stop: "s ! nat k \<in> set sentence_stops" if "k \<noteq> -1"
    using pick that rfind_at [OF assms] by fastforce
  have "-1 \<le> k" using pick rfind_at [OF assms] by (metis dual_order.refl dual_order.trans neg_le_0_iff_le zero_le_one)
  moreover have "sentence_from s m = nat (k + 1)" by (simp add: sentence_from_def k_def)
  moreover have "nat (k + 1) - Suc 0 = nat k" if "0 \<le> k" using that by (simp add: nat_add_distrib)
  ultimately show ?thesis
    using after bound stop by (auto simp: in_sentence_def)
qed

lemma history_matches_sound:
  assumes "(m, b) \<in> set (history_matches u s)"
  shows "found_start m \<le> length s"
    "matches (policy_flags u) s (if b then rewritten_history_recovery else explicit_history_action)
       (found_start m) (found_end m)"
  using assms find_all_matches [of m "policy_flags u" _ s 0] by (auto simp: history_matches_def)

lemma find_Some_in: "find P xs = Some x \<Longrightarrow> x \<in> set xs \<and> P x"
  by (auto simp: find_Some_iff)

lemma supporting_span_sound:
  assumes "supporting_span u (PStr t) = Inr (Some spn)"
  defines "s \<equiv> code_points t" and "f \<equiv> policy_flags u"
  obtains i j k where "i \<le> j" "j \<le> length s" "spn = of_points (between s i j)"
    "matches f s explicit_history_action i j \<or> matches f s rewritten_history_recovery i j"
    "in_sentence s k i" "search f negation (last_n 64 (between s k i)) 0 = None"
    "search f negation (between s i j) 0 = None"
proof -
  obtain m b where m: "find (supports u s) (history_matches u s) = Some (m, b)"
    "spn = of_points (group0 s m)"
    using assms(1) by (auto simp: supporting_span_def supporting_match_def s_def)
  then have mem: "(m, b) \<in> set (history_matches u s)" and sup: "supports u s (m, b)"
    using find_Some_in by metis+
  note sound = history_matches_sound [OF mem]
  show ?thesis
    using matches_bounds [OF sound(2,1)] sound sup m(2) sentence_from_spec [OF sound(1)]
    by (intro that [of "found_start m" "found_end m" "sentence_from s m"])
      (auto simp: supports_def Let_def group0_def f_def split: if_splits)
qed

lemma compile_capability_Inr:
  "compile_git_history_capability u (PStr t) mf = Inr d \<longleftrightarrow>
     source_digest_valid mf \<and> valid_utf8 t
     \<and> (\<exists>spn. supporting_span u (PStr t) = Inr spn \<and> (\<forall>x. spn = Some x \<longrightarrow> valid_utf8 x)
          \<and> d = [(''schema_version'', PStr ''nano-git-history-capability-v1''),
                 (''policy_version'', PStr ''nano-git-history-capability-policy-v2''),
                 (''git_history_access'', PStr (access_of spn)),
                 (''canonical_instruction_sha256'', PStr (sha256_hex t)),
                 (''trusted_manifest_sha256'', mf),
                 (''supporting_span_sha256'',
                    case spn of None \<Rightarrow> PNone | Some x \<Rightarrow> PStr (sha256_hex x))])"
  by (auto simp: compile_git_history_capability_def sha256_text_def rbind_Inr_iff split: option.splits)

text \<open>
  C16: an accepted record that grants access to pre-existing Git history rests on the instruction:
  some part of the text "[i, j)" is in the language of one of the two grant patterns, nothing in that
  part and nothing in the last 64 characters before it in its sentence is a negation, and the
  record carries the digests of exactly that part and of the whole instruction.
\<close>

theorem granted_history_is_supported:
  assumes "validate_git_history_capability u v (PStr t) manifest = Inr d"
    and "dict_get d ''git_history_access'' = PStr history_required"
  shows "\<exists>i j k. i \<le> j \<and> j \<le> length (code_points t)
    \<and> (matches (policy_flags u) (code_points t) explicit_history_action i j
       \<or> matches (policy_flags u) (code_points t) rewritten_history_recovery i j)
    \<and> in_sentence (code_points t) k i
    \<and> search (policy_flags u) negation (last_n 64 (between (code_points t) k i)) 0 = None
    \<and> search (policy_flags u) negation (between (code_points t) i j) 0 = None
    \<and> dict_get d ''supporting_span_sha256'' = PStr (sha256_hex (of_points (between (code_points t) i j)))
    \<and> dict_get d ''canonical_instruction_sha256'' = PStr (sha256_hex t)"
proof -
  have "compile_git_history_capability u (PStr t) manifest = Inr d"
    using assms(1)
    by (cases v) (auto simp: validate_git_history_capability_def rbind_Inr_iff)
  then obtain spn where spn: "supporting_span u (PStr t) = Inr spn"
    "dict_get d ''git_history_access'' = PStr (access_of spn)"
    "dict_get d ''canonical_instruction_sha256'' = PStr (sha256_hex t)"
    "dict_get d ''supporting_span_sha256'' = (case spn of None \<Rightarrow> PNone | Some x \<Rightarrow> PStr (sha256_hex x))"
    by (auto simp: compile_capability_Inr dict_get_def)
  with assms(2) obtain x where x: "spn = Some x"
    by (cases spn) (auto simp: access_of_def history_required_def history_not_required_def)
  show ?thesis
    by (rule supporting_span_sound [OF spn(1) [unfolded x]]) (use spn x in auto)
qed

definition plain_unicode :: unicode where
  "plain_unicode = \<lparr>alnum_points = (\<lambda>_. True), decimal_points = (\<lambda>_. False)\<rparr>"

definition bisect_points :: "nat list" where
  "bisect_points = [98, 105, 115, 101, 99, 116]"

definition bisect_match :: found where
  "bisect_match = \<lparr>found_start = 0, found_end = 6, found_groups = []\<rparr>"

lemma bisect_searches:
  "code_points ''bisect'' = bisect_points"
  "of_points (group0 bisect_points bisect_match) = ''bisect''"
  "find_all (policy_flags plain_unicode) explicit_history_action bisect_points 0 = [bisect_match]"
  "find_all (policy_flags plain_unicode) rewritten_history_recovery bisect_points 0 = []"
  "supports plain_unicode bisect_points (bisect_match, False)"
  by code_simp+

lemma bisect_span: "supporting_span plain_unicode (PStr ''bisect'') = Inr (Some ''bisect'')"
proof -
  have "\<not> list_all is_space_point bisect_points" by (simp add: bisect_points_def is_space_point_def)
  then show ?thesis
    by (simp add: supporting_span_def ensure_def supporting_match_def history_matches_def bisect_searches
        del: code_points.simps)
qed

lemma bisect_capability:
  "compile_git_history_capability plain_unicode (PStr ''bisect'') (PStr (replicate 64 CHR ''a'')) =
     Inr [(''schema_version'', PStr ''nano-git-history-capability-v1''),
          (''policy_version'', PStr ''nano-git-history-capability-policy-v2''),
          (''git_history_access'', PStr ''required''),
          (''canonical_instruction_sha256'', PStr (sha256_hex ''bisect'')),
          (''trusted_manifest_sha256'', PStr (replicate 64 CHR ''a'')),
          (''supporting_span_sha256'', PStr (sha256_hex ''bisect''))]"
proof -
  have "valid_utf8 ''bisect''" by (simp add: ord_of_def)
  moreover have "source_digest_valid (PStr (replicate 64 CHR ''a''))"
    by (simp add: source_digest_valid_def is_sha256_hex_def list_all_iff is_lower_hex_def ord_of_def)
  ultimately show ?thesis
    by (simp add: compile_capability_Inr bisect_span access_of_def history_required_def)
qed

text \<open>What the compiler produced is what the validator accepts.\<close>

lemma capability_accepted:
  assumes "compile_git_history_capability u i m = Inr d" and "wf_val (PDict d)" and "finite_val (PDict d)"
  shows "validate_git_history_capability u (PDict d) i m = Inr d"
  using assms
  by (auto simp: validate_git_history_capability_def compile_git_history_capability_def rbind_Inr_iff
      keys_are_def dict_keys_def capability_keys_def catch_def split: sum.splits)

theorem granted_history_is_supported_witness:
  "\<exists>i j k. i \<le> j \<and> j \<le> length (code_points ''bisect'')
    \<and> (matches (policy_flags plain_unicode) (code_points ''bisect'') explicit_history_action i j
       \<or> matches (policy_flags plain_unicode) (code_points ''bisect'') rewritten_history_recovery i j)
    \<and> in_sentence (code_points ''bisect'') k i
    \<and> search (policy_flags plain_unicode) negation (last_n 64 (between (code_points ''bisect'') k i)) 0 = None
    \<and> search (policy_flags plain_unicode) negation (between (code_points ''bisect'') i j) 0 = None
    \<and> PStr (sha256_hex ''bisect'') = PStr (sha256_hex (of_points (between (code_points ''bisect'') i j)))"
proof -
  have "validate_git_history_capability plain_unicode
      (PDict [(''schema_version'', PStr ''nano-git-history-capability-v1''),
          (''policy_version'', PStr ''nano-git-history-capability-policy-v2''),
          (''git_history_access'', PStr ''required''),
          (''canonical_instruction_sha256'', PStr (sha256_hex ''bisect'')),
          (''trusted_manifest_sha256'', PStr (replicate 64 CHR ''a'')),
          (''supporting_span_sha256'', PStr (sha256_hex ''bisect''))])
      (PStr ''bisect'') (PStr (replicate 64 CHR ''a'')) =
      Inr [(''schema_version'', PStr ''nano-git-history-capability-v1''),
          (''policy_version'', PStr ''nano-git-history-capability-policy-v2''),
          (''git_history_access'', PStr ''required''),
          (''canonical_instruction_sha256'', PStr (sha256_hex ''bisect'')),
          (''trusted_manifest_sha256'', PStr (replicate 64 CHR ''a'')),
          (''supporting_span_sha256'', PStr (sha256_hex ''bisect''))]"
    by (rule capability_accepted [OF bisect_capability]) simp_all
  from granted_history_is_supported [OF this]
  show ?thesis by (simp add: dict_get_def history_required_def)
qed

end
