(* ===== verification/Git_Receipt.thy ===== *)
theory Git_Receipt
  imports Json_Ascii Git_Capability File_System
begin

text \<open>
  \<open>harbor/git_history_receipt.py\<close> and the Python part of \<open>harbor/git_history_isolation.py\<close>: the
  receipt that the isolation of a workspace from its Git history leaves behind, its strict parser,
  and its second validation when the run is admitted. The shell programs that inspect and rewrite
  the repository run in the container and are not modelled: what they print is an input.
\<close>

section \<open>The receipt\<close>

definition receipt_error :: py_error where
  "receipt_error = RuntimeError ''git_history_baseline_receipt_invalid''"

definition history_receipt_name :: pystr where
  "history_receipt_name = ''git-history-baseline.json''"

definition history_receipt_keys :: "pystr list" where
  "history_receipt_keys =
     [''schema_version'', ''policy_version'', ''run_spec_sha256'', ''capability_instruction_sha256'',
      ''trusted_manifest_sha256'', ''topology_before'', ''topology_after'', ''admitted_repo_relative_path'',
      ''status'', ''census_before_sha256'', ''census_after_sha256'', ''filesystem_manifest_before_sha256'',
      ''filesystem_manifest_after_sha256'', ''source_commit_oid'', ''source_tree_oid'', ''root_commit_oid'',
      ''root_tree_oid'', ''preexisting_commit_count'', ''root_commit_count'', ''ref_count'',
      ''remote_count'', ''alternate_count'', ''old_metadata_removed'']"

definition hex_of_length :: "nat list \<Rightarrow> pyval \<Rightarrow> bool" where
  "hex_of_length lengths v =
     (case v of PStr s \<Rightarrow> length s \<in> set lengths \<and> list_all is_lower_hex s | _ \<Rightarrow> False)"

text \<open>\<open>v in {s1, s2, ...}\<close> on a set of strings: a list or a dictionary cannot be hashed.\<close>

definition in_strings :: "pyval \<Rightarrow> pystr list \<Rightarrow> bool result" where
  "in_strings v names =
     (case v of
        PStr s \<Rightarrow> Inr (s \<in> set names)
      | PList xs \<Rightarrow> Inl TypeError
      | PDict d \<Rightarrow> Inl TypeError
      | _ \<Rightarrow> Inr False)"

definition repo_relative_path :: "pyval \<Rightarrow> bool result" where
  "repo_relative_path v =
     (case v of
        PStr s \<Rightarrow>
          if s = ''.'' then Inr True
          else if s = [] then Inr False
          else rbind (py_encode s) (\<lambda>b.
            if length b > 4096 \<or> CHR 0x00 \<in> set s \<or> CHR 0x0A \<in> set s \<or> take 1 s = ''/'' then Inr False
            else Inr (path_str s = s \<and> list_all (\<lambda>part. part \<notin> {[], ''.'', ''..''}) (path_parts s)))
      | _ \<Rightarrow> Inr False)"

definition git_history_access :: "pyval \<Rightarrow> pystr result" where
  "git_history_access capability =
     (let err = RuntimeError ''git_history_capability_invalid'' in
      case capability of
        PDict d \<Rightarrow>
          ensure
            (keys_are d capability_keys
             \<and> py_eq (dict_get d ''schema_version'') (PStr ''nano-git-history-capability-v1'')
             \<and> py_eq (dict_get d ''policy_version'') (PStr ''nano-git-history-capability-policy-v2'')
             \<and> hex_of_length [64] (dict_get d ''canonical_instruction_sha256'')
             \<and> hex_of_length [64] (dict_get d ''trusted_manifest_sha256''))
            err
            (let access = dict_get d ''git_history_access''; spn = dict_get d ''supporting_span_sha256'' in
             ensure (\<not> (access = PStr history_required \<and> \<not> hex_of_length [64] spn)
                     \<and> \<not> (access = PStr history_not_required \<and> spn \<noteq> PNone)) err
               (rbind (in_strings access [history_required, history_not_required]) (\<lambda>known.
                  ensure known err
                    (case access of PStr a \<Rightarrow> Inr a | _ \<Rightarrow> Inl err))))
      | _ \<Rightarrow> Inl err)"

section \<open>Validating a receipt\<close>

definition count_fields :: "pystr list" where
  "count_fields =
     [''preexisting_commit_count'', ''root_commit_count'', ''ref_count'', ''remote_count'', ''alternate_count'']"

definition is_count :: "pyval \<Rightarrow> bool" where
  "is_count v = (case v of PInt i \<Rightarrow> 0 \<le> i | _ \<Rightarrow> False)"

definition is_bool :: "pyval \<Rightarrow> bool" where
  "is_bool v = (case v of PBool b \<Rightarrow> True | _ \<Rightarrow> False)"

text \<open>The clause of each status: what an absent, created, isolated or preserved history looks like.\<close>

definition absent_clean_ok :: "(pystr \<Rightarrow> pyval) \<Rightarrow> pystr \<Rightarrow> bool" where
  "absent_clean_ok g access \<longleftrightarrow>
     access = history_not_required
     \<and> py_eq (g ''topology_before'') (PStr ''zero'') \<and> py_eq (g ''topology_after'') (PStr ''zero'')
     \<and> g ''admitted_repo_relative_path'' = PNone
     \<and> g ''source_commit_oid'' = PNone \<and> g ''source_tree_oid'' = PNone
     \<and> g ''root_commit_oid'' = PNone \<and> g ''root_tree_oid'' = PNone
     \<and> py_eq (g ''preexisting_commit_count'') (PInt 0) \<and> py_eq (g ''root_commit_count'') (PInt 0)
     \<and> py_eq (g ''ref_count'') (PInt 0) \<and> py_eq (g ''remote_count'') (PInt 0)
     \<and> py_eq (g ''alternate_count'') (PInt 0) \<and> g ''old_metadata_removed'' = PBool False
     \<and> py_eq (g ''census_before_sha256'') (g ''census_after_sha256'')"

definition created_ok :: "(pystr \<Rightarrow> pyval) \<Rightarrow> bool" where
  "created_ok g \<longleftrightarrow>
     py_eq (g ''topology_before'') (PStr ''zero'') \<and> py_eq (g ''topology_after'') (PStr ''root'')
     \<and> py_eq (g ''admitted_repo_relative_path'') (PStr ''.'')
     \<and> g ''source_commit_oid'' = PNone \<and> g ''source_tree_oid'' = PNone
     \<and> py_eq (g ''preexisting_commit_count'') (PInt 0) \<and> py_eq (g ''root_commit_count'') (PInt 1)
     \<and> py_eq (g ''ref_count'') (PInt 1) \<and> py_eq (g ''remote_count'') (PInt 0)
     \<and> py_eq (g ''alternate_count'') (PInt 0) \<and> g ''old_metadata_removed'' = PBool False
     \<and> \<not> py_eq (g ''census_before_sha256'') (g ''census_after_sha256'')"

text \<open>Common to the two statuses of a workspace that holds a repository.\<close>

definition same_repository :: "(pystr \<Rightarrow> pyval) \<Rightarrow> bool" where
  "same_repository g \<longleftrightarrow>
     (g ''topology_before'' = PStr ''root'' \<or> g ''topology_before'' = PStr ''nested'')
     \<and> py_eq (g ''topology_after'') (g ''topology_before'')
     \<and> (g ''admitted_repo_relative_path'' = PStr ''.'') = (g ''topology_before'' = PStr ''root'')"

definition isolated_ok :: "(pystr \<Rightarrow> pyval) \<Rightarrow> bool" where
  "isolated_ok g \<longleftrightarrow>
     same_repository g
     \<and> hex_of_length [40, 64] (g ''source_commit_oid'') \<and> hex_of_length [40, 64] (g ''source_tree_oid'')
     \<and> py_eq (g ''root_commit_count'') (PInt 1) \<and> py_eq (g ''ref_count'') (PInt 1)
     \<and> py_eq (g ''remote_count'') (PInt 0) \<and> py_eq (g ''alternate_count'') (PInt 0)
     \<and> py_eq (g ''source_tree_oid'') (g ''root_tree_oid'') \<and> g ''old_metadata_removed'' = PBool True"

definition preserved_ok :: "(pystr \<Rightarrow> pyval) \<Rightarrow> bool" where
  "preserved_ok g \<longleftrightarrow>
     same_repository g
     \<and> py_eq (g ''source_commit_oid'') (g ''root_commit_oid'')
     \<and> py_eq (g ''source_tree_oid'') (g ''root_tree_oid'')
     \<and> py_eq (g ''preexisting_commit_count'') (g ''root_commit_count'')
     \<and> g ''old_metadata_removed'' = PBool False
     \<and> py_eq (g ''census_before_sha256'') (g ''census_after_sha256'')"

text \<open>The conditions that cannot raise, from the digests on.\<close>

definition receipt_facts_ok :: "(pystr \<Rightarrow> pyval) \<Rightarrow> pystr \<Rightarrow> bool" where
  "receipt_facts_ok g access \<longleftrightarrow>
     (let absent_clean = (g ''status'' = PStr ''absent_clean'') in
      list_all (\<lambda>k. hex_of_length [64] (g k))
        [''capability_instruction_sha256'', ''trusted_manifest_sha256'', ''census_before_sha256'',
         ''census_after_sha256'', ''filesystem_manifest_before_sha256'', ''filesystem_manifest_after_sha256'']
      \<and> (absent_clean \<or> hex_of_length [40, 64] (g ''root_commit_oid''))
      \<and> (absent_clean \<or> hex_of_length [40, 64] (g ''root_tree_oid''))
      \<and> (g ''source_commit_oid'' = PNone \<and> g ''source_tree_oid'' = PNone
         \<or> hex_of_length [40, 64] (g ''source_commit_oid'') \<and> hex_of_length [40, 64] (g ''source_tree_oid''))
      \<and> list_all (\<lambda>k. is_count (g k)) count_fields
      \<and> is_bool (g ''old_metadata_removed'')
      \<and> py_eq (g ''filesystem_manifest_before_sha256'') (g ''filesystem_manifest_after_sha256'')
      \<and> (absent_clean \<longrightarrow> absent_clean_ok g access)
      \<and> (g ''status'' = PStr ''created'' \<longrightarrow> created_ok g)
      \<and> (g ''status'' = PStr ''isolated'' \<longrightarrow> isolated_ok g)
      \<and> (g ''status'' = PStr ''preserved'' \<longrightarrow> preserved_ok g))"

definition check_history_receipt :: "pystr \<Rightarrow> pystr \<Rightarrow> pydict \<Rightarrow> pydict result" where
  "check_history_receipt run_hash access d =
     (let g = dict_get d; status = g ''status''; repo = g ''admitted_repo_relative_path'' in
      ensure
        (keys_are d history_receipt_keys
         \<and> py_eq (g ''schema_version'') (PStr ''nano-git-history-baseline-v2'')
         \<and> py_eq (g ''policy_version'') (PStr ''nano-git-history-topology-v2'')
         \<and> py_eq (g ''run_spec_sha256'') (PStr run_hash))
        receipt_error
      (rbind (in_strings status [''absent_clean'', ''created'', ''isolated'', ''preserved'']) (\<lambda>known.
       ensure
         (known
          \<and> \<not> (access = history_not_required
                \<and> status \<notin> {PStr ''absent_clean'', PStr ''created'', PStr ''isolated''})
          \<and> \<not> (access = history_required \<and> status \<noteq> PStr ''preserved''))
         receipt_error
      (rbind (in_strings (g ''topology_before'') [''zero'', ''root'', ''nested'']) (\<lambda>before.
       ensure before receipt_error
      (rbind (in_strings (g ''topology_after'') [''zero'', ''root'', ''nested'']) (\<lambda>after.
       ensure (after \<and> \<not> (status = PStr ''absent_clean'' \<and> repo \<noteq> PNone)) receipt_error
      (rbind (if status = PStr ''absent_clean'' then Inr True else repo_relative_path repo) (\<lambda>admitted.
       ensure (admitted \<and> receipt_facts_ok g access) receipt_error (Inr d))))))))))"

definition history_hooks :: json_hooks where
  "history_hooks =
     \<lparr>object_hook = unique_object (ValueError ''duplicate key''),
      constant_hook = (\<lambda>c. Inl (ValueError c))\<rparr>"

text \<open>A document that is not an object fails the first test of the validator.\<close>

definition parse_git_history_baseline_receipt :: "pystr \<Rightarrow> pystr \<Rightarrow> pystr \<Rightarrow> pydict result" where
  "parse_git_history_baseline_receipt raw run_hash access =
     rbind (catch is_value_error (json_loads history_hooks raw) (Inl receipt_error)) (\<lambda>v.
       case v of PDict d \<Rightarrow> check_history_receipt run_hash access d | _ \<Rightarrow> Inl receipt_error)"

section \<open>Admission\<close>

definition admission_error :: "py_error \<Rightarrow> bool" where
  "admission_error e \<longleftrightarrow> e = OSError \<or> e = UnicodeDecodeError \<or> e = KeyError"

text \<open>What the bytes of the file must satisfy.\<close>

definition admit_receipt_bytes :: "pyval \<Rightarrow> pystr \<Rightarrow> pystr \<Rightarrow> bytes \<Rightarrow> pydict result" where
  "admit_receipt_bytes capability run_hash access raw =
     ensure (valid_utf8 raw) UnicodeDecodeError
       (rbind (parse_git_history_baseline_receipt raw run_hash access) (\<lambda>d.
        rbind (ascii_json (PDict d)) (\<lambda>canonical.
        ensure (raw = canonical) receipt_error
          (case capability of
             PDict c \<Rightarrow>
               rbind (dict_item d ''capability_instruction_sha256'') (\<lambda>instruction.
               rbind (dict_item c ''canonical_instruction_sha256'') (\<lambda>expected_instruction.
               ensure (py_eq instruction expected_instruction) receipt_error
                 (rbind (dict_item d ''trusted_manifest_sha256'') (\<lambda>manifest.
                  rbind (dict_item c ''trusted_manifest_sha256'') (\<lambda>expected_manifest.
                    ensure (py_eq manifest expected_manifest) receipt_error (Inr d))))))
           | _ \<Rightarrow> Inl receipt_error))))"

definition history_receipt_limit :: nat where
  "history_receipt_limit = 16 * 1024"

text \<open>
  Opening with \<open>O_NOFOLLOW\<close> fails on a symbolic link; opening, \<open>fstat\<close> and \<open>read\<close> are three calls
  that may fail. A read returns the whole file.
\<close>

definition load_git_history_baseline_receipt :: "path \<Rightarrow> pyval \<Rightarrow> pystr \<Rightarrow> pydict io" where
  "load_git_history_baseline_receipt p capability run_hash =
     io_bind (io_lift (git_history_access capability)) (\<lambda>access.
       io_except admission_error
         (io_seq (fs_probe (\<lambda>s. present s p \<and> \<not> is_symlink s p)) (io_seq (fs_probe (\<lambda>s. True))
           (io_bind (\<lambda>s. (Inr (read_file s p), s)) (\<lambda>found.
             case found of
               None \<Rightarrow> io_raise receipt_error
             | Some raw \<Rightarrow>
                 io_check (length raw \<le> history_receipt_limit) receipt_error
                   (io_seq (fs_probe (\<lambda>s. True))
                     (io_lift (admit_receipt_bytes capability run_hash access raw)))))))
         receipt_error)"

section \<open>Isolation\<close>

text \<open>
  The trusted actor: the workspace it reports, and what the execution of a program returns or
  raises, given the programs executed so far (the current one last). The programs themselves are
  shell scripts, named here by the arguments they are built from.
\<close>

datatype snapshot_script =
    Topology_script pystr
  | Single_repo_script pystr pystr pystr pydict

record snapshot_result =
  sr_return_code :: pyval
  sr_stdout :: pyval
  sr_stderr :: pyval

record trusted_actor =
  snapshot_workspace_root :: pyval
  exec_snapshot :: "snapshot_script list \<Rightarrow> snapshot_result result"

definition baseline_failed :: py_error where
  "baseline_failed = RuntimeError ''git_history_baseline_failed''"

definition short_text :: "pyval \<Rightarrow> bool" where
  "short_text v = (case v of PStr s \<Rightarrow> length (code_points s) \<le> 16 * 1024 | _ \<Rightarrow> False)"

definition execute_snapshot :: "trusted_actor \<Rightarrow> snapshot_script list \<Rightarrow> pystr result" where
  "execute_snapshot actor scripts =
     rbind (exec_snapshot actor scripts) (\<lambda>r.
       ensure (py_eq (sr_return_code r) (PInt 0) \<and> short_text (sr_stdout r) \<and> short_text (sr_stderr r))
         baseline_failed
         (case sr_stdout r of PStr s \<Rightarrow> Inr s | _ \<Rightarrow> Inl baseline_failed))"

text \<open>\<open>s.removesuffix("\n")\<close> and \<open>s.split("\t")\<close>.\<close>

definition remove_newline :: "pystr \<Rightarrow> pystr" where
  "remove_newline s = (if s \<noteq> [] \<and> last s = CHR 0x0A then butlast s else s)"

fun split_tab :: "pystr \<Rightarrow> pystr list" where
  "split_tab [] = [[]]"
| "split_tab (c # s) =
     (if c = CHR 0x09 then [] # split_tab s
      else case split_tab s of [] \<Rightarrow> [[c]] | p # ps \<Rightarrow> (c # p) # ps)"

record repo_census =
  rc_topology :: pystr
  rc_path :: pyval
  rc_census :: pystr
  rc_manifest :: pystr

definition topology :: "pystr \<Rightarrow> repo_census result" where
  "topology raw =
     (case split_tab (remove_newline raw) of
        [kind, repo, census, manifest] \<Rightarrow>
          ensure
            (kind \<in> {''zero'', ''root'', ''nested''}
             \<and> hex_of_length [64] (PStr census) \<and> hex_of_length [64] (PStr manifest)
             \<and> \<not> (kind = ''zero'' \<and> repo \<noteq> ''-'') \<and> \<not> (kind = ''root'' \<and> repo \<noteq> ''.'')
             \<and> \<not> (kind = ''nested'' \<and> (repo \<in> {[], ''.'', ''-''} \<or> take 1 repo = ''/'')))
            baseline_failed
            (Inr \<lparr>rc_topology = kind, rc_path = (if repo = ''-'' then PNone else PStr repo),
                  rc_census = census, rc_manifest = manifest\<rparr>)
      | _ \<Rightarrow> Inl baseline_failed)"

definition core_keys :: "pystr list" where
  "core_keys =
     [''schema_version'', ''policy_version'', ''run_spec_sha256'', ''capability_instruction_sha256'',
      ''trusted_manifest_sha256'', ''status'', ''source_commit_oid'', ''source_tree_oid'',
      ''root_commit_oid'', ''root_tree_oid'', ''preexisting_commit_count'', ''root_commit_count'',
      ''ref_count'', ''remote_count'', ''alternate_count'', ''old_metadata_removed'']"

definition core_hooks :: json_hooks where
  "core_hooks =
     \<lparr>object_hook = unique_object (ValueError ''duplicate key''), constant_hook = (\<lambda>c. Inr (PNonFinite c))\<rparr>"

definition unique_json :: "pystr \<Rightarrow> pystr list \<Rightarrow> pydict result" where
  "unique_json raw expected =
     rbind (catch is_value_error (json_loads core_hooks raw) (Inl receipt_error)) (\<lambda>v.
       case v of
         PDict d \<Rightarrow> ensure (keys_are d expected) receipt_error (Inr d)
       | _ \<Rightarrow> Inl receipt_error)"

definition absent_core :: "pystr \<Rightarrow> pydict \<Rightarrow> pydict result" where
  "absent_core run_hash capability =
     rbind (dict_item capability ''canonical_instruction_sha256'') (\<lambda>instruction.
     rbind (dict_item capability ''trusted_manifest_sha256'') (\<lambda>manifest.
       Inr [(''schema_version'', PStr ''nano-git-history-baseline-v2''),
            (''policy_version'', PStr ''nano-git-history-topology-v2''),
            (''run_spec_sha256'', PStr run_hash),
            (''capability_instruction_sha256'', instruction),
            (''trusted_manifest_sha256'', manifest),
            (''status'', PStr ''absent_clean''),
            (''source_commit_oid'', PNone), (''source_tree_oid'', PNone),
            (''root_commit_oid'', PNone), (''root_tree_oid'', PNone),
            (''preexisting_commit_count'', PInt 0), (''root_commit_count'', PInt 0),
            (''ref_count'', PInt 0), (''remote_count'', PInt 0), (''alternate_count'', PInt 0),
            (''old_metadata_removed'', PBool False)]))"

text \<open>The transformation: the census before and after, and the facts the program reports between.\<close>

definition isolate_core ::
  "trusted_actor \<Rightarrow> pystr \<Rightarrow> pystr \<Rightarrow> pystr \<Rightarrow> pydict \<Rightarrow> repo_census \<Rightarrow> (pydict \<times> repo_census) result" where
  "isolate_core actor workspace access run_hash capability before =
     (let census = Topology_script workspace in
      if rc_topology before = ''zero'' then
        rbind (execute_snapshot actor [census, census]) (\<lambda>out.
        rbind (topology out) (\<lambda>after.
        ensure (rc_topology after = ''zero'' \<and> rc_path after = PNone
                \<and> rc_census before = rc_census after \<and> rc_manifest before = rc_manifest after)
          baseline_failed
          (rbind (absent_core run_hash capability) (\<lambda>core. Inr (core, after)))))
      else
        (let admitted = (case rc_path before of
                           PStr p \<Rightarrow> if p = ''.'' then workspace else workspace @ ''/'' @ p
                         | _ \<Rightarrow> workspace @ ''/None'');
             rewriting = Single_repo_script admitted access run_hash capability
         in rbind (execute_snapshot actor [census, rewriting]) (\<lambda>core_raw.
            rbind (unique_json core_raw core_keys) (\<lambda>core.
            rbind (execute_snapshot actor [census, rewriting, census]) (\<lambda>out.
            rbind (topology out) (\<lambda>after.
            ensure (rc_manifest before = rc_manifest after \<and> rc_topology after = rc_topology before
                    \<and> rc_path after = rc_path before)
              baseline_failed (Inr (core, after))))))))"

definition combined_receipt :: "pydict \<Rightarrow> repo_census \<Rightarrow> repo_census \<Rightarrow> pydict" where
  "combined_receipt core before after =
     foldl (\<lambda>d kv. dict_set d (fst kv) (snd kv)) core
       [(''topology_before'', PStr (rc_topology before)), (''topology_after'', PStr (rc_topology after)),
        (''admitted_repo_relative_path'', rc_path after),
        (''census_before_sha256'', PStr (rc_census before)), (''census_after_sha256'', PStr (rc_census after)),
        (''filesystem_manifest_before_sha256'', PStr (rc_manifest before)),
        (''filesystem_manifest_after_sha256'', PStr (rc_manifest after))]"

text \<open>The receipt of a run and the bytes that record it.\<close>

definition isolation_document ::
  "trusted_actor \<Rightarrow> pystr \<Rightarrow> pydict \<Rightarrow> pystr \<Rightarrow> (pydict \<times> bytes) result" where
  "isolation_document actor access capability run_hash =
     (case snapshot_workspace_root actor of
        PStr workspace \<Rightarrow>
          ensure (take 1 workspace = ''/'' \<and> CHR 0x00 \<notin> set workspace)
            (RuntimeError ''git_history_baseline_workspace_invalid'')
          (rbind (execute_snapshot actor [Topology_script workspace]) (\<lambda>out.
           rbind (topology out) (\<lambda>before.
           ensure (\<not> (rc_topology before = ''zero'' \<and> access = history_required)) baseline_failed
          (rbind (isolate_core actor workspace access run_hash capability before) (\<lambda>(core, after).
           rbind (ascii_json (PDict (combined_receipt core before after))) (\<lambda>raw.
           rbind (parse_git_history_baseline_receipt raw run_hash access) (\<lambda>receipt.
           rbind (dict_item receipt ''capability_instruction_sha256'') (\<lambda>instruction.
           rbind (dict_item capability ''canonical_instruction_sha256'') (\<lambda>expected_instruction.
           ensure (py_eq instruction expected_instruction) receipt_error
          (rbind (dict_item receipt ''trusted_manifest_sha256'') (\<lambda>manifest.
           rbind (dict_item capability ''trusted_manifest_sha256'') (\<lambda>expected_manifest.
           ensure (py_eq manifest expected_manifest) receipt_error
          (rbind (ascii_json (PDict receipt)) (\<lambda>payload.
             Inr (receipt, payload)))))))))))))))
      | _ \<Rightarrow> Inl (RuntimeError ''git_history_baseline_workspace_invalid''))"

definition isolate_preexisting_git_history ::
  "trusted_actor \<Rightarrow> path \<Rightarrow> pyval \<Rightarrow> pystr \<Rightarrow> pydict io" where
  "isolate_preexisting_git_history actor artifact_dir capability run_hash =
     io_bind (io_lift (git_history_access capability)) (\<lambda>access.
     io_guard (\<lambda>s. hex_of_length [64] (PStr run_hash) \<and> is_dir s artifact_dir)
       (RuntimeError ''git_history_baseline_binding_invalid'')
     (io_bind
        (io_lift (case capability of
           PDict c \<Rightarrow> isolation_document actor access c run_hash | _ \<Rightarrow> Inl AssertionError))
        (\<lambda>(receipt, payload).
           let p = artifact_dir @ [history_receipt_name] in
           io_seq (fs_create p) (io_seq (fs_write p payload) (io_seq fs_fsync (io_return receipt))))))"

section \<open>Facts on accepted receipts\<close>

lemma hex_of_length_iff: "hex_of_length ls v \<longleftrightarrow> (\<exists>s. v = PStr s \<and> length s \<in> set ls \<and> list_all is_lower_hex s)"
  by (cases v) (auto simp: hex_of_length_def)

lemma in_strings_True: "in_strings v names = Inr True \<longleftrightarrow> (\<exists>s. v = PStr s \<and> s \<in> set names)"
  by (cases v) (auto simp: in_strings_def)

lemma is_count_iff: "is_count v \<longleftrightarrow> (\<exists>i. v = PInt i \<and> 0 \<le> i)"
  by (cases v) (auto simp: is_count_def)

lemma is_bool_iff: "is_bool v \<longleftrightarrow> (\<exists>b. v = PBool b)"
  by (cases v) (auto simp: is_bool_def)

lemma repo_relative_path_True: "repo_relative_path v = Inr True \<Longrightarrow> \<exists>s. v = PStr s \<and> valid_utf8 s"
  by (cases v) (auto simp: repo_relative_path_def rbind_Inr_iff ord_of_def split: if_splits)

lemma check_history_receipt_Inr:
  assumes "check_history_receipt run_hash access d = Inr d'"
  shows "d' = d" "keys_are d history_receipt_keys" "receipt_facts_ok (dict_get d) access"
    "dict_get d ''schema_version'' = PStr ''nano-git-history-baseline-v2''"
    "dict_get d ''policy_version'' = PStr ''nano-git-history-topology-v2''"
    "dict_get d ''run_spec_sha256'' = PStr run_hash"
    "\<exists>s \<in> {''absent_clean'', ''created'', ''isolated'', ''preserved''}. dict_get d ''status'' = PStr s"
    "access = history_not_required \<Longrightarrow> dict_get d ''status'' \<noteq> PStr ''preserved''"
    "access = history_required \<Longrightarrow> dict_get d ''status'' = PStr ''preserved''"
    "\<exists>s \<in> {''zero'', ''root'', ''nested''}. dict_get d ''topology_before'' = PStr s"
    "\<exists>s \<in> {''zero'', ''root'', ''nested''}. dict_get d ''topology_after'' = PStr s"
    "dict_get d ''admitted_repo_relative_path'' = PNone
     \<or> (\<exists>s. dict_get d ''admitted_repo_relative_path'' = PStr s \<and> valid_utf8 s)"
proof -
  let ?g = "dict_get d"
  let ?status = "?g ''status''"
  obtain kn bf af ad where
    head: "d' = d" "keys_are d history_receipt_keys" "receipt_facts_ok ?g access"
      "py_eq (?g ''schema_version'') (PStr ''nano-git-history-baseline-v2'')"
      "py_eq (?g ''policy_version'') (PStr ''nano-git-history-topology-v2'')"
      "py_eq (?g ''run_spec_sha256'') (PStr run_hash)"
    and st: "in_strings ?status [''absent_clean'', ''created'', ''isolated'', ''preserved''] = Inr kn" "kn"
      "\<not> (access = history_not_required
          \<and> ?status \<notin> {PStr ''absent_clean'', PStr ''created'', PStr ''isolated''})"
      "\<not> (access = history_required \<and> ?status \<noteq> PStr ''preserved'')"
    and tb: "in_strings (?g ''topology_before'') [''zero'', ''root'', ''nested''] = Inr bf" "bf"
    and ta: "in_strings (?g ''topology_after'') [''zero'', ''root'', ''nested''] = Inr af" "af"
    and repo: "\<not> (?status = PStr ''absent_clean'' \<and> ?g ''admitted_repo_relative_path'' \<noteq> PNone)"
      "(if ?status = PStr ''absent_clean'' then Inr True
        else repo_relative_path (?g ''admitted_repo_relative_path'')) = Inr ad" "ad"
    using assms unfolding check_history_receipt_def Let_def rbind_Inr_iff ensure_Inr_iff sum.inject by blast
  show "d' = d" "keys_are d history_receipt_keys" "receipt_facts_ok ?g access" by (rule head)+
  show "?g ''schema_version'' = PStr ''nano-git-history-baseline-v2''"
    "?g ''policy_version'' = PStr ''nano-git-history-topology-v2''"
    "?g ''run_spec_sha256'' = PStr run_hash" using head(4-6) by simp_all
  show "\<exists>s \<in> {''absent_clean'', ''created'', ''isolated'', ''preserved''}. ?status = PStr s"
    using st(1,2) by (simp add: in_strings_True) blast
  show "?status \<noteq> PStr ''preserved''" if "access = history_not_required" using st(3) that by auto
  show "?status = PStr ''preserved''" if "access = history_required" using st(4) that by simp
  show "\<exists>s \<in> {''zero'', ''root'', ''nested''}. ?g ''topology_before'' = PStr s"
    using tb by (simp add: in_strings_True) blast
  show "\<exists>s \<in> {''zero'', ''root'', ''nested''}. ?g ''topology_after'' = PStr s"
    using ta by (simp add: in_strings_True) blast
  show "?g ''admitted_repo_relative_path'' = PNone
     \<or> (\<exists>s. ?g ''admitted_repo_relative_path'' = PStr s \<and> valid_utf8 s)"
    using repo repo_relative_path_True by (cases "?status = PStr ''absent_clean''") auto
qed

text \<open>The parser's documents have distinct keys.\<close>

lemma json_value_dict:
  "json_value h n s = Inr (PDict d, r) \<Longrightarrow>
     (\<exists>ps. object_hook h ps = Inr (PDict d)) \<or> (\<exists>c. constant_hook h c = Inr (PDict d))"
  by (cases n)
    (auto simp: json_value.simps rbind_Inr_iff Let_def scan_number_def split: if_splits option.splits prod.splits)

lemma history_loads_distinct: "json_loads history_hooks raw = Inr (PDict d) \<Longrightarrow> distinct (map fst d)"
  using json_value_dict [of history_hooks "json_fuel raw" "skip_ws raw" d]
  by (auto simp: json_loads_def rbind_Inr_iff history_hooks_def unique_object_def split: if_splits prod.splits)

lemma parse_history_receipt_Inr:
  "parse_git_history_baseline_receipt raw run_hash access = Inr d \<longleftrightarrow>
     json_loads history_hooks raw = Inr (PDict d) \<and> check_history_receipt run_hash access d = Inr d"
proof -
  have "check_history_receipt run_hash access d' = Inr d \<Longrightarrow> d' = d" for d'
    using check_history_receipt_Inr(1) by metis
  then show ?thesis
    by (auto simp: parse_git_history_baseline_receipt_def rbind_Inr_iff)
qed

lemma sha_hex_flat: "hex_of_length ls v \<Longrightarrow> flat_val v"
  by (auto simp: hex_of_length_iff list_all_iff lower_hex_ascii intro!: valid_utf8_ascii)

lemma receipt_facts_parts:
  assumes "receipt_facts_ok g access"
  shows "list_all (\<lambda>k. hex_of_length [64] (g k))
        [''capability_instruction_sha256'', ''trusted_manifest_sha256'', ''census_before_sha256'',
         ''census_after_sha256'', ''filesystem_manifest_before_sha256'', ''filesystem_manifest_after_sha256'']"
    "g ''status'' = PStr ''absent_clean'' \<or> hex_of_length [40, 64] (g ''root_commit_oid'')"
    "g ''status'' = PStr ''absent_clean'' \<or> hex_of_length [40, 64] (g ''root_tree_oid'')"
    "g ''source_commit_oid'' = PNone \<and> g ''source_tree_oid'' = PNone
         \<or> hex_of_length [40, 64] (g ''source_commit_oid'') \<and> hex_of_length [40, 64] (g ''source_tree_oid'')"
    "list_all (\<lambda>k. is_count (g k)) count_fields"
    "is_bool (g ''old_metadata_removed'')"
    "g ''status'' = PStr ''absent_clean'' \<longrightarrow> absent_clean_ok g access"
    "g ''status'' = PStr ''created'' \<longrightarrow> created_ok g"
    "g ''status'' = PStr ''isolated'' \<longrightarrow> isolated_ok g"
    "g ''status'' = PStr ''preserved'' \<longrightarrow> preserved_ok g"
    "py_eq (g ''filesystem_manifest_before_sha256'') (g ''filesystem_manifest_after_sha256'')"
  using assms unfolding receipt_facts_ok_def Let_def by blast+

text \<open>Every value of an accepted receipt is a scalar that can be encoded.\<close>

lemma history_receipt_flat:
  assumes "check_history_receipt run_hash access d = Inr d'" and "valid_utf8 run_hash"
    and "distinct (map fst d)"
  shows "flat_dict d"
proof -
  note facts = check_history_receipt_Inr [OF assms(1)]
  have fixed: "flat_val (PStr ''nano-git-history-baseline-v2'')" "flat_val (PStr ''nano-git-history-topology-v2'')"
    "flat_val (PStr ''absent_clean'')" "flat_val (PStr ''created'')" "flat_val (PStr ''isolated'')"
    "flat_val (PStr ''preserved'')" "flat_val (PStr ''zero'')" "flat_val (PStr ''root'')" "flat_val (PStr ''nested'')"
    by (simp_all add: ord_of_def)
  have keys: "list_all valid_utf8 history_receipt_keys"
    by (simp add: history_receipt_keys_def ord_of_def)
  note parts = receipt_facts_parts [OF facts(3)]
  have hexes: "flat_val (dict_get d k)" if "k \<in> {''capability_instruction_sha256'', ''trusted_manifest_sha256'',
      ''census_before_sha256'', ''census_after_sha256'', ''filesystem_manifest_before_sha256'',
      ''filesystem_manifest_after_sha256''}" for k
    using that parts(1) by (intro sha_hex_flat [of "[64]"]) auto
  have oids: "flat_val (dict_get d k)" if "k \<in> {''source_commit_oid'', ''source_tree_oid'',
      ''root_commit_oid'', ''root_tree_oid''}" for k
  proof -
    have "dict_get d k = PNone \<or> hex_of_length [40, 64] (dict_get d k)"
      using that parts(2,3,4,7) by (auto simp: absent_clean_ok_def)
    then show ?thesis using sha_hex_flat by auto
  qed
  have rest: "flat_val (dict_get d k)" if "k \<in> set count_fields \<union> {''old_metadata_removed''}" for k
    using that parts(5,6) by (auto simp: count_fields_def is_count_iff is_bool_iff)
  have status: "flat_val (dict_get d ''status'')" using facts(7) fixed by auto
  have before: "flat_val (dict_get d ''topology_before'')" using facts(10) fixed by auto
  have after: "flat_val (dict_get d ''topology_after'')" using facts(11) fixed by auto
  have repo: "flat_val (dict_get d ''admitted_repo_relative_path'')" using facts(12) by auto
  have strs: "flat_val (dict_get d k)" if "k \<in> {''schema_version'', ''policy_version'', ''run_spec_sha256'',
      ''status'', ''topology_before'', ''topology_after'', ''admitted_repo_relative_path''}" for k
    using that facts(4-6) assms(2) fixed(1,2) status before after repo by (elim insertE) simp_all
  have all: "list_all (\<lambda>k. flat_val (dict_get d k)) history_receipt_keys"
    unfolding history_receipt_keys_def by (simp add: hexes oids rest strs count_fields_def)
  have "valid_utf8 k \<and> flat_val v" if "(k, v) \<in> set d" for k v
  proof -
    from that have "k \<in> set history_receipt_keys"
      using facts(2) by (force simp: keys_are_def dict_keys_def)
    moreover have "dict_get d k = v" using that assms(3) by (simp add: dict_get_def)
    ultimately show ?thesis using all keys by (auto simp: list_all_iff)
  qed
  then show ?thesis by (auto simp: flat_dict_def list_all_iff)
qed

section \<open>What an admitted run starts from\<close>

lemma fs_probe_Inr: "fs_probe P s = (Inr u, t) \<Longrightarrow> \<exists>fl. t = s\<lparr>faults := fl\<rparr> \<and> P t"
  by (auto simp: fs_probe_def dest!: syscall_Inr split: if_splits)

lemma admit_receipt_bytes_Inr:
  "admit_receipt_bytes (PDict c) run_hash access raw = Inr d \<longleftrightarrow>
     valid_utf8 raw \<and> parse_git_history_baseline_receipt raw run_hash access = Inr d
     \<and> ascii_json (PDict d) = Inr raw
     \<and> (\<exists>i j m n. dict_item d ''capability_instruction_sha256'' = Inr i
          \<and> dict_item c ''canonical_instruction_sha256'' = Inr j \<and> py_eq i j
          \<and> dict_item d ''trusted_manifest_sha256'' = Inr m
          \<and> dict_item c ''trusted_manifest_sha256'' = Inr n \<and> py_eq m n)"
  unfolding admit_receipt_bytes_def rbind_Inr_iff ensure_Inr_iff pyval.case by blast

lemma load_history_receipt_Inr:
  assumes "load_git_history_baseline_receipt p capability run_hash s = (Inr d, t)"
  obtains access raw where "git_history_access capability = Inr access"
    "read_file s p = Some raw" "length raw \<le> history_receipt_limit"
    "admit_receipt_bytes capability run_hash access raw = Inr d"
proof -
  obtain access u v found where a: "git_history_access capability = Inr access"
    "\<exists>fl. u = s\<lparr>faults := fl\<rparr>" "\<exists>fl. v = u\<lparr>faults := fl\<rparr>"
    "(case read_file v p of None \<Rightarrow> io_raise receipt_error
      | Some raw \<Rightarrow> io_check (length raw \<le> history_receipt_limit) receipt_error
          (io_seq (fs_probe (\<lambda>s. True)) (io_lift (admit_receipt_bytes capability run_hash access raw)))) v
     = (Inr d, t)"
    using assms unfolding load_git_history_baseline_receipt_def io_bind_Inr io_except_Inr io_lift_Inr io_seq_Inr
    by (auto dest!: fs_probe_Inr)
  then have "read_file v = read_file s" by auto
  with a(1,4) that show ?thesis
    by (auto simp: io_raise_def io_check_Inr io_seq_Inr io_lift_Inr split: option.splits)
qed

text \<open>
  C15: a run whose instruction does not call for pre-existing Git history is admitted only with a
  receipt, bound to the run and to the capability, after which no such history is reachable: at
  most one commit and one ref, no remotes, no alternate object stores, that commit on the tree the
  source had, and the files outside the repository unchanged.
\<close>

theorem admitted_run_has_no_history:
  assumes "load_git_history_baseline_receipt p (PDict c) run_hash s = (Inr d, t)"
    and "dict_get c ''git_history_access'' = PStr history_not_required"
  shows "\<exists>commits refs. dict_get d ''root_commit_count'' = PInt commits \<and> commits \<le> 1
    \<and> dict_get d ''ref_count'' = PInt refs \<and> refs \<le> 1
    \<and> dict_get d ''remote_count'' = PInt 0 \<and> dict_get d ''alternate_count'' = PInt 0
    \<and> (dict_get d ''source_tree_oid'' = PNone
       \<or> dict_get d ''source_tree_oid'' = dict_get d ''root_tree_oid'' \<and> dict_get d ''old_metadata_removed'' = PBool True)
    \<and> dict_get d ''filesystem_manifest_before_sha256'' = dict_get d ''filesystem_manifest_after_sha256''
    \<and> dict_get d ''run_spec_sha256'' = PStr run_hash
    \<and> dict_get d ''capability_instruction_sha256'' = dict_get c ''canonical_instruction_sha256''"
proof -
  obtain access raw where load: "git_history_access (PDict c) = Inr access"
    "admit_receipt_bytes (PDict c) run_hash access raw = Inr d"
    by (rule load_history_receipt_Inr [OF assms(1)])
  from load(1) assms(2) have access: "access = history_not_required"
    by (auto simp: git_history_access_def Let_def rbind_Inr_iff)
  from load(2) obtain i j where chk: "check_history_receipt run_hash access d = Inr d"
    and bind: "dict_item d ''capability_instruction_sha256'' = Inr i"
      "dict_item c ''canonical_instruction_sha256'' = Inr j" "py_eq i j"
    unfolding admit_receipt_bytes_Inr parse_history_receipt_Inr by blast
  note facts = check_history_receipt_Inr [OF chk]
  note parts = receipt_facts_parts [OF facts(3)]
  have counts: "\<exists>i. dict_get d k = PInt i" if "k \<in> set count_fields" for k
    using parts(5) that by (auto simp: list_all_iff is_count_iff)
  have hexes: "\<exists>s. dict_get d k = PStr s" if "k \<in> {''capability_instruction_sha256'',
      ''filesystem_manifest_before_sha256'', ''filesystem_manifest_after_sha256''}" for k
    using parts(1) that by (auto simp: hex_of_length_iff)
  have manifest: "dict_get d ''filesystem_manifest_before_sha256'' = dict_get d ''filesystem_manifest_after_sha256''"
    using parts(11) hexes [of "''filesystem_manifest_after_sha256''"] by auto
  have instruction: "dict_get d ''capability_instruction_sha256'' = dict_get c ''canonical_instruction_sha256''"
  proof -
    have "dict_get d ''capability_instruction_sha256'' = i" "dict_get c ''canonical_instruction_sha256'' = j"
      using bind by (auto simp: dict_item_def dict_get_def split: option.splits)
    with hexes [of "''capability_instruction_sha256''"] bind(3) show ?thesis by auto
  qed
  obtain status where "dict_get d ''status'' = PStr status"
    "status \<in> {''absent_clean'', ''created'', ''isolated''}"
    using facts(7) facts(8) [OF access] by auto
  then have "absent_clean_ok (dict_get d) access \<or> created_ok (dict_get d) \<or> isolated_ok (dict_get d)"
    using parts(7-9) by auto
  moreover obtain n1 n2 n3 n4 where "dict_get d ''root_commit_count'' = PInt n1"
    "dict_get d ''ref_count'' = PInt n2" "dict_get d ''remote_count'' = PInt n3" "dict_get d ''alternate_count'' = PInt n4"
    using counts by (metis count_fields_def list.set_intros(1,2))
  ultimately show ?thesis
    using manifest instruction facts(6)
    by (elim disjE) (auto simp: absent_clean_ok_def created_ok_def isolated_ok_def hex_of_length_iff)
qed

section \<open>The receipt of an isolation is admitted\<close>

interpretation history_reader: json_reader history_hooks
  by unfold_locales (auto simp: history_hooks_def unique_object_def)

lemma check_history_receipt_cong:
  assumes "check_history_receipt run_hash access d = Inr d'"
    and "dict_get e = dict_get d" and "\<And>fs. keys_are e fs = keys_are d fs"
  shows "check_history_receipt run_hash access e = Inr e"
proof -
  have push: "rbind (ensure b err k) h = ensure b err (rbind k h)" for b err and h :: "pydict \<Rightarrow> pydict result" and k
    by (cases b) simp_all
  have "check_history_receipt run_hash access e = rbind (check_history_receipt run_hash access d) (\<lambda>_. Inr e)"
    unfolding check_history_receipt_def Let_def assms(2,3) by (simp only: rbind_assoc push rbind_simps)
  with assms(1) show ?thesis by simp
qed

lemma history_document_parsed:
  assumes "check_history_receipt run_hash access d = Inr d'" and "distinct (map fst d)"
    and "valid_utf8 run_hash" and "ascii_json (PDict d) = Inr raw"
  shows "parse_git_history_baseline_receipt raw run_hash access = Inr (sort_dict d)"
    "valid_utf8 raw" "ascii_json (PDict (sort_dict d)) = Inr raw" "dict_get (sort_dict d) = dict_get d"
proof -
  note flat = history_receipt_flat [OF assms(1,3,2)]
  have "keys_are d history_receipt_keys" by (rule check_history_receipt_Inr(2) [OF assms(1)])
  then have "set (map fst d) \<noteq> {}" unfolding keys_are_def dict_keys_def history_receipt_keys_def by simp
  then have ne: "d \<noteq> []" by auto
  have "map_of (sort_dict d) = map_of d"
    using assms(2) by (simp add: flat_sort_dict(1) [OF flat])
  then show get: "dict_get (sort_dict d) = dict_get d" by (simp add: dict_get_def fun_eq_iff)
  have "check_history_receipt run_hash access (sort_dict d) = Inr (sort_dict d)"
    by (rule check_history_receipt_cong [OF assms(1) get]) simp
  then show "parse_git_history_baseline_receipt raw run_hash access = Inr (sort_dict d)"
    using history_reader.loads_ascii_flat [OF assms(4) flat assms(2) ne] by (simp add: parse_history_receipt_Inr)
  show "valid_utf8 raw" by (rule ascii_json_valid [OF assms(4) flat])
  show "ascii_json (PDict (sort_dict d)) = Inr raw" using assms(4) ascii_json_sorted [OF flat] by simp
qed

lemma load_history_receipt_run:
  assumes "faults s = []" and "read_file s p = Some raw" and "length raw \<le> history_receipt_limit"
    and "git_history_access (PDict c) = Inr access" and "admit_receipt_bytes (PDict c) run_hash access raw = Inr d"
  shows "load_git_history_baseline_receipt p (PDict c) run_hash s = (Inr d, s)"
proof -
  have "present s p" "\<not> is_symlink s p"
    using assms(2) by (auto simp: present_def is_symlink_def read_file_def split: option.splits node.splits)
  then have probes: "fs_probe (\<lambda>s. present s p \<and> \<not> is_symlink s p) s = (Inr (), s)" "fs_probe (\<lambda>s. True) s = (Inr (), s)"
    using assms(1) by (simp_all add: fs_probe_def syscall_quiet)
  show ?thesis
    using assms(2-5) probes
    by (simp add: load_git_history_baseline_receipt_def io_bind_def io_lift_def io_except_def io_seq_def)
qed

lemma isolation_document_Inr:
  assumes "isolation_document actor access c run_hash = Inr (r, payload)"
  obtains raw i j m n where "parse_git_history_baseline_receipt raw run_hash access = Inr r"
    "ascii_json (PDict r) = Inr payload"
    "dict_item r ''capability_instruction_sha256'' = Inr i" "dict_item c ''canonical_instruction_sha256'' = Inr j" "py_eq i j"
    "dict_item r ''trusted_manifest_sha256'' = Inr m" "dict_item c ''trusted_manifest_sha256'' = Inr n" "py_eq m n"
  using assms unfolding isolation_document_def
  by (auto simp: rbind_Inr_iff split: prod.splits)

lemma dict_item_cong: "dict_get d = dict_get e \<Longrightarrow> dict_item d k = Inr i \<Longrightarrow> i \<noteq> PNone \<Longrightarrow> dict_item e k = Inr i"
  by (auto simp: dict_item_def dict_get_def fun_eq_iff split: option.splits)

text \<open>
  C13: what the isolation of a workspace leaves behind is accepted when the run is admitted. If
  "isolate_preexisting_git_history" returns a receipt, whatever the actor answered, then the file it
  wrote is the canonical document of that receipt, and unless it exceeds the limit of 16 KiB,
  loading it with the same capability and run returns the same receipt.
\<close>

theorem isolated_receipt_is_admitted:
  assumes "isolate_preexisting_git_history actor dir (PDict c) run_hash s = (Inr r, t)"
    and "\<And>b. ascii_json (PDict r) = Inr b \<Longrightarrow> length b \<le> history_receipt_limit"
  shows "\<exists>r'. load_git_history_baseline_receipt (dir @ [history_receipt_name]) (PDict c) run_hash (t\<lparr>faults := []\<rparr>)
      = (Inr r', t\<lparr>faults := []\<rparr>) \<and> dict_get r' = dict_get r"
proof -
  let ?p = "dir @ [history_receipt_name]"
  obtain access payload u v where access: "git_history_access (PDict c) = Inr access"
    and run: "hex_of_length [64] (PStr run_hash)"
    and doc: "isolation_document actor access c run_hash = Inr (r, payload)"
    and io: "fs_create ?p s = (Inr (), u)" "fs_write ?p payload u = (Inr (), v)" "fs_fsync v = (Inr (), t)"
    using assms(1) unfolding isolate_preexisting_git_history_def io_bind_Inr io_lift_Inr io_guard_Inr Let_def
    by (auto simp: io_seq_Inr split: prod.splits)
  obtain raw i j m n where par: "parse_git_history_baseline_receipt raw run_hash access = Inr r"
    and pay: "ascii_json (PDict r) = Inr payload"
    and bind: "dict_item r ''capability_instruction_sha256'' = Inr i" "dict_item c ''canonical_instruction_sha256'' = Inr j"
      "py_eq i j" "dict_item r ''trusted_manifest_sha256'' = Inr m" "dict_item c ''trusted_manifest_sha256'' = Inr n"
      "py_eq m n"
    by (rule isolation_document_Inr [OF doc])
  from par have chk: "check_history_receipt run_hash access r = Inr r" and dist: "distinct (map fst r)"
    using history_loads_distinct by (auto simp: parse_history_receipt_Inr)
  have utf: "valid_utf8 run_hash"
    using run by (auto simp: hex_of_length_iff list_all_iff lower_hex_ascii intro!: valid_utf8_ascii)
  note parsed = history_document_parsed [OF chk dist utf pay]
  have "list_all (\<lambda>k. hex_of_length [64] (dict_get r k)) [''capability_instruction_sha256'', ''trusted_manifest_sha256'']"
    using receipt_facts_parts(1) [OF check_history_receipt_Inr(3) [OF chk]] by simp
  with bind have "i \<noteq> PNone" "m \<noteq> PNone"
    by (auto simp: hex_of_length_iff dict_get_def dict_item_def split: option.splits)
  then have "admit_receipt_bytes (PDict c) run_hash access payload = Inr (sort_dict r)"
    unfolding admit_receipt_bytes_Inr using parsed bind dict_item_cong [OF parsed(4) [symmetric]] by blast
  moreover have "read_file t ?p = Some payload"
  proof -
    from io(2,3) have "lookup v = lookup u" "\<exists>i. lookup u ?p = Some (File i) \<and> contents v i = payload"
      "lookup t = lookup v" "contents t = contents v"
      unfolding fs_write_def fs_fsync_def
      by (auto dest!: syscall_Inr simp: lookup_def fun_eq_iff split: option.splits node.splits)
    then show ?thesis by (auto simp: read_file_def)
  qed
  ultimately show ?thesis
    using load_history_receipt_run [of "t\<lparr>faults := []\<rparr>" ?p payload c access run_hash "sort_dict r"]
      access assms(2) [OF pay] parsed(4) by simp
qed

section \<open>Instances\<close>

definition sample_digest :: pystr where
  "sample_digest = replicate 64 CHR ''a''"

definition sample_capability :: pydict where
  "sample_capability =
     [(''schema_version'', PStr ''nano-git-history-capability-v1''),
      (''policy_version'', PStr ''nano-git-history-capability-policy-v2''),
      (''git_history_access'', PStr ''not_required''),
      (''canonical_instruction_sha256'', PStr sample_digest),
      (''trusted_manifest_sha256'', PStr sample_digest),
      (''supporting_span_sha256'', PNone)]"

definition sample_census :: pystr where
  "sample_census =
     ''zero'' @ [CHR 0x09] @ ''-'' @ [CHR 0x09] @ sample_digest @ [CHR 0x09] @ sample_digest @ [CHR 0x0A]"

definition sample_actor :: trusted_actor where
  "sample_actor =
     \<lparr>snapshot_workspace_root = PStr ''/work'',
      exec_snapshot = (\<lambda>scripts. Inr \<lparr>sr_return_code = PInt 0, sr_stdout = PStr sample_census, sr_stderr = PStr []\<rparr>)\<rparr>"

definition sample_counted :: repo_census where
  "sample_counted =
     \<lparr>rc_topology = ''zero'', rc_path = PNone, rc_census = sample_digest, rc_manifest = sample_digest\<rparr>"

definition history_sample :: pydict where
  "history_sample =
     [(''schema_version'', PStr ''nano-git-history-baseline-v2''),
      (''policy_version'', PStr ''nano-git-history-topology-v2''),
      (''run_spec_sha256'', PStr sample_digest),
      (''capability_instruction_sha256'', PStr sample_digest),
      (''trusted_manifest_sha256'', PStr sample_digest),
      (''status'', PStr ''absent_clean''),
      (''source_commit_oid'', PNone), (''source_tree_oid'', PNone),
      (''root_commit_oid'', PNone), (''root_tree_oid'', PNone),
      (''preexisting_commit_count'', PInt 0), (''root_commit_count'', PInt 0),
      (''ref_count'', PInt 0), (''remote_count'', PInt 0), (''alternate_count'', PInt 0),
      (''old_metadata_removed'', PBool False),
      (''topology_before'', PStr ''zero''), (''topology_after'', PStr ''zero''),
      (''admitted_repo_relative_path'', PNone),
      (''census_before_sha256'', PStr sample_digest), (''census_after_sha256'', PStr sample_digest),
      (''filesystem_manifest_before_sha256'', PStr sample_digest),
      (''filesystem_manifest_after_sha256'', PStr sample_digest)]"

lemma sample_topology: "topology sample_census = Inr sample_counted"
  by code_simp

lemma sample_execution: "execute_snapshot sample_actor scripts = Inr sample_census"
proof -
  have "length sample_census \<le> 16 * 1024" by (simp add: sample_census_def sample_digest_def)
  with length_code_points [of sample_census] have "short_text (PStr sample_census)" "short_text (PStr [])"
    by (simp_all add: short_text_def)
  then show ?thesis by (simp add: execute_snapshot_def sample_actor_def)
qed

lemma sample_combined:
  "rbind (absent_core sample_digest sample_capability) (\<lambda>core. Inr (combined_receipt core sample_counted sample_counted))
     = Inr history_sample"
  by (simp add: absent_core_def sample_capability_def dict_item_def combined_receipt_def sample_counted_def
      history_sample_def)

lemma sample_hex: "hex_of_length [64] (PStr sample_digest)"
  by code_simp

lemma sample_keys: "keys_are history_sample history_receipt_keys" "distinct (map fst history_sample)"
  by code_simp+

lemma sample_get:
  "dict_get history_sample ''schema_version'' = PStr ''nano-git-history-baseline-v2''"
  "dict_get history_sample ''policy_version'' = PStr ''nano-git-history-topology-v2''"
  "dict_get history_sample ''run_spec_sha256'' = PStr sample_digest"
  "dict_get history_sample ''capability_instruction_sha256'' = PStr sample_digest"
  "dict_get history_sample ''trusted_manifest_sha256'' = PStr sample_digest"
  "dict_get history_sample ''status'' = PStr ''absent_clean''"
  "dict_get history_sample ''source_commit_oid'' = PNone"
  "dict_get history_sample ''source_tree_oid'' = PNone"
  "dict_get history_sample ''root_commit_oid'' = PNone"
  "dict_get history_sample ''root_tree_oid'' = PNone"
  "dict_get history_sample ''preexisting_commit_count'' = PInt 0"
  "dict_get history_sample ''root_commit_count'' = PInt 0"
  "dict_get history_sample ''ref_count'' = PInt 0"
  "dict_get history_sample ''remote_count'' = PInt 0"
  "dict_get history_sample ''alternate_count'' = PInt 0"
  "dict_get history_sample ''old_metadata_removed'' = PBool False"
  "dict_get history_sample ''topology_before'' = PStr ''zero''"
  "dict_get history_sample ''topology_after'' = PStr ''zero''"
  "dict_get history_sample ''admitted_repo_relative_path'' = PNone"
  "dict_get history_sample ''census_before_sha256'' = PStr sample_digest"
  "dict_get history_sample ''census_after_sha256'' = PStr sample_digest"
  "dict_get history_sample ''filesystem_manifest_before_sha256'' = PStr sample_digest"
  "dict_get history_sample ''filesystem_manifest_after_sha256'' = PStr sample_digest"
  by (simp_all add: history_sample_def dict_get_def)

lemma sample_check:
  "check_history_receipt sample_digest history_not_required history_sample = Inr history_sample"
  using sample_keys(1) sample_hex
  by (simp add: check_history_receipt_def Let_def receipt_facts_ok_def absent_clean_ok_def in_strings_def
      history_not_required_def history_required_def count_fields_def is_count_def is_bool_def sample_get)

lemma sample_dumpable: "dumpable (PDict history_sample)"
  using dumpable_u64 [of 0] by (simp add: history_sample_def)

lemma sample_flat: "flat_dict history_sample"
  by (rule history_receipt_flat [OF sample_check _ sample_keys(2)])
    (auto simp: sample_digest_def ord_of_def list_all_iff intro!: valid_utf8_ascii)

lemma sample_document:
  obtains b where "ascii_json (PDict history_sample) = Inr b" "length b \<le> history_receipt_limit"
proof -
  obtain t where t: "json_dumps (sort_keys (PDict history_sample)) = Some t"
    using dumpable_sort_keys [OF sample_dumpable] dumpable_iff(1) by blast
  then have b: "ascii_json (PDict history_sample) = Inr (json_ascii t @ [char_of (10 :: nat)])"
    unfolding ascii_json_def by (simp only: option.case)
  have "esc_len sample_digest = 64" "length (nat_repr 0) = 1"
    by (simp_all add: sample_digest_def esc_len_plain list_all_iff ord_of_def nat_repr.simps)
  then have "dump_bound (PDict history_sample) \<le> 1350"
    by (simp add: history_sample_def json_escape_def ord_of_def)
  then show ?thesis
    using that [OF b] length_ascii_json [OF b sample_flat] by (simp add: history_receipt_limit_def)
qed

lemma sample_hash_utf8: "valid_utf8 sample_digest"
  by (auto simp: sample_digest_def ord_of_def list_all_iff intro!: valid_utf8_ascii)

lemma sample_access: "git_history_access (PDict sample_capability) = Inr history_not_required"
proof -
  have "keys_are sample_capability capability_keys" by code_simp
  then show ?thesis
    using sample_hex
    by (simp add: git_history_access_def Let_def sample_capability_def dict_get_def in_strings_def
        history_required_def history_not_required_def)
qed

lemma sample_isolation:
  assumes "ascii_json (PDict history_sample) = Inr b"
  shows "isolation_document sample_actor history_not_required sample_capability sample_digest =
           Inr (sort_dict history_sample, b)"
proof -
  note parsed = history_document_parsed [OF sample_check sample_keys(2) sample_hash_utf8 assms]
  obtain core where core: "absent_core sample_digest sample_capability = Inr core"
    "combined_receipt core sample_counted sample_counted = history_sample"
    using sample_combined by (auto simp: rbind_Inr_iff)
  have items: "dict_item (sort_dict history_sample) ''capability_instruction_sha256'' = Inr (PStr sample_digest)"
    "dict_item (sort_dict history_sample) ''trusted_manifest_sha256'' = Inr (PStr sample_digest)"
    using sample_keys(2) by (simp_all add: dict_item_def history_sample_def)
  have "isolate_core sample_actor ''/work'' history_not_required sample_digest sample_capability sample_counted
      = Inr (core, sample_counted)"
    using core(1) by (simp add: isolate_core_def Let_def sample_execution sample_topology)
      (simp add: sample_counted_def)
  then show ?thesis
    using core(2) assms parsed items
    by (simp add: isolation_document_def sample_execution sample_topology)
      (simp add: sample_actor_def sample_capability_def dict_item_def sample_counted_def
        history_required_def history_not_required_def)
qed

definition sample_fsys :: fsys where
  "sample_fsys = \<lparr>entries = [([], Dir 448)], contents = (\<lambda>_. []), next_inode = 0, faults = []\<rparr>"

lemma sample_isolated:
  assumes "ascii_json (PDict history_sample) = Inr b"
  shows "\<exists>t. isolate_preexisting_git_history sample_actor [] (PDict sample_capability) sample_digest sample_fsys
             = (Inr (sort_dict history_sample), t)"
  using sample_access sample_isolation [OF assms] sample_hex
  by (simp add: isolate_preexisting_git_history_def io_bind_def io_lift_def io_guard_def io_seq_def
      sample_fsys_def is_dir_def lookup_def fs_create_def fs_write_def fs_fsync_def syscall_quiet new_file_def
      add_entry_def Let_def)

theorem isolated_receipt_is_admitted_witness:
  "\<exists>r r' t. isolate_preexisting_git_history sample_actor [] (PDict sample_capability) sample_digest sample_fsys = (Inr r, t)
     \<and> load_git_history_baseline_receipt [history_receipt_name] (PDict sample_capability) sample_digest (t\<lparr>faults := []\<rparr>)
       = (Inr r', t\<lparr>faults := []\<rparr>) \<and> dict_get r' = dict_get r"
proof -
  obtain b where b: "ascii_json (PDict history_sample) = Inr b" "length b \<le> history_receipt_limit"
    by (rule sample_document)
  obtain t where t: "isolate_preexisting_git_history sample_actor [] (PDict sample_capability) sample_digest sample_fsys
      = (Inr (sort_dict history_sample), t)"
    using sample_isolated [OF b(1)] by blast
  have "ascii_json (PDict (sort_dict history_sample)) = Inr b"
    using history_document_parsed(3) [OF sample_check sample_keys(2) sample_hash_utf8 b(1)] .
  with b(2) have "\<And>b'. ascii_json (PDict (sort_dict history_sample)) = Inr b' \<Longrightarrow> length b' \<le> history_receipt_limit"
    by simp
  from isolated_receipt_is_admitted [OF t this] t show ?thesis by auto
qed

theorem admitted_run_has_no_history_witness:
  "\<exists>s d t commits. load_git_history_baseline_receipt [history_receipt_name] (PDict sample_capability) sample_digest s = (Inr d, t)
     \<and> dict_get sample_capability ''git_history_access'' = PStr history_not_required
     \<and> dict_get d ''root_commit_count'' = PInt commits \<and> commits \<le> 1"
proof -
  obtain b where b: "ascii_json (PDict history_sample) = Inr b" "length b \<le> history_receipt_limit"
    by (rule sample_document)
  note parsed = history_document_parsed [OF sample_check sample_keys(2) sample_hash_utf8 b(1)]
  let ?s = "\<lparr>entries = [([history_receipt_name], File 0)], contents = (\<lambda>_. b), next_inode = 1, faults = []\<rparr>"
  have items: "dict_item (sort_dict history_sample) ''capability_instruction_sha256'' = Inr (PStr sample_digest)"
    "dict_item (sort_dict history_sample) ''trusted_manifest_sha256'' = Inr (PStr sample_digest)"
    using sample_keys(2) by (simp_all add: dict_item_def history_sample_def)
  have "admit_receipt_bytes (PDict sample_capability) sample_digest history_not_required b =
      Inr (sort_dict history_sample)"
    unfolding admit_receipt_bytes_Inr using parsed items by (simp add: sample_capability_def dict_item_def)
  then have load: "load_git_history_baseline_receipt [history_receipt_name] (PDict sample_capability) sample_digest ?s
      = (Inr (sort_dict history_sample), ?s)"
    by (intro load_history_receipt_run [OF _ _ b(2) sample_access]) (simp_all add: read_file_def lookup_def)
  have acc: "dict_get sample_capability ''git_history_access'' = PStr history_not_required"
    by (simp add: sample_capability_def dict_get_def history_not_required_def)
  from admitted_run_has_no_history [OF load acc] load acc show ?thesis by blast
qed

end
