(* ===== verification/Git_Audit.thy ===== *)
theory Git_Audit
  imports Git_Receipt
begin

text \<open>
  \<open>harbor/git_history_audit.py\<close>: the audit of the public evidence of a trial for uses of Git
  history that was there before the run. It finds tool calls whose arguments look like an access to
  history, decides whether output came back and whether it was reused in a later change, and
  blocks the submission unless the use was granted or came to nothing.
\<close>

section \<open>Patterns\<close>

definition history_verbs :: regex where
  "history_verbs = one_of [''log'', ''show'', ''reflog'', ''cat-file'', ''fsck'']"

definition not_space :: "nat list \<Rightarrow> regex" where
  "not_space cs = Repeat True 1 None (Chars True (Space # map Point cs))"

definition git_history_command :: regex where
  "git_history_command =
     cat [Boundary, lit ''git'',
          Repeat True 0 None (cat [spaces, lit ''-'', not_space [], opt (cat [lit ''='', not_space []])]),
          spaces, history_verbs, Boundary]"

definition git_alias_history :: regex where
  "git_alias_history =
     cat [Boundary, lit ''git'', spaces, lit ''-c'', spaces, lit ''alias.'', not_space [61], lit ''='',
          opt (cat [Repeat True 0 None (Chars True [Space]), Boundary]), history_verbs, Boundary]"

definition historical_revision_path :: regex where
  "historical_revision_path =
     cat [alts [cat [Boundary, Repeat True 7 (Some 40) (Chars False [Span 48 57, Span 97 102])],
                cat [Boundary, lit ''HEAD'',
                     Repeat True 1 None (cat [Chars False [Point 126, Point 94], Repeat True 0 None (Chars False [Digit])])],
                cat [Boundary, lit ''refs/'', not_space [58]]],
          lit '':'', not_space []]"

definition path_separator :: regex where
  "path_separator = Chars False [Point 47, Point 92]"

definition git_internal_path :: regex where
  "git_internal_path =
     alts [cat [lit ''.git'', path_separator, Group 1 (one_of [''objects'', ''logs'', ''refs'']),
                alts [path_separator, AtEnd]],
           cat [lit ''.git'', path_separator, Group 2 (one_of [''packed-refs'', ''stash'']),
                alts [AtEnd, Chars False [Space, Point 39, Point 34, Point 47, Point 92]]]]"

definition library_history :: regex where
  "library_history =
     alts [word_of (map lit [''gitpython'', ''pygit2'', ''dulwich'']),
           cat [lit ''.git.'', one_of [''log'', ''show'', ''reflog'']],
           cat [Boundary, lit ''Repo'', Repeat True 0 None (Chars False [Space]), lit ''('',
                Repeat True 0 None (Chars True [Point 41]), lit '')'', Repeat True 0 None (Chars False [Space]),
                lit ''.'', Repeat True 0 None (Chars False [Space]), one_of [''commit'', ''iter_commits''], Boundary]]"

definition git_options :: regex where
  "git_options = Repeat True 0 None (cat [spaces, lit ''-'', not_space []])"

definition git_commit :: regex where
  "git_commit = cat [Boundary, lit ''git'', git_options, spaces, lit ''commit'', Boundary]"

definition git_show_revision :: regex where
  "git_show_revision =
     cat [Boundary, lit ''git'', git_options, spaces, lit ''show'', spaces, Group 1 (not_space [58])]"

text \<open>The two patterns that are searched with the case of letters.\<close>

definition case_flags :: "unicode \<Rightarrow> flags" where
  "case_flags u = \<lparr>chardata = u, ignore_case = False\<rparr>"

definition created_commit :: regex where
  "created_commit =
     cat [lit ''['', Repeat True 0 None (Chars True [Point 93]), Chars False [Space],
          Group 1 (Repeat True 7 (Some 40) (Chars False [Span 48 57, Span 97 102])), lit '']'']"

definition file_writing :: regex where
  "file_writing = alts [lit ''>'', cat [Boundary, one_of [''sed'', ''perl''], spaces, lit ''-i'', Boundary]]"

definition found_in :: "flags \<Rightarrow> regex \<Rightarrow> nat list \<Rightarrow> bool" where
  "found_in f r s \<longleftrightarrow> search f r s 0 \<noteq> None"

section \<open>Reading the arguments and outputs of a call\<close>

primrec join_lines :: "pystr list \<Rightarrow> pystr" where
  "join_lines [] = []"
| "join_lines (x # xs) = (if xs = [] then x else x @ [CHR 0x0A] @ join_lines xs)"

fun argument_text :: "pyval \<Rightarrow> pystr" where
  "argument_text (PStr s) = s"
| "argument_text (PDict d) = join_lines (map (\<lambda>kv. argument_text (snd kv)) d)"
| "argument_text (PList xs) = join_lines (map argument_text xs)"
| "argument_text _ = []"

definition history_access_kind :: "unicode \<Rightarrow> pystr \<Rightarrow> pystr option" where
  "history_access_kind u t =
     (let s = code_points t; f = policy_flags u in
      case search f git_internal_path s 0 of
        Some m \<Rightarrow>
          (let family = (case group_text s m 1 of
                           Some g \<Rightarrow> if g = [] then group_text s m 2 else Some g
                         | None \<Rightarrow> group_text s m 2)
           in Some (if family = Some (code_points ''objects'') then ''object_database'' else ''git_internal''))
      | None \<Rightarrow>
          if found_in f git_history_command s \<or> found_in f git_alias_history s then Some ''git_history_command''
          else if found_in f historical_revision_path s then Some ''historical_revision''
          else if found_in f library_history s then Some ''history_library'' else None)"

text \<open>\<open>str.splitlines()\<close> and \<open>str.strip()\<close>.\<close>

definition is_line_break :: "nat \<Rightarrow> bool" where
  "is_line_break c \<longleftrightarrow> c \<in> {10, 11, 12, 13, 28, 29, 30, 133, 8232, 8233}"

fun split_lines :: "nat list \<Rightarrow> nat list \<Rightarrow> nat list list" where
  "split_lines acc [] = (if acc = [] then [] else [acc])"
| "split_lines acc (c # s) =
     (if c = 13 \<and> take 1 s = [10] then acc # split_lines [] (drop 1 s)
      else if is_line_break c then acc # split_lines [] s
      else split_lines (acc @ [c]) s)"

definition strip_points :: "nat list \<Rightarrow> nat list" where
  "strip_points s = rev (dropWhile is_space_point (rev (dropWhile is_space_point s)))"

definition reuse_chunks :: "nat list \<Rightarrow> nat list list" where
  "reuse_chunks output =
     (let chunks = foldl (\<lambda>acc line.
            let normalized = strip_points line in
            if 24 \<le> length normalized \<and> normalized \<notin> set acc then acc @ [normalized] else acc)
          [] (split_lines [] output)
      in if chunks = [] \<and> 24 \<le> length (strip_points output) then [strip_points output] else chunks)"

fun contains :: "nat list \<Rightarrow> nat list \<Rightarrow> bool" where
  "contains p [] = (p = [])"
| "contains p (c # s) = (take (length p) (c # s) = p \<or> contains p s)"

section \<open>The intent of the instruction\<close>

text \<open>\<open>None\<close>: the instruction or the record of its capability cannot be relied on.\<close>

definition history_intent :: "unicode \<Rightarrow> pyval \<Rightarrow> pyval \<Rightarrow> pyval \<Rightarrow> bool option" where
  "history_intent u instruction capability manifest =
     (case instruction of
        PStr t \<Rightarrow>
          if list_all is_space_point (code_points t) then None
          else if capability = PNone then
            (case compile_git_history_access u instruction of
               Inr access \<Rightarrow> Some (access = history_required) | Inl e \<Rightarrow> None)
          else
            (case manifest of
               PStr m \<Rightarrow>
                 (case validate_git_history_capability u capability instruction manifest of
                    Inr d \<Rightarrow> Some (py_eq (dict_get d ''git_history_access'') (PStr history_required))
                  | Inl e \<Rightarrow> None)
             | _ \<Rightarrow> None)
      | _ \<Rightarrow> None)"

definition intent_value :: "bool option \<Rightarrow> pyval" where
  "intent_value b = (case b of None \<Rightarrow> PNone | Some x \<Rightarrow> PBool x)"

section \<open>Findings\<close>

definition finding_schema :: pystr where
  "finding_schema = ''nano-git-history-finding-v1''"

definition audit_schema :: pystr where
  "audit_schema = ''nano-git-history-audit-v1''"

definition finding_keys :: "pystr list" where
  "finding_keys =
     [''schema_version'', ''call_id'', ''tool_name'', ''access_kind'', ''attempted'', ''dispatched'',
      ''bytes_returned'', ''history_required'', ''causal_reuse'', ''evidence_complete'',
      ''arguments_sha256'', ''evidence_sources'']"

definition submission_blocking_finding :: "pyval \<Rightarrow> bool" where
  "submission_blocking_finding v =
     (case v of
        PDict d \<Rightarrow>
          (let g = dict_get d in
           if \<not> keys_are d finding_keys \<or> \<not> py_eq (g ''schema_version'') (PStr finding_schema) then True
           else if list_ex (\<lambda>k. \<not> is_bool (g k))
               [''attempted'', ''dispatched'', ''bytes_returned'', ''causal_reuse'', ''evidence_complete''] then True
           else if g ''history_required'' \<noteq> PNone \<and> \<not> is_bool (g ''history_required'') then True
           else if g ''attempted'' \<noteq> PBool True \<or> g ''evidence_complete'' \<noteq> PBool True
               \<or> g ''history_required'' = PNone
               \<or> (g ''bytes_returned'' = PBool True \<and> g ''dispatched'' \<noteq> PBool True)
               \<or> (g ''causal_reuse'' = PBool True \<and> g ''bytes_returned'' \<noteq> PBool True) then True
           else g ''history_required'' = PBool False
                \<and> (g ''bytes_returned'' = PBool True \<or> g ''causal_reuse'' = PBool True))
      | _ \<Rightarrow> True)"

definition counts_value :: "int list \<Rightarrow> pyval" where
  "counts_value ns =
     PDict (zip [''findings'', ''attempted'', ''dispatched'', ''bytes_returned'', ''causal_reuse'', ''warnings'',
                 ''blocking''] (map PInt ns))"

definition incomplete_audit :: "bool option \<Rightarrow> pystr \<Rightarrow> pydict" where
  "incomplete_audit required state =
     [(''schema_version'', PStr audit_schema), (''finding_schema_version'', PStr finding_schema),
      (''state'', PStr state), (''history_required'', intent_value required),
      (''evidence_complete'', PBool False), (''findings'', PList []),
      (''counts'', counts_value [0, 0, 0, 0, 0, 0, 0]), (''submission_blocking'', PBool True)]"

section \<open>Collecting the calls of a trajectory\<close>

text \<open>A call and, once a result was observed for it, its output.\<close>

record audit_call =
  ac_call_id :: pystr
  ac_tool_name :: pystr
  ac_arguments :: pydict
  ac_output :: "pystr option"
  ac_dispatched :: bool

definition evidence_invalid :: py_error where
  "evidence_invalid = ValueError []"

text \<open>The state: all calls so far, and the ids of the calls of the current step.\<close>

definition take_call :: "audit_call list \<times> pystr list \<Rightarrow> pyval \<Rightarrow> (audit_call list \<times> pystr list) result" where
  "take_call st call =
     (case call of
        PDict d \<Rightarrow>
          (case (dict_get d ''tool_call_id'', dict_get d ''function_name'', dict_get d ''arguments'') of
             (PStr i, PStr n, PDict args) \<Rightarrow>
               ensure (i \<noteq> [] \<and> i \<notin> ac_call_id ` set (fst st)) evidence_invalid
                 (Inr (fst st @ [\<lparr>ac_call_id = i, ac_tool_name = n, ac_arguments = args, ac_output = None,
                                  ac_dispatched = False\<rparr>],
                       snd st @ [i]))
           | _ \<Rightarrow> Inl evidence_invalid)
      | _ \<Rightarrow> Inl evidence_invalid)"

text \<open>A result: the state is the calls and the ids observed so far; \<open>ids\<close> are those of the step.\<close>

definition take_result ::
  "pystr list \<Rightarrow> audit_call list \<times> pystr list \<Rightarrow> pyval \<Rightarrow> (audit_call list \<times> pystr list) result" where
  "take_result ids st res =
     (case res of
        PDict d \<Rightarrow>
          (case (dict_get d ''source_call_id'', dict_get d ''content'') of
             (PStr i, PStr content) \<Rightarrow>
               ensure (i \<in> set ids \<and> i \<notin> set (snd st)) evidence_invalid
                 (Inr (map (\<lambda>c. if ac_call_id c = i
                               then c\<lparr>ac_output := Some content, ac_dispatched := True\<rparr> else c) (fst st),
                       snd st @ [i]))
           | _ \<Rightarrow> Inl evidence_invalid)
      | _ \<Rightarrow> Inl evidence_invalid)"

definition take_step :: "audit_call list \<Rightarrow> pyval \<Rightarrow> audit_call list result" where
  "take_step calls step =
     (case step of
        PDict d \<Rightarrow>
          (case dict_get_default d ''tool_calls'' (PList []) of
             PList tool_calls \<Rightarrow>
               rbind (rfold take_call (calls, []) tool_calls) (\<lambda>(calls', ids).
                 case dict_get d ''observation'' of
                   PNone \<Rightarrow> Inr calls'
                 | PDict observation \<Rightarrow>
                     (case dict_get_default observation ''results'' (PList []) of
                        PList results \<Rightarrow>
                          rbind (rfold (take_result ids) (calls', []) results) (\<lambda>st. Inr (fst st))
                      | _ \<Rightarrow> Inl evidence_invalid)
                 | _ \<Rightarrow> Inl evidence_invalid)
           | _ \<Rightarrow> Inl evidence_invalid)
      | _ \<Rightarrow> Inl evidence_invalid)"

definition collect_calls :: "pyval list \<Rightarrow> audit_call list result" where
  "collect_calls steps = rfold take_step [] steps"

section \<open>The audit\<close>

text \<open>
  \<open>_canonical\<close>. A float, whose \<open>repr\<close> is not modelled, or an integer beyond the digit limit is
  outside the model.
\<close>

definition audit_canonical :: "pyval \<Rightarrow> bytes result" where
  "audit_canonical v = (case json_dumps (sort_keys v) of None \<Rightarrow> Inl Outside_model | Some t \<Rightarrow> py_encode t)"

definition call_text :: "audit_call \<Rightarrow> pystr" where
  "call_text c = argument_text (PDict (ac_arguments c))"

text \<open>The commits the run itself made up to a call, by name and abbreviated hash.\<close>

definition own_revisions :: "unicode \<Rightarrow> nat list list \<Rightarrow> audit_call \<Rightarrow> nat list list" where
  "own_revisions u revs c =
     (if found_in (policy_flags u) git_commit (code_points (call_text c)) \<and> ac_dispatched c then
        (let revs' = List.insert (code_points ''HEAD'') revs in
         case ac_output c of
           None \<Rightarrow> revs'
         | Some out \<Rightarrow>
             (case search (case_flags u) created_commit (code_points out) 0 of
                None \<Rightarrow> revs'
              | Some m \<Rightarrow>
                  (case group_text (code_points out) m 1 of
                     None \<Rightarrow> revs' | Some g \<Rightarrow> List.insert (map lower_point g) revs')))
      else revs)"

text \<open>
  \<open>shown.group(1).lower() in run_revisions\<close>. The elements of \<open>run_revisions\<close> are \<open>"HEAD"\<close> and
  lower-case hexadecimal strings, which only ASCII characters lower to, so lowering ASCII decides it.
\<close>

definition shows_own_revision :: "unicode \<Rightarrow> nat list list \<Rightarrow> audit_call \<Rightarrow> bool" where
  "shows_own_revision u revs c =
     (let s = code_points (call_text c) in
      case search (policy_flags u) git_show_revision s 0 of
        None \<Rightarrow> False
      | Some m \<Rightarrow>
          (case group_text s m 1 of None \<Rightarrow> False | Some g \<Rightarrow> map lower_point g \<in> set revs))"

definition changes_files :: "unicode \<Rightarrow> audit_call \<Rightarrow> bool" where
  "changes_files u c \<longleftrightarrow>
     ac_tool_name c \<in> {''write'', ''search_replace''}
     \<or> ac_tool_name c = ''run_terminal_command''
       \<and> found_in (case_flags u) file_writing (code_points (call_text c))"

definition later_text :: "unicode \<Rightarrow> pyval \<Rightarrow> audit_call list \<Rightarrow> pystr" where
  "later_text u delta later =
     join_lines (map call_text (filter (changes_files u) later))
     @ (if delta = PNone then [] else [CHR 0x0A] @ argument_text delta)"

definition returned_bytes :: "audit_call \<Rightarrow> bool" where
  "returned_bytes c \<longleftrightarrow> ac_output c \<noteq> None \<and> ac_output c \<noteq> Some []"

definition reused_later :: "unicode \<Rightarrow> pyval \<Rightarrow> audit_call \<Rightarrow> audit_call list \<Rightarrow> bool" where
  "reused_later u delta c later \<longleftrightarrow>
     (case ac_output c of
        None \<Rightarrow> False
      | Some out \<Rightarrow>
          out \<noteq> [] \<and> list_ex (\<lambda>chunk. contains chunk (code_points (later_text u delta later)))
                        (reuse_chunks (code_points out)))"

definition finding_value ::
  "unicode \<Rightarrow> bool option \<Rightarrow> pystr \<Rightarrow> pyval \<Rightarrow> pystr \<Rightarrow> audit_call \<Rightarrow> audit_call list \<Rightarrow> pydict result" where
  "finding_value u required trajectory_sha delta kind c later =
     rbind (audit_canonical (PDict (ac_arguments c))) (\<lambda>arguments.
       Inr [(''schema_version'', PStr finding_schema), (''call_id'', PStr (ac_call_id c)),
            (''tool_name'', PStr (ac_tool_name c)), (''access_kind'', PStr kind),
            (''attempted'', PBool True), (''dispatched'', PBool (ac_dispatched c)),
            (''bytes_returned'', PBool (returned_bytes c)), (''history_required'', intent_value required),
            (''causal_reuse'', PBool (reused_later u delta c later)), (''evidence_complete'', PBool True),
            (''arguments_sha256'', PStr (sha256_hex arguments)),
            (''evidence_sources'', PList [PDict [(''kind'', PStr ''atif''), (''sha256'', PStr trajectory_sha)]])])"

primrec audit_calls ::
  "unicode \<Rightarrow> bool option \<Rightarrow> pystr \<Rightarrow> pyval \<Rightarrow> nat list list \<Rightarrow> audit_call list \<Rightarrow> pydict list result" where
  "audit_calls u required sha delta revs [] = Inr []"
| "audit_calls u required sha delta revs (c # later) =
     (let revs' = own_revisions u revs c in
      case history_access_kind u (call_text c) of
        None \<Rightarrow> audit_calls u required sha delta revs' later
      | Some kind \<Rightarrow>
          if shows_own_revision u revs' c then audit_calls u required sha delta revs' later
          else rbind (finding_value u required sha delta kind c later) (\<lambda>f.
               rbind (audit_calls u required sha delta revs' later) (\<lambda>fs. Inr (f # fs))))"

definition count_true :: "pystr \<Rightarrow> pydict list \<Rightarrow> int" where
  "count_true k fs = int (length (filter (\<lambda>f. dict_get f k = PBool True) fs))"

definition blocking_count :: "pydict list \<Rightarrow> int" where
  "blocking_count fs = int (length (filter (\<lambda>f. submission_blocking_finding (PDict f)) fs))"

definition available_audit :: "bool option \<Rightarrow> pydict list \<Rightarrow> pydict" where
  "available_audit required fs =
     [(''schema_version'', PStr audit_schema), (''finding_schema_version'', PStr finding_schema),
      (''state'', PStr ''available''), (''history_required'', intent_value required),
      (''evidence_complete'', PBool True), (''findings'', PList (map PDict fs)),
      (''counts'',
        counts_value [int (length fs), int (length fs), count_true ''dispatched'' fs,
          count_true ''bytes_returned'' fs, count_true ''causal_reuse'' fs,
          int (length fs) - blocking_count fs, blocking_count fs]),
      (''submission_blocking'', PBool (required = None \<or> blocking_count fs \<noteq> 0))]"

definition audit_public_evidence ::
  "unicode \<Rightarrow> pyval \<Rightarrow> pyval \<Rightarrow> pyval \<Rightarrow> pyval \<Rightarrow> pyval \<Rightarrow> pydict result" where
  "audit_public_evidence u instruction trajectory delta capability manifest =
     (let required = history_intent u instruction capability manifest;
          invalid = Inr (incomplete_audit required ''invalid'') in
      case trajectory of
        PDict d \<Rightarrow>
          (case dict_get d ''steps'' of
             PList steps \<Rightarrow>
               (case collect_calls steps of
                  Inl e \<Rightarrow> invalid
                | Inr calls \<Rightarrow>
                    rbind (audit_canonical trajectory) (\<lambda>raw.
                    rbind (audit_calls u required (sha256_hex raw) delta [] calls) (\<lambda>fs.
                      Inr (available_audit required fs))))
           | _ \<Rightarrow> invalid)
      | _ \<Rightarrow> invalid)"

section \<open>Auditing the files of a trial\<close>

definition public_invalid :: py_error where
  "public_invalid = ValueError ''public_evidence_invalid''"

text \<open>\<open>_read_public_file\<close>: \<open>lstat\<close>, then the whole file.\<close>

definition read_public_file :: "nat \<Rightarrow> path \<Rightarrow> bytes io" where
  "read_public_file limit p =
     io_seq (fs_probe (\<lambda>s. present s p))
       (io_bind (\<lambda>s. (Inr (read_file s p), s)) (\<lambda>found.
          case found of
            None \<Rightarrow> io_raise public_invalid
          | Some raw \<Rightarrow>
              io_check (length raw \<le> limit) public_invalid
                (io_seq (fs_probe (\<lambda>s. True)) (io_return raw))))"

text \<open>
  \<open>_bound_agent_path\<close>. A proper prefix that is a symbolic link makes the candidate absent in the
  model, and a candidate that is one is refused when it is read; the code refuses either, unless the
  link leads to a regular file inside the directory through a directory link.
\<close>

definition bound_agent_path :: "path \<Rightarrow> pyval \<Rightarrow> path io" where
  "bound_agent_path agent_dir relative =
     (case relative of
        PStr r \<Rightarrow>
          io_check (r \<noteq> [] \<and> \<not> path_is_absolute r \<and> list_all (\<lambda>part. part \<notin> {[], ''.'', ''..''}) (path_parts r)
                    \<and> CHR 0x00 \<notin> set r) public_invalid
            (io_seq (fs_probe (\<lambda>s. present s (agent_dir @ path_parts r)))
              (io_return (agent_dir @ path_parts r)))
      | _ \<Rightarrow> io_raise public_invalid)"

text \<open>\<open>path.is_file()\<close>, which follows symbolic links: \<open>link_to_file\<close> says where they lead.\<close>

definition is_file :: "(path \<Rightarrow> bool) \<Rightarrow> path \<Rightarrow> fsys \<Rightarrow> bool" where
  "is_file link_to_file p s =
     (case lookup s p of Some (File i) \<Rightarrow> True | Some Symlink \<Rightarrow> link_to_file p | _ \<Rightarrow> False)"

definition io_catch :: "(py_error \<Rightarrow> bool) \<Rightarrow> 'a io \<Rightarrow> 'a \<Rightarrow> 'a io" where
  "io_catch P m x s = (case m s of (Inl e, t) \<Rightarrow> if P e then (Inr x, t) else (Inl e, t) | out \<Rightarrow> out)"

definition evidence_error :: "py_error \<Rightarrow> bool" where
  "evidence_error e \<longleftrightarrow> e = OSError \<or> is_value_error e"

fun is_runtime_error :: "py_error \<Rightarrow> bool" where
  "is_runtime_error (RuntimeError m) = True"
| "is_runtime_error _ = False"

definition public_limit :: nat where
  "public_limit = 32 * 1024 * 1024"

definition audit_marked ::
  "unicode \<Rightarrow> path \<Rightarrow> pyval \<Rightarrow> pyval \<Rightarrow> pyval \<Rightarrow> pydict io" where
  "audit_marked u agent_dir instruction capability manifest =
     io_bind (read_public_file (1024 * 1024) (agent_dir @ [''agent-run.json''])) (\<lambda>marker_raw.
     io_bind (io_lift (json_loads_bytes default_hooks marker_raw)) (\<lambda>marker.
     case marker of
       PDict m \<Rightarrow>
         io_bind (bound_agent_path agent_dir (dict_get m ''trajectory_path'')) (\<lambda>trajectory_path.
         io_bind (read_public_file public_limit trajectory_path) (\<lambda>trajectory_raw.
         io_check (py_eq (dict_get m ''trajectory_sha256'') (PStr (sha256_hex trajectory_raw))) public_invalid
           (io_bind (io_lift (json_loads_bytes default_hooks trajectory_raw)) (\<lambda>trajectory.
            io_bind
              (\<lambda>s. if present s (agent_dir @ [''workspace-delta.json''])
                   then io_bind (read_public_file public_limit (agent_dir @ [''workspace-delta.json'']))
                          (\<lambda>raw. io_lift (json_loads_bytes default_hooks raw)) s
                   else (Inr PNone, s)) (\<lambda>delta.
              io_lift (audit_public_evidence u instruction trajectory delta capability manifest))))))
     | _ \<Rightarrow> io_raise public_invalid))"

definition audit_partial :: "unicode \<Rightarrow> path \<Rightarrow> pyval \<Rightarrow> pyval \<Rightarrow> pyval \<Rightarrow> pydict io" where
  "audit_partial u agent_dir instruction capability manifest =
     io_bind (read_public_file public_limit (agent_dir @ [''partial-trajectory.json''])) (\<lambda>raw.
     io_bind (io_lift (json_loads_bytes default_hooks raw)) (\<lambda>trajectory.
       io_lift (audit_public_evidence u instruction trajectory PNone capability manifest)))"

definition audit_trial ::
  "unicode \<Rightarrow> (path \<Rightarrow> bool) \<Rightarrow> path \<Rightarrow> pyval \<Rightarrow> pyval \<Rightarrow> pyval \<Rightarrow> pyval \<Rightarrow> pydict io" where
  "audit_trial u link_to_file trial_dir instruction capability manifest run_spec =
     (let required = history_intent u instruction capability manifest;
          agent_dir = trial_dir @ [''agent''];
          invalid = incomplete_audit required ''invalid'';
          unavailable = incomplete_audit required ''unavailable'' in
      (\<lambda>s. if \<not> is_dir s agent_dir then (Inr unavailable, s)
          else io_bind
            (if capability = PNone then io_return True
             else case run_spec of
                 PStr run_hash \<Rightarrow>
                   io_catch is_runtime_error
                     (io_bind (load_git_history_baseline_receipt (agent_dir @ [history_receipt_name]) capability run_hash)
                       (\<lambda>_. io_return True))
                     False
               | _ \<Rightarrow> io_return False)
            (\<lambda>admitted s.
              if \<not> admitted then (Inr invalid, s)
              else if \<not> is_file link_to_file (agent_dir @ [''agent-run.json'']) s then
                (if is_file link_to_file (agent_dir @ [''partial-trajectory.json'']) s
                    \<and> \<not> is_symlink s (agent_dir @ [''partial-trajectory.json''])
                 then io_catch evidence_error (audit_partial u agent_dir instruction capability manifest) invalid s
                 else (Inr unavailable, s))
              else io_catch evidence_error (audit_marked u agent_dir instruction capability manifest) invalid s) s))"

end
