(* ===== verification/Git_Audit_Correct.thy ===== *)
theory Git_Audit_Correct
  imports Git_Audit
begin

text \<open>
  What the audit of a trial guarantees: which texts count as an access to history, that a verdict
  that does not block follows from complete evidence, and what such a verdict says of every call.
\<close>

section \<open>Accesses to history\<close>

lemma found_in_iff: "found_in f r s \<longleftrightarrow> (\<exists>i j. i \<le> length s \<and> matches f s r i j)"
  using search_None [of f r s 0] by (auto simp: found_in_def)

definition history_language :: "unicode \<Rightarrow> nat list \<Rightarrow> nat \<Rightarrow> nat \<Rightarrow> bool" where
  "history_language u s i j \<longleftrightarrow>
     (\<exists>r. r \<in> {git_internal_path, git_history_command, git_alias_history, historical_revision_path, library_history}
          \<and> matches (policy_flags u) s r i j)"


section \<open>Findings and verdicts\<close>

lemma finding_value_Inr:
  "finding_value u required sha delta kind c later = Inr f \<Longrightarrow>
     dict_get f ''bytes_returned'' = PBool (returned_bytes c)
     \<and> dict_get f ''history_required'' = intent_value required
     \<and> dict_get f ''causal_reuse'' = PBool (reused_later u delta c later)
     \<and> dict_get f ''call_id'' = PStr (ac_call_id c)"
  by (auto simp: finding_value_def rbind_Inr_iff dict_get_def)

text \<open>Every access that is not to a commit of the run itself has its finding.\<close>

lemma audit_calls_finds:
  assumes "audit_calls u required sha delta revs calls = Inr fs" and "calls = pre @ c # later"
    and "history_access_kind u (call_text c) \<noteq> None"
    and "\<not> shows_own_revision u (foldl (own_revisions u) revs (pre @ [c])) c"
  shows "\<exists>f kind. f \<in> set fs \<and> finding_value u required sha delta kind c later = Inr f"
  using assms
proof (induction calls arbitrary: revs fs pre)
  case Nil
  then show ?case by simp
next
  case (Cons a calls)
  let ?revs = "own_revisions u revs a"
  show ?case
  proof (cases pre)
    case Nil
    with Cons.prems show ?thesis
      by (auto simp: Let_def rbind_Inr_iff split: option.splits)
  next
    case (Cons b pre')
    with Cons.prems(2) have b: "b = a" and calls: "calls = pre' @ c # later" by auto
    obtain gs where gs: "audit_calls u required sha delta ?revs calls = Inr gs" "\<forall>f \<in> set gs. f \<in> set fs"
      using Cons.prems(1) by (auto simp: Let_def rbind_Inr_iff split: option.splits if_splits)
    with Cons.IH [OF gs(1) calls Cons.prems(3)] Cons.prems(4) Cons b show ?thesis by auto
  qed
qed

lemma unblocked_finding:
  assumes "\<not> submission_blocking_finding (PDict f)" and "dict_get f ''history_required'' = PBool False"
  shows "dict_get f ''bytes_returned'' \<noteq> PBool True" "dict_get f ''causal_reuse'' \<noteq> PBool True"
  using assms by (auto simp: submission_blocking_finding_def Let_def split: if_splits)

lemma blocking_count_0: "blocking_count fs = 0 \<longleftrightarrow> (\<forall>f \<in> set fs. \<not> submission_blocking_finding (PDict f))"
  by (auto simp: blocking_count_def filter_empty_conv)

lemma incomplete_blocks: "dict_get (incomplete_audit required state) ''submission_blocking'' = PBool True"
  by (simp add: incomplete_audit_def dict_get_def)

lemma audit_public_evidence_Inr:
  assumes "audit_public_evidence u instruction trajectory delta capability manifest = Inr d"
    and "dict_get d ''submission_blocking'' = PBool False"
  obtains td steps calls raw fs required where "trajectory = PDict td" "dict_get td ''steps'' = PList steps"
    "collect_calls steps = Inr calls" "audit_canonical trajectory = Inr raw"
    "history_intent u instruction capability manifest = Some required"
    "audit_calls u (Some required) (sha256_hex raw) delta [] calls = Inr fs" "blocking_count fs = 0"
    "d = available_audit (Some required) fs"
proof -
  let ?required = "history_intent u instruction capability manifest"
  have ne: "d \<noteq> incomplete_audit ?required state" for state
    using assms(2) incomplete_blocks [of ?required state] by auto
  obtain td where td: "trajectory = PDict td"
    using assms(1) ne by (cases trajectory) (auto simp: audit_public_evidence_def Let_def)
  obtain steps where steps: "dict_get td ''steps'' = PList steps"
    using assms(1) ne td by (cases "dict_get td ''steps''") (auto simp: audit_public_evidence_def Let_def)
  obtain calls where calls: "collect_calls steps = Inr calls"
    using assms(1) ne td steps by (cases "collect_calls steps") (auto simp: audit_public_evidence_def Let_def)
  obtain raw fs where rest: "audit_canonical trajectory = Inr raw"
    "audit_calls u ?required (sha256_hex raw) delta [] calls = Inr fs" "d = available_audit ?required fs"
    using assms(1) td steps calls by (auto simp: audit_public_evidence_def Let_def rbind_Inr_iff)
  have "?required \<noteq> None \<and> blocking_count fs = 0"
    using assms(2) rest(3) by (simp add: available_audit_def dict_get_def)
  then show ?thesis using that td steps calls rest by auto
qed

text \<open>
  C9: if an audit does not block the submission, then the instruction's intent was established, the
  trajectory was well formed, and unless the instruction calls for history, every call whose
  arguments look like an access to history either shows a commit that the run itself had made by
  then or returned no output.
\<close>

theorem unblocked_audit_used_no_history:
  assumes "audit_public_evidence u instruction trajectory delta capability manifest = Inr d"
    and "dict_get d ''submission_blocking'' = PBool False"
  shows "\<exists>td steps calls required. trajectory = PDict td \<and> dict_get td ''steps'' = PList steps
    \<and> collect_calls steps = Inr calls \<and> history_intent u instruction capability manifest = Some required
    \<and> (required \<or> (\<forall>pre c later. calls = pre @ c # later \<longrightarrow> history_access_kind u (call_text c) \<noteq> None \<longrightarrow>
         shows_own_revision u (foldl (own_revisions u) [] (pre @ [c])) c \<or> \<not> returned_bytes c))"
proof -
  obtain td steps calls raw fs required where
    head: "trajectory = PDict td" "dict_get td ''steps'' = PList steps" "collect_calls steps = Inr calls"
      "history_intent u instruction capability manifest = Some required"
    and fs: "audit_calls u (Some required) (sha256_hex raw) delta [] calls = Inr fs" "blocking_count fs = 0"
    by (rule audit_public_evidence_Inr [OF assms])
  have "\<not> returned_bytes c" if free: "\<not> required"
    and at: "calls = pre @ c # later" "history_access_kind u (call_text c) \<noteq> None"
    "\<not> shows_own_revision u (foldl (own_revisions u) [] (pre @ [c])) c" for pre c later
  proof -
    obtain f kind where f: "f \<in> set fs" "finding_value u (Some required) (sha256_hex raw) delta kind c later = Inr f"
      using audit_calls_finds [OF fs(1) at] by blast
    have "dict_get f ''bytes_returned'' \<noteq> PBool True"
      using fs(2) f(1) finding_value_Inr [OF f(2)] free
      by (intro unblocked_finding(1)) (auto simp: blocking_count_0 intent_value_def)
    then show ?thesis using finding_value_Inr [OF f(2)] by auto
  qed
  then show ?thesis using head by blast
qed

section \<open>The files a verdict rests on\<close>

text \<open>The audit only reads: the state changes in its schedule of faults at most.\<close>

definition same_files :: "fsys \<Rightarrow> fsys \<Rightarrow> bool" where
  "same_files s t \<longleftrightarrow> (\<exists>fl. t = s\<lparr>faults := fl\<rparr>)"

lemma same_files_read:
  "same_files s t \<Longrightarrow> read_file t = read_file s \<and> lookup t = lookup s"
  by (auto simp: same_files_def)

lemma same_files_trans: "same_files s t \<Longrightarrow> same_files t v \<Longrightarrow> same_files s v"
  by (auto simp: same_files_def)

lemma same_files_refl: "same_files s s"
  unfolding same_files_def by (rule exI [of _ "faults s"]) simp

lemma fs_probe_same: "fs_probe P s = (r, t) \<Longrightarrow> same_files s t"
  unfolding fs_probe_def syscall_def same_files_def
  by (auto simp: Let_def split: list.splits bool.splits option.splits if_splits)

lemma read_public_file_Inr:
  assumes "read_public_file limit p s = (Inr raw, t)"
  shows "read_file s p = Some raw" "same_files s t" "length raw \<le> limit"
proof -
  obtain v where v: "fs_probe (\<lambda>s. present s p) s = (Inr (), v)"
    and rest: "(case read_file v p of None \<Rightarrow> io_raise public_invalid
      | Some raw \<Rightarrow> io_check (length raw \<le> limit) public_invalid (io_seq (fs_probe (\<lambda>s. True)) (io_return raw))) v
      = (Inr raw, t)"
    using assms unfolding read_public_file_def io_seq_Inr io_bind_Inr by auto
  note vs = fs_probe_same [OF v]
  with rest show "read_file s p = Some raw" "same_files s t" "length raw \<le> limit"
    by (auto simp: io_raise_def io_check_Inr io_seq_Inr same_files_read split: option.splits
        dest!: fs_probe_same intro: same_files_trans)
qed

lemma bound_agent_path_Inr:
  assumes "bound_agent_path agent v s = (Inr p, t)"
  shows "same_files s t"
  using assms by (cases v) (auto simp: bound_agent_path_def io_raise_def io_check_Inr io_seq_Inr dest: fs_probe_same)

lemma audit_marked_Inr:
  assumes "audit_marked u agent instruction capability manifest s = (Inr d, t)"
  obtains marker_raw m p raw trajectory delta where
    "read_file s (agent @ [''agent-run.json'']) = Some marker_raw"
    "json_loads_bytes default_hooks marker_raw = Inr (PDict m)"
    "read_file s p = Some raw" "dict_get m ''trajectory_sha256'' = PStr (sha256_hex raw)"
    "json_loads_bytes default_hooks raw = Inr trajectory"
    "audit_public_evidence u instruction trajectory delta capability manifest = Inr d"
proof -
  obtain marker_raw marker v where mk: "read_public_file (1024 * 1024) (agent @ [''agent-run.json'']) s = (Inr marker_raw, v)"
    "json_loads_bytes default_hooks marker_raw = Inr marker"
    and rest: "(case marker of
       PDict m \<Rightarrow>
         io_bind (bound_agent_path agent (dict_get m ''trajectory_path'')) (\<lambda>trajectory_path.
         io_bind (read_public_file public_limit trajectory_path) (\<lambda>trajectory_raw.
         io_check (py_eq (dict_get m ''trajectory_sha256'') (PStr (sha256_hex trajectory_raw))) public_invalid
           (io_bind (io_lift (json_loads_bytes default_hooks trajectory_raw)) (\<lambda>trajectory.
            io_bind
              (\<lambda>s. if present s (agent @ [''workspace-delta.json''])
                   then io_bind (read_public_file public_limit (agent @ [''workspace-delta.json'']))
                          (\<lambda>raw. io_lift (json_loads_bytes default_hooks raw)) s
                   else (Inr PNone, s)) (\<lambda>delta.
              io_lift (audit_public_evidence u instruction trajectory delta capability manifest))))))
     | _ \<Rightarrow> io_raise public_invalid) v = (Inr d, t)"
    using assms unfolding audit_marked_def io_bind_Inr io_lift_Inr by blast
  obtain m where m: "marker = PDict m" using rest by (cases marker) (auto simp: io_raise_def)
  from rest obtain p w raw x trajectory delta where path: "bound_agent_path agent (dict_get m ''trajectory_path'') v = (Inr p, w)"
    "read_public_file public_limit p w = (Inr raw, x)"
    "py_eq (dict_get m ''trajectory_sha256'') (PStr (sha256_hex raw))"
    "json_loads_bytes default_hooks raw = Inr trajectory"
    "audit_public_evidence u instruction trajectory delta capability manifest = Inr d"
    unfolding m pyval.case io_bind_Inr io_check_Inr io_lift_Inr by blast
  have "read_file s p = Some raw"
    using read_public_file_Inr(1) [OF path(2)] bound_agent_path_Inr [OF path(1)] read_public_file_Inr(2) [OF mk(1)]
    by (simp add: same_files_read)
  with that [of marker_raw m p raw trajectory delta] mk m path(3-5) read_public_file_Inr(1) [OF mk(1)]
  show ?thesis by simp
qed

lemma audit_partial_Inr:
  assumes "audit_partial u agent instruction capability manifest s = (Inr d, t)"
  obtains raw trajectory where "read_file s (agent @ [''partial-trajectory.json'']) = Some raw"
    "json_loads_bytes default_hooks raw = Inr trajectory"
    "audit_public_evidence u instruction trajectory PNone capability manifest = Inr d"
proof -
  obtain raw trajectory v where
    "read_public_file public_limit (agent @ [''partial-trajectory.json'']) s = (Inr raw, v)"
    "json_loads_bytes default_hooks raw = Inr trajectory"
    "audit_public_evidence u instruction trajectory PNone capability manifest = Inr d"
    using assms unfolding audit_partial_def io_bind_Inr io_lift_Inr by blast
  then show ?thesis using that read_public_file_Inr(1) by blast
qed

lemma io_catch_Inr:
  assumes "io_catch P m x s = (Inr y, t)" and "y \<noteq> x"
  shows "m s = (Inr y, t)"
  using assms by (auto simp: io_catch_def split: prod.splits sum.splits if_splits)

lemma load_history_receipt_same:
  assumes "load_git_history_baseline_receipt p capability run_hash s = (Inr d, t)"
  shows "same_files s t"
proof -
  obtain access u v where "fs_probe (\<lambda>s. present s p \<and> \<not> is_symlink s p) s = (Inr (), u)"
    "fs_probe (\<lambda>s. True) u = (Inr (), v)"
    "(case read_file v p of
        None \<Rightarrow> io_raise receipt_error
      | Some raw \<Rightarrow>
          io_check (length raw \<le> history_receipt_limit) receipt_error
            (io_seq (fs_probe (\<lambda>s. True)) (io_lift (admit_receipt_bytes capability run_hash access raw)))) v
     = (Inr d, t)"
    using assms unfolding load_git_history_baseline_receipt_def io_bind_Inr io_except_Inr io_lift_Inr io_seq_Inr
    by auto
  then show ?thesis
    by (auto simp: io_raise_def io_check_Inr io_seq_Inr io_lift_Inr split: option.splits
        dest!: fs_probe_same intro: same_files_trans)
qed


section \<open>Instances\<close>

lemma no_grant:
  "find_all (policy_flags plain_unicode) explicit_history_action [120] 0 = []"
  "find_all (policy_flags plain_unicode) rewritten_history_recovery [120] 0 = []"
  by code_simp+

lemma sample_intent: "history_intent plain_unicode (PStr ''x'') PNone PNone = Some False"
proof -
  have "code_points ''x'' = [120]" by code_simp
  moreover have "history_matches plain_unicode [120] = []" by (simp add: history_matches_def no_grant)
  ultimately have "supporting_span plain_unicode (PStr ''x'') = Inr None" "\<not> list_all is_space_point (code_points ''x'')"
    by (simp_all add: supporting_span_def ensure_def supporting_match_def is_space_point_def del: code_points.simps)
  then show ?thesis
    by (simp add: history_intent_def compile_git_history_access_def access_of_def history_required_def
        history_not_required_def del: code_points.simps)
qed

definition sample_call :: audit_call where
  "sample_call =
     \<lparr>ac_call_id = ''c1'', ac_tool_name = ''run_terminal_command'',
      ac_arguments = [(''command'', PStr ''.git/logs'')], ac_output = None, ac_dispatched = False\<rparr>"

definition sample_trajectory :: pydict where
  "sample_trajectory =
     [(''steps'', PList [PDict [(''tool_calls'', PList [PDict [(''tool_call_id'', PStr ''c1''),
        (''function_name'', PStr ''run_terminal_command''),
        (''arguments'', PDict [(''command'', PStr ''.git/logs'')])]])]])]"

lemma sample_calls:
  "dict_get sample_trajectory ''steps'' = PList xs \<Longrightarrow> collect_calls xs = Inr [sample_call]"
  by (auto simp: sample_trajectory_def dict_get_def collect_calls_def take_step_def dict_get_default_def
      take_call_def sample_call_def)

lemma history_sample_text: "call_text sample_call = ''.git/logs''"
  by (simp add: call_text_def sample_call_def)

lemma sample_kind: "history_access_kind plain_unicode ''.git/logs'' = Some ''git_internal''"
  by code_simp

lemma sample_canonical: "\<exists>b. audit_canonical (PDict sample_trajectory) = Inr b"
  "\<exists>b. audit_canonical (PDict (ac_arguments sample_call)) = Inr b"
proof -
  have "\<not> isl (audit_canonical (PDict sample_trajectory))"
    "\<not> isl (audit_canonical (PDict (ac_arguments sample_call)))" by code_simp+
  then show "\<exists>b. audit_canonical (PDict sample_trajectory) = Inr b"
    "\<exists>b. audit_canonical (PDict (ac_arguments sample_call)) = Inr b"
    by (metis isl_def old.sum.exhaust)+
qed

lemma sample_shown: "\<not> shows_own_revision plain_unicode (own_revisions plain_unicode [] sample_call) sample_call"
  by (simp add: shows_own_revision_def own_revisions_def sample_call_def Let_def split: option.split)

lemma sample_audit:
  obtains d where "audit_public_evidence plain_unicode (PStr ''x'') (PDict sample_trajectory) PNone PNone PNone = Inr d"
    "dict_get d ''submission_blocking'' = PBool False"
proof -
  obtain steps where steps: "dict_get sample_trajectory ''steps'' = PList steps"
    by (simp add: sample_trajectory_def dict_get_def)
  obtain raw args where raw: "audit_canonical (PDict sample_trajectory) = Inr raw"
    "audit_canonical (PDict (ac_arguments sample_call)) = Inr args" using sample_canonical by blast
  obtain f where f: "finding_value plain_unicode (Some False) (sha256_hex raw) PNone ''git_internal'' sample_call [] = Inr f"
    using raw(2) by (simp add: finding_value_def)
  have shape: "map fst f = finding_keys" "dict_get f ''schema_version'' = PStr finding_schema"
    "dict_get f ''attempted'' = PBool True" "dict_get f ''dispatched'' = PBool False"
    "dict_get f ''bytes_returned'' = PBool False" "dict_get f ''history_required'' = PBool False"
    "dict_get f ''causal_reuse'' = PBool False" "dict_get f ''evidence_complete'' = PBool True"
    using f raw(2) by (auto simp: finding_value_def dict_get_def finding_keys_def intent_value_def sample_call_def
        returned_bytes_def reused_later_def)
  then have "keys_are f finding_keys" by (simp add: keys_are_def dict_keys_def)
  with shape have "\<not> submission_blocking_finding (PDict f)"
    by (simp add: submission_blocking_finding_def is_bool_def)
  then have "blocking_count [f] = 0" by (simp add: blocking_count_def)
  moreover have "audit_calls plain_unicode (Some False) (sha256_hex raw) PNone [] [sample_call] = Inr [f]"
    using f sample_shown by (simp add: Let_def history_sample_text sample_kind)
  ultimately have "audit_public_evidence plain_unicode (PStr ''x'') (PDict sample_trajectory) PNone PNone PNone =
      Inr (available_audit (Some False) [f])" "dict_get (available_audit (Some False) [f]) ''submission_blocking'' = PBool False"
    using steps sample_calls [OF steps] raw sample_intent
    by (simp_all add: audit_public_evidence_def available_audit_def dict_get_def)
  then show ?thesis by (rule that)
qed

theorem unblocked_audit_used_no_history_witness:
  "\<exists>steps calls required. dict_get sample_trajectory ''steps'' = PList steps
    \<and> collect_calls steps = Inr calls \<and> history_intent plain_unicode (PStr ''x'') PNone PNone = Some required
    \<and> (required \<or> (\<forall>pre c later. calls = pre @ c # later \<longrightarrow> history_access_kind plain_unicode (call_text c) \<noteq> None \<longrightarrow>
         shows_own_revision plain_unicode (foldl (own_revisions plain_unicode) [] (pre @ [c])) c \<or> \<not> returned_bytes c))"
proof -
  obtain d where d: "audit_public_evidence plain_unicode (PStr ''x'') (PDict sample_trajectory) PNone PNone PNone = Inr d"
    "dict_get d ''submission_blocking'' = PBool False"
    by (rule sample_audit)
  from unblocked_audit_used_no_history [OF d] show ?thesis by simp
qed

definition sample_trial :: fsys where
  "sample_trial =
     \<lparr>entries = [([], Dir 448), ([''agent''], Dir 448), ([''agent'', ''partial-trajectory.json''], File 0)],
      contents = (\<lambda>_. ''{'' @ [CHR 0x22] @ ''steps'' @ [CHR 0x22] @ '':[]}''), next_inode = 1, faults = []\<rparr>"

lemma sample_trial_audited:
  obtains d t where "audit_trial plain_unicode (\<lambda>_. False) [] (PStr ''x'') PNone PNone PNone sample_trial = (Inr d, t)"
    "dict_get d ''submission_blocking'' = PBool False"
proof -
  let ?raw = "''{'' @ [CHR 0x22] @ ''steps'' @ [CHR 0x22] @ '':[]}''"
  have loads: "json_loads_bytes default_hooks ?raw = Inr (PDict [(''steps'', PList [])])" by code_simp
  have "\<not> isl (audit_canonical (PDict [(''steps'', PList [])]))" by code_simp
  then obtain c where c: "audit_canonical (PDict [(''steps'', PList [])]) = Inr c" by (metis isl_def old.sum.exhaust)
  have pub: "audit_public_evidence plain_unicode (PStr ''x'') (PDict [(''steps'', PList [])]) PNone PNone PNone =
      Inr (available_audit (Some False) [])"
    using sample_intent c by (simp add: audit_public_evidence_def dict_get_def collect_calls_def)
  have "fs_probe P sample_trial = (Inr (), sample_trial)" if "P sample_trial" for P
    using that by (simp add: fs_probe_def syscall_quiet sample_trial_def)
  moreover have "present sample_trial [''agent'', ''partial-trajectory.json'']"
    "read_file sample_trial [''agent'', ''partial-trajectory.json''] = Some ?raw"
    by (simp_all add: sample_trial_def present_def read_file_def lookup_def)
  ultimately have "read_public_file public_limit [''agent'', ''partial-trajectory.json''] sample_trial = (Inr ?raw, sample_trial)"
    by (simp add: read_public_file_def io_seq_def io_bind_def io_check_def public_limit_def)
  then have "audit_partial plain_unicode [''agent''] (PStr ''x'') PNone PNone sample_trial =
      (Inr (available_audit (Some False) []), sample_trial)"
    using loads pub by (simp add: audit_partial_def io_bind_def io_lift_def)
  then have "audit_trial plain_unicode (\<lambda>_. False) [] (PStr ''x'') PNone PNone PNone sample_trial =
      (Inr (available_audit (Some False) []), sample_trial)"
    by (simp add: audit_trial_def Let_def io_bind_def io_catch_def is_file_def is_dir_def is_symlink_def)
      (simp add: sample_trial_def lookup_def)
  moreover have "dict_get (available_audit (Some False) []) ''submission_blocking'' = PBool False"
    by (simp add: available_audit_def dict_get_def blocking_count_def)
  ultimately show ?thesis by (rule that)
qed


end
