(* ===== verification/Runtime_Entry.thy ===== *)
theory Runtime_Entry
  imports Publication
begin

text \<open>
  \<open>harbor/runtime_entry.py\<close>: the durable record of whether the runtime of a run was launched. It is
  created exclusively, once, before the irreversible launch (\<open>started\<close>) or after a failure that
  preceded it (\<open>not_started\<close>, bound to the emergency document of that failure). The digest of the
  run specification is that of \<open>adapter/artifactizer.py\<close>.
\<close>

section \<open>Documents\<close>

definition entry_invalid :: py_error where
  "entry_invalid = RuntimeEntryError ''runtime_entry_invalid''"

definition runtime_entry_name :: pystr where
  "runtime_entry_name = ''runtime-entry.json''"

definition emergency_name :: pystr where
  "emergency_name = ''runtime-emergency.json''"

definition runtime_entry_schema :: pystr where
  "runtime_entry_schema = ''nano-runtime-entry-v1''"

definition entry_max_bytes :: nat where
  "entry_max_bytes = 16 * 1024"

definition fact_keys :: "pystr list" where
  "fact_keys =
     [''schema_version'', ''state'', ''run_id'', ''trial_id'', ''attempt_id'', ''run_spec_sha256'',
      ''terminalization_path'', ''terminalization_sha256'', ''terminal_code'']"

definition emergency_keys :: "pystr list" where
  "emergency_keys =
     [''schema_version'', ''run_id'', ''trial_id'', ''attempt_id'', ''run_spec_sha256'', ''status'', ''code'',
      ''bridge_completed'', ''events_sha256'', ''events_byte_length'']"

record entry_fact =
  ef_state :: pystr
  ef_run_id :: pystr
  ef_trial_id :: pystr
  ef_attempt_id :: pystr
  ef_run_spec_sha256 :: pystr
  ef_terminalization_path :: "pystr option"
  ef_terminalization_sha256 :: "pystr option"
  ef_terminal_code :: "pystr option"

definition entry_as_dict :: "entry_fact \<Rightarrow> pydict" where
  "entry_as_dict f =
     [(''schema_version'', PStr runtime_entry_schema), (''state'', PStr (ef_state f)),
      (''run_id'', PStr (ef_run_id f)), (''trial_id'', PStr (ef_trial_id f)),
      (''attempt_id'', PStr (ef_attempt_id f)), (''run_spec_sha256'', PStr (ef_run_spec_sha256 f)),
      (''terminalization_path'', opt_str (ef_terminalization_path f)),
      (''terminalization_sha256'', opt_str (ef_terminalization_sha256 f)),
      (''terminal_code'', opt_str (ef_terminal_code f))]"

text \<open>The \<open>repr\<close> of a float is not modelled, so a document that needs one is outside the model.\<close>

fun has_float :: "pyval \<Rightarrow> bool" where
  "has_float (PFloat q) = True"
| "has_float (PNonFinite c) = True"
| "has_float (PList xs) = list_ex has_float xs"
| "has_float (PDict d) = list_ex (\<lambda>kv. has_float (snd kv)) d"
| "has_float _ = False"

definition checked_canonical :: "pyval \<Rightarrow> bytes result" where
  "checked_canonical v = (if has_float v then Inl Outside_model else canonical_json v)"

section \<open>The digest of the run specification\<close>

definition pick :: "pyval \<Rightarrow> pystr list \<Rightarrow> pydict result" where
  "pick v ks = rmap (\<lambda>k. rbind (py_item v k) (\<lambda>x. Inr (k, x))) ks"

definition ordered_run_spec :: "pydict \<Rightarrow> pydict result" where
  "ordered_run_spec spec =
     rbind (dict_item spec ''task'') (\<lambda>task.
     rbind (dict_item spec ''contract'') (\<lambda>contract.
     rbind (dict_item spec ''provider'') (\<lambda>provider.
     rbind (pick (PDict spec) [''schema_version'', ''run_id'', ''trial_id'', ''attempt_id'']) (\<lambda>head.
     rbind (pick task [''id'', ''digest'', ''instruction'']) (\<lambda>task_part.
     rbind (pick contract [''id'', ''contract_set_sha256'', ''profile_id'']) (\<lambda>contract_part.
     rbind (pick provider [''kind'', ''model'', ''max_turns'', ''retry_max'']) (\<lambda>provider_part.
     rbind (pick (PDict spec) [''workspace_dir'', ''artifact_dir'', ''agent_timeout_sec'']) (\<lambda>tail.
     rbind (if py_eq (dict_get spec ''schema_version'') (PStr ''nano-run-spec-alpha-2'')
            then rbind (py_item task ''git_history_capability'') (\<lambda>capability.
                 rbind (pick capability
                   [''schema_version'', ''policy_version'', ''git_history_access'', ''canonical_instruction_sha256'',
                    ''trusted_manifest_sha256'', ''supporting_span_sha256'']) (\<lambda>part.
                   Inr (task_part @ [(''git_history_capability'', PDict part)])))
            else Inr task_part) (\<lambda>task_part.
       Inr (head @ [(''task'', PDict task_part), (''contract'', PDict contract_part), (''provider'', PDict provider_part)]
            @ tail
            @ (if dict_get spec ''active_tools'' = PNone then []
               else [(''active_tools'', dict_get spec ''active_tools'')])))))))))))"

definition rust_run_spec_sha256 :: "pydict \<Rightarrow> pystr result" where
  "rust_run_spec_sha256 spec =
     rbind (ordered_run_spec spec) (\<lambda>ordered.
       case json_dumps (PDict ordered) of
         None \<Rightarrow> Inl (if has_float (PDict ordered) then Outside_model else ValueError ''int'')
       | Some t \<Rightarrow> rbind (py_encode t) (\<lambda>raw. Inr (sha256_hex raw)))"

section \<open>The identity of a run\<close>

record entry_identity =
  id_run :: pystr
  id_trial :: pystr
  id_attempt :: pystr
  id_spec :: pystr

definition identity_items :: "entry_identity \<Rightarrow> pydict" where
  "identity_items i =
     [(''run_id'', PStr (id_run i)), (''trial_id'', PStr (id_trial i)), (''attempt_id'', PStr (id_attempt i)),
      (''run_spec_sha256'', PStr (id_spec i))]"

definition identity_error :: "py_error \<Rightarrow> bool" where
  "identity_error e \<longleftrightarrow> e = KeyError \<or> e = TypeError \<or> is_value_error e"

fun identity_values :: "pyval list \<Rightarrow> entry_identity result" where
  "identity_values [PStr r, PStr t, PStr a, PStr h] =
     ensure (r \<noteq> [] \<and> t \<noteq> [] \<and> a \<noteq> [] \<and> h \<noteq> []) entry_invalid
       (Inr \<lparr>id_run = r, id_trial = t, id_attempt = a, id_spec = h\<rparr>)"
| "identity_values _ = Inl entry_invalid"

definition identity_of :: "pydict \<Rightarrow> entry_identity result" where
  "identity_of spec =
     rbind
       (catch identity_error
         (rbind (pick (PDict spec) [''run_id'', ''trial_id'', ''attempt_id'']) (\<lambda>ids.
          rbind (rust_run_spec_sha256 spec) (\<lambda>digest. Inr (map snd ids @ [PStr digest]))))
         (Inl entry_invalid))
       identity_values"

definition has_identity :: "pydict \<Rightarrow> entry_identity \<Rightarrow> bool" where
  "has_identity d i \<longleftrightarrow> list_all (\<lambda>(k, v). py_eq (dict_get d k) v) (identity_items i)"

section \<open>Reading and creating files\<close>

definition read_entry_file :: "path \<Rightarrow> bytes io" where
  "read_entry_file p =
     io_except (\<lambda>e. e = OSError)
       (io_seq (fs_probe (\<lambda>s. present s p \<and> \<not> is_symlink s p)) (io_seq (fs_probe (\<lambda>s. True))
         (io_bind (\<lambda>s. (Inr (read_file s p), s)) (\<lambda>found.
           case found of
             None \<Rightarrow> io_raise entry_invalid
           | Some raw \<Rightarrow>
               io_check (length raw \<le> entry_max_bytes) entry_invalid
                 (io_seq (fs_probe (\<lambda>s. True)) (io_seq (fs_probe (\<lambda>s. True)) (io_seq (fs_probe (\<lambda>s. True))
                   (io_return raw))))))))
       entry_invalid"

definition entry_hooks :: json_hooks where
  "entry_hooks =
     \<lparr>object_hook = unique_object (ValueError ''duplicate key''), constant_hook = (\<lambda>c. Inl (ValueError []))\<rparr>"

text \<open>A document counts only when it is written canonically.\<close>

definition canonical_object :: "bytes \<Rightarrow> pydict result" where
  "canonical_object raw =
     rbind (catch is_value_error (json_loads_bytes entry_hooks raw) (Inl entry_invalid)) (\<lambda>v.
       case v of
         PDict d \<Rightarrow> rbind (checked_canonical v) (\<lambda>expected. ensure (raw = expected) entry_invalid (Inr d))
       | _ \<Rightarrow> Inl entry_invalid)"

definition load_canonical :: "path \<Rightarrow> (pydict \<times> bytes) io" where
  "load_canonical p =
     io_bind (read_entry_file p) (\<lambda>raw. io_lift (rbind (canonical_object raw) (\<lambda>d. Inr (d, raw))))"

text \<open>\<open>os.open\<close> with \<open>O_CREAT | O_EXCL\<close>: an existing path has its own exception.\<close>

definition fs_create_new :: "path \<Rightarrow> unit io" where
  "fs_create_new p s =
     (case fs_create p s of
        (Inl OSError, t) \<Rightarrow>
          (Inl (if take 1 (faults s) \<noteq> [True] \<and> present s p then FileExistsError else OSError), t)
      | out \<Rightarrow> out)"

definition write_exclusive :: "path \<Rightarrow> bytes \<Rightarrow> unit io" where
  "write_exclusive p payload =
     io_except (\<lambda>e. e = OSError)
       (io_except (\<lambda>e. e = FileExistsError)
         (io_seq (fs_create_new p) (io_seq (fs_write p payload) (io_seq fs_fsync (fsync_directory (butlast p)))))
         (RuntimeEntryError ''runtime_entry_exists''))
       (RuntimeEntryError ''runtime_entry_write_failed'')"

section \<open>The operations\<close>

definition entry_fact_of ::
  "entry_identity \<Rightarrow> pystr \<Rightarrow> pystr option \<Rightarrow> pystr option \<Rightarrow> pystr option \<Rightarrow> entry_fact" where
  "entry_fact_of i state tpath tsha tcode =
     \<lparr>ef_state = state, ef_run_id = id_run i, ef_trial_id = id_trial i, ef_attempt_id = id_attempt i,
      ef_run_spec_sha256 = id_spec i, ef_terminalization_path = tpath, ef_terminalization_sha256 = tsha,
      ef_terminal_code = tcode\<rparr>"

definition record_entry :: "path \<Rightarrow> entry_fact \<Rightarrow> entry_fact io" where
  "record_entry dir f =
     io_bind (io_lift (canonical_json (PDict (entry_as_dict f)))) (\<lambda>payload.
       io_seq (write_exclusive (dir @ [runtime_entry_name]) payload) (io_return f))"

definition write_started :: "path \<Rightarrow> pydict \<Rightarrow> entry_fact io" where
  "write_started dir spec =
     io_bind (io_lift (identity_of spec)) (\<lambda>i. record_entry dir (entry_fact_of i ''started'' None None None))"

text \<open>What both the writer and the reader require of the emergency document.\<close>

definition emergency_ok :: "pydict \<Rightarrow> entry_identity \<Rightarrow> pyval \<Rightarrow> bool" where
  "emergency_ok d i code \<longleftrightarrow>
     keys_are d emergency_keys
     \<and> py_eq (dict_get d ''schema_version'') (PStr ''nano-runtime-emergency-v1'')
     \<and> has_identity d i \<and> py_eq (dict_get d ''status'') (PStr ''runtime_record_missing'')
     \<and> dict_get d ''bridge_completed'' = PBool False \<and> py_eq (dict_get d ''code'') code"

definition write_not_started :: "path \<Rightarrow> pydict \<Rightarrow> path \<Rightarrow> pystr \<Rightarrow> entry_fact io" where
  "write_not_started dir spec tpath code =
     io_bind (load_canonical tpath) (\<lambda>(d, raw).
     io_bind (io_lift (identity_of spec)) (\<lambda>i.
       io_check (emergency_ok d i (PStr code) \<and> code \<noteq> []
                 \<and> tpath \<noteq> [] \<and> butlast tpath = dir \<and> last tpath = emergency_name) entry_invalid
         (record_entry dir
           (entry_fact_of i ''not_started'' (Some emergency_name) (Some (sha256_hex raw)) (Some code)))))"

definition load_fact :: "path \<Rightarrow> entry_identity \<Rightarrow> pydict \<Rightarrow> entry_fact io" where
  "load_fact p i d =
     (let state = dict_get d ''state''; tpath = dict_get d ''terminalization_path'';
          tsha = dict_get d ''terminalization_sha256''; tcode = dict_get d ''terminal_code'' in
      if py_eq state (PStr ''started'') then
        io_check (tpath = PNone \<and> tsha = PNone \<and> tcode = PNone) entry_invalid
          (io_return (entry_fact_of i ''started'' None None None))
      else if py_eq state (PStr ''not_started'') then
        (case (tsha, tcode) of
           (PStr sha, PStr code) \<Rightarrow>
             io_check (py_eq tpath (PStr emergency_name) \<and> is_sha256_hex sha \<and> code \<noteq> []) entry_invalid
               (io_bind (load_canonical (butlast p @ [emergency_name])) (\<lambda>(e, raw).
                  io_check (emergency_ok e i (PStr code) \<and> sha256_hex raw = sha) entry_invalid
                    (io_return (entry_fact_of i ''not_started'' (Some emergency_name) (Some sha) (Some code)))))
         | _ \<Rightarrow> io_raise entry_invalid)
      else io_raise entry_invalid)"

definition load_runtime_entry :: "path \<Rightarrow> pydict \<Rightarrow> entry_fact option io" where
  "load_runtime_entry p spec =
     (let version = dict_get spec ''schema_version'' in
      if py_eq version (PStr ''nano-run-spec-alpha-1'') then io_return None
      else io_check (py_eq version (PStr ''nano-run-spec-alpha-2'')) entry_invalid
        (io_bind (load_canonical p) (\<lambda>(d, raw).
         io_bind (io_lift (identity_of spec)) (\<lambda>i.
           io_check (keys_are d fact_keys \<and> py_eq (dict_get d ''schema_version'') (PStr runtime_entry_schema)
                     \<and> has_identity d i) entry_invalid
             (io_bind (load_fact p i d) (\<lambda>f. io_return (Some f)))))))"

section \<open>Entries as documents\<close>

interpretation entry_reader: json_reader entry_hooks
  by unfold_locales (auto simp: entry_hooks_def unique_object_def)

lemma entry_dict:
  "distinct (map fst (entry_as_dict f))" "keys_are (entry_as_dict f) fact_keys" "wf_val (PDict (entry_as_dict f))"
  "\<not> has_float (PDict (sort_dict (entry_as_dict f)))"
  by (simp_all add: entry_as_dict_def keys_are_def dict_keys_def fact_keys_def opt_str_def sort_dict_def
      split: option.split)

lemma entry_dict_get:
  "dict_get (entry_as_dict f) ''schema_version'' = PStr runtime_entry_schema"
  "dict_get (entry_as_dict f) ''state'' = PStr (ef_state f)"
  "dict_get (entry_as_dict f) ''run_id'' = PStr (ef_run_id f)"
  "dict_get (entry_as_dict f) ''trial_id'' = PStr (ef_trial_id f)"
  "dict_get (entry_as_dict f) ''attempt_id'' = PStr (ef_attempt_id f)"
  "dict_get (entry_as_dict f) ''run_spec_sha256'' = PStr (ef_run_spec_sha256 f)"
  "dict_get (entry_as_dict f) ''terminalization_path'' = opt_str (ef_terminalization_path f)"
  "dict_get (entry_as_dict f) ''terminalization_sha256'' = opt_str (ef_terminalization_sha256 f)"
  "dict_get (entry_as_dict f) ''terminal_code'' = opt_str (ef_terminal_code f)"
  by (simp_all add: entry_as_dict_def dict_get_def)

lemma canonical_object_document:
  assumes "canonical_json (PDict (entry_as_dict f)) = Inr b"
  shows "canonical_object b = Inr (sort_dict (entry_as_dict f))"
proof -
  have "json_loads_bytes entry_hooks b = Inr (PDict (sort_dict (entry_as_dict f)))"
    using entry_reader.loads_canonical [OF assms entry_dict(3)] by simp
  moreover have "checked_canonical (PDict (sort_dict (entry_as_dict f))) = Inr b"
    using canonical_sort_keys [of "PDict (entry_as_dict f)"] entry_dict(4) [of f] assms
    by (simp add: checked_canonical_def)
  ultimately show ?thesis by (simp add: canonical_object_def catch_def)
qed

lemma identity_values_Inr:
  assumes "identity_values vs = Inr i"
  obtains r t a h where "vs = [PStr r, PStr t, PStr a, PStr h]" "r \<noteq> []" "t \<noteq> []" "a \<noteq> []"
    "i = \<lparr>id_run = r, id_trial = t, id_attempt = a, id_spec = h\<rparr>"
  using assms by (cases vs rule: identity_values.cases) auto

lemma identity_of_Inr:
  assumes "identity_of spec = Inr i"
  shows "id_run i \<noteq> []" "id_trial i \<noteq> []" "id_attempt i \<noteq> []" "is_sha256_hex (id_spec i)"
    "dict_get spec ''run_id'' = PStr (id_run i)" "dict_get spec ''trial_id'' = PStr (id_trial i)"
    "dict_get spec ''attempt_id'' = PStr (id_attempt i)" "rust_run_spec_sha256 spec = Inr (id_spec i)"
proof -
  obtain ids h where ids: "pick (PDict spec) [''run_id'', ''trial_id'', ''attempt_id''] = Inr ids"
    and h: "rust_run_spec_sha256 spec = Inr h" and vals: "identity_values (map snd ids @ [PStr h]) = Inr i"
    using assms by (auto simp: identity_of_def rbind_Inr_iff)
  obtain r t a h' where vs: "map snd ids @ [PStr h] = [PStr r, PStr t, PStr a, PStr h']"
    and ne: "r \<noteq> []" "t \<noteq> []" "a \<noteq> []"
    and i': "i = \<lparr>id_run = r, id_trial = t, id_attempt = a, id_spec = h'\<rparr>"
    using vals by (rule identity_values_Inr)
  have "map fst ids = [''run_id'', ''trial_id'', ''attempt_id'']"
    using ids by (auto simp: pick_def rbind_Inr_iff)
  with vs have items: "pick (PDict spec) [''run_id'', ''trial_id'', ''attempt_id''] =
        Inr [(''run_id'', PStr r), (''trial_id'', PStr t), (''attempt_id'', PStr a)]"
    and i: "i = \<lparr>id_run = r, id_trial = t, id_attempt = a, id_spec = h\<rparr>"
    using ids i' by (auto simp: map_eq_Cons_conv)
  have "is_sha256_hex h"
    using h by (auto simp: rust_run_spec_sha256_def rbind_Inr_iff split: option.splits)
  then show "is_sha256_hex (id_spec i)" "id_run i \<noteq> []" "id_trial i \<noteq> []" "id_attempt i \<noteq> []"
    "rust_run_spec_sha256 spec = Inr (id_spec i)"
    using i h ne by simp_all
  show "dict_get spec ''run_id'' = PStr (id_run i)" "dict_get spec ''trial_id'' = PStr (id_trial i)"
    "dict_get spec ''attempt_id'' = PStr (id_attempt i)"
    using items i by (auto simp: pick_def rbind_Inr_iff py_item_def dict_item_def dict_get_def split: option.splits)
qed

section \<open>What reading and creating establish\<close>

lemma reads_load_canonical [io_keeps_intros]: "io_keeps only_reads (load_canonical p)"
proof -
  have "io_keeps only_reads (\<lambda>s. (Inr (read_file s p), s))"
    by (simp add: io_keeps_def reading.refl)
  then show ?thesis
    unfolding load_canonical_def read_entry_file_def by (auto intro!: io_keeps_intros split: option.split)
qed

lemma load_canonical_Inr:
  assumes "load_canonical p s = (Inr (d, raw), t)"
  shows "only_reads s t" "read_file s p = Some raw" "length raw \<le> entry_max_bytes" "canonical_object raw = Inr d"
proof -
  obtain u where read: "read_entry_file p s = (Inr raw, u)" and t: "canonical_object raw = Inr d" "t = u"
    using assms by (auto simp: load_canonical_def io_bind_Inr io_lift_Inr rbind_Inr_iff)
  show "only_reads s t" using assms reads_load_canonical io_keepsD by blast
  obtain v w where v: "fs_probe (\<lambda>s. present s p \<and> \<not> is_symlink s p) s = (Inr (), v)" "fs_probe (\<lambda>s. True) v = (Inr (), w)"
    and b: "read_file w p = Some raw" "length raw \<le> entry_max_bytes"
    using read
    by (auto simp: read_entry_file_def io_except_Inr io_seq_Inr io_bind_Inr io_check_Inr io_raise_def io_return_def
        split: option.splits)
  have "only_reads s v" "only_reads v w" using v keeps_probe_reads io_keepsD by blast+
  then show "read_file s p = Some raw" "length raw \<le> entry_max_bytes" "canonical_object raw = Inr d"
    using b t only_reads_simps(2) by metis+
qed

lemma load_canonical_quiet:
  assumes "faults s = []" and "read_file s p = Some raw" and "length raw \<le> entry_max_bytes"
    and "canonical_object raw = Inr d"
  shows "load_canonical p s = (Inr (d, raw), s)"
proof -
  have "present s p" "\<not> is_symlink s p"
    using assms(2) by (auto simp: present_def is_symlink_def read_file_def split: option.splits node.splits)
  then have probes: "fs_probe (\<lambda>s. present s p \<and> \<not> is_symlink s p) s = (Inr (), s)" "fs_probe (\<lambda>s. True) s = (Inr (), s)"
    using assms(1) by (simp_all add: fs_probe_def syscall_quiet)
  then show ?thesis
    using assms(2-4)
    by (simp add: load_canonical_def read_entry_file_def io_bind_def io_lift_def io_except_def io_seq_def)
qed

lemma write_exclusive_run:
  assumes "write_exclusive p b s = (r, t)"
  shows "grows s t" "r = Inr () \<Longrightarrow> read_file t p = Some b"
proof -
  let ?body = "io_seq (fs_create_new p) (io_seq (fs_write p b) (io_seq fs_fsync (fsync_directory (butlast p))))"
  obtain r' where run: "?body s = (r', t)" and ok: "r = Inr () \<Longrightarrow> r' = Inr ()"
    using assms by (auto simp: write_exclusive_def io_except_def split: prod.splits sum.splits if_splits)
  obtain r'' where run'': "io_seq (fs_create p) (io_seq (fs_write p b) (io_seq fs_fsync (fsync_directory (butlast p)))) s
      = (r'', t)" and ok'': "r' = Inr () \<Longrightarrow> r'' = Inr ()"
    using run by (auto simp: io_seq_run fs_create_new_def split: prod.splits sum.splits py_error.splits)
  have k: "io_keeps only_reads (io_seq fs_fsync (fsync_directory (butlast p)))" by (intro io_keeps_intros)
  show "grows s t" "r = Inr () \<Longrightarrow> read_file t p = Some b"
    using create_write_run [OF run'' k] ok ok'' by blast+
qed

section \<open>An entry is final\<close>

text \<open>Any further attempt to record an entry in the directory, for any run, however it ends.\<close>

inductive entry_attempt :: "path \<Rightarrow> fsys \<Rightarrow> fsys \<Rightarrow> bool" for dir where
  started: "write_started dir spec s = (r, t) \<Longrightarrow> entry_attempt dir s t"
| not_started: "write_not_started dir spec tpath code s = (r, t) \<Longrightarrow> entry_attempt dir s t"

lemma grows_record_entry [io_keeps_intros]: "io_keeps grows (record_entry dir f)"
proof -
  have "io_keeps grows (write_exclusive p b)" for p b
    by (rule io_keepsI) (rule write_exclusive_run)
  then show ?thesis unfolding record_entry_def by (auto intro!: io_keeps_intros)
qed

lemma grows_load_canonical [io_keeps_intros]: "io_keeps grows (load_canonical p)"
  by (rule keeps_weaken [OF reads_load_canonical reads_grow])

lemma grows_write_started: "io_keeps grows (write_started dir spec)"
  unfolding write_started_def by (auto intro!: io_keeps_intros)

lemma grows_write_not_started: "io_keeps grows (write_not_started dir spec tpath code)"
  unfolding write_not_started_def by (auto intro!: io_keeps_intros)

lemma attempts_grow: "(entry_attempt dir)\<^sup>*\<^sup>* s t \<Longrightarrow> grows s t"
proof (induction rule: rtranclp_induct)
  case base
  show ?case by (rule growing.refl)
next
  case (step t u)
  have "entry_attempt dir t u \<Longrightarrow> grows t u"
    by (elim entry_attempt.cases) (blast dest: io_keepsD [OF grows_write_started] io_keepsD [OF grows_write_not_started])+
  with step(2) have "grows t u" by blast
  with step(3) show ?case by (rule growing.trans)
qed

lemma record_entry_Inr:
  assumes "record_entry dir f s = (Inr g, t)"
  obtains b where "g = f" "canonical_json (PDict (entry_as_dict f)) = Inr b" "grows s t"
    "read_file t (dir @ [runtime_entry_name]) = Some b"
proof -
  obtain b where b: "canonical_json (PDict (entry_as_dict f)) = Inr b" "g = f"
    "write_exclusive (dir @ [runtime_entry_name]) b s = (Inr (), t)"
    using assms by (auto simp: record_entry_def io_bind_Inr io_lift_Inr io_seq_Inr)
  note run = write_exclusive_run [OF b(3)]
  show ?thesis by (rule that [OF b(2,1) run(1) run(2)]) simp
qed

text \<open>What a recorded entry leaves, in a form that later attempts cannot change.\<close>

definition entry_recorded :: "path \<Rightarrow> pydict \<Rightarrow> entry_fact \<Rightarrow> fsys \<Rightarrow> bool" where
  "entry_recorded dir spec f s \<longleftrightarrow>
     (\<exists>i b. identity_of spec = Inr i \<and> canonical_json (PDict (entry_as_dict f)) = Inr b
        \<and> read_file s (dir @ [runtime_entry_name]) = Some b
        \<and> (f = entry_fact_of i ''started'' None None None
           \<or> (\<exists>raw e code. f = entry_fact_of i ''not_started'' (Some emergency_name) (Some (sha256_hex raw)) (Some code)
                \<and> code \<noteq> [] \<and> read_file s (dir @ [emergency_name]) = Some raw \<and> length raw \<le> entry_max_bytes
                \<and> canonical_object raw = Inr e \<and> emergency_ok e i (PStr code))))"

lemma entry_recorded_started:
  assumes "write_started dir spec s = (Inr f, t)"
  shows "entry_recorded dir spec f t"
proof -
  obtain i where i: "identity_of spec = Inr i" "record_entry dir (entry_fact_of i ''started'' None None None) s = (Inr f, t)"
    using assms by (auto simp: write_started_def io_bind_Inr io_lift_Inr)
  from i(2) obtain b where "f = entry_fact_of i ''started'' None None None"
    "canonical_json (PDict (entry_as_dict f)) = Inr b" "read_file t (dir @ [runtime_entry_name]) = Some b"
    by (rule record_entry_Inr) auto
  with i(1) show ?thesis unfolding entry_recorded_def by blast
qed

lemma entry_recorded_not_started:
  assumes "write_not_started dir spec tpath code s = (Inr f, t)" and "fs_wf s"
  shows "entry_recorded dir spec f t"
proof -
  obtain e raw u i where load: "load_canonical tpath s = (Inr (e, raw), u)"
    and i: "identity_of spec = Inr i" and chk: "emergency_ok e i (PStr code)" "code \<noteq> []"
      "tpath \<noteq> []" "butlast tpath = dir" "last tpath = emergency_name"
    and run: "record_entry dir (entry_fact_of i ''not_started'' (Some emergency_name) (Some (sha256_hex raw)) (Some code)) u
        = (Inr f, t)"
    using assms(1) by (auto simp: write_not_started_def io_bind_Inr io_lift_Inr io_check_Inr split: prod.splits)
  note l = load_canonical_Inr [OF load]
  have tpath: "tpath = dir @ [emergency_name]" using chk(3-5) append_butlast_last_id by metis
  from run obtain b where f: "f = entry_fact_of i ''not_started'' (Some emergency_name) (Some (sha256_hex raw)) (Some code)"
    and b: "canonical_json (PDict (entry_as_dict f)) = Inr b" "read_file t (dir @ [runtime_entry_name]) = Some b"
    and g: "grows u t"
    by (rule record_entry_Inr) auto
  have "grows s t" using reads_grow [OF l(1)] g by (rule growing.trans)
  then have "read_file t (dir @ [emergency_name]) = Some raw"
    using l(2) assms(2) growsD extends_read unfolding tpath by blast
  then show ?thesis using i chk(1,2) f b l(3,4) unfolding entry_recorded_def by blast
qed

lemma entry_recorded_grows:
  assumes "entry_recorded dir spec f s" and "grows s t" and "fs_wf s"
  shows "entry_recorded dir spec f t"
proof -
  have "read_file s p = Some b \<Longrightarrow> read_file t p = Some b" for p b
    using assms(2,3) growsD extends_read by blast
  then show ?thesis using assms(1) unfolding entry_recorded_def by blast
qed

lemma entry_recorded_cong:
  "entry_recorded dir spec f s \<Longrightarrow> read_file t = read_file s \<Longrightarrow> entry_recorded dir spec f t"
  by (simp add: entry_recorded_def)

lemma recorded_entry_loads:
  assumes "entry_recorded dir spec f s" and "faults s = []"
    and version: "dict_get spec ''schema_version'' = PStr ''nano-run-spec-alpha-2''"
    and size: "\<And>b. canonical_json (PDict (entry_as_dict f)) = Inr b \<Longrightarrow> length b \<le> entry_max_bytes"
  shows "load_runtime_entry (dir @ [runtime_entry_name]) spec s = (Inr (Some f), s)"
proof -
  let ?d = "sort_dict (entry_as_dict f)" and ?p = "dir @ [runtime_entry_name]"
  obtain i b where i: "identity_of spec = Inr i" and b: "canonical_json (PDict (entry_as_dict f)) = Inr b"
    "read_file s ?p = Some b"
    and kind: "f = entry_fact_of i ''started'' None None None
      \<or> (\<exists>raw e code. f = entry_fact_of i ''not_started'' (Some emergency_name) (Some (sha256_hex raw)) (Some code)
           \<and> code \<noteq> [] \<and> read_file s (dir @ [emergency_name]) = Some raw \<and> length raw \<le> entry_max_bytes
           \<and> canonical_object raw = Inr e \<and> emergency_ok e i (PStr code))"
    using assms(1) unfolding entry_recorded_def by blast
  have doc: "load_canonical ?p s = (Inr (?d, b), s)"
    by (rule load_canonical_quiet [OF assms(2) b(2) size [OF b(1)] canonical_object_document [OF b(1)]])
  note dist = entry_dict(1) [of f]
  have "ef_run_id f = id_run i" "ef_trial_id f = id_trial i" "ef_attempt_id f = id_attempt i"
    "ef_run_spec_sha256 f = id_spec i"
    using kind by (auto simp: entry_fact_of_def)
  then have bound: "has_identity ?d i" "keys_are ?d fact_keys"
    "dict_get ?d ''schema_version'' = PStr runtime_entry_schema"
    using entry_dict(2) by (simp_all add: has_identity_def identity_items_def entry_dict_get dist)
  have fact_get: "dict_get ?d ''state'' = PStr (ef_state f)"
    "dict_get ?d ''terminalization_path'' = opt_str (ef_terminalization_path f)"
    "dict_get ?d ''terminalization_sha256'' = opt_str (ef_terminalization_sha256 f)"
    "dict_get ?d ''terminal_code'' = opt_str (ef_terminal_code f)"
    by (simp_all add: entry_dict_get dist opt_str_def split: option.split)
  have fact: "load_fact ?p i ?d s = (Inr f, s)"
    using kind
  proof (elim disjE exE conjE)
    assume f: "f = entry_fact_of i ''started'' None None None"
    then have st: "ef_state f = ''started''" "ef_terminalization_path f = None" "ef_terminalization_sha256 f = None"
      "ef_terminal_code f = None" by (simp_all add: entry_fact_of_def)
    show ?thesis by (simp add: load_fact_def Let_def fact_get st opt_str_def f [symmetric])
  next
    fix raw e code
    assume f: "f = entry_fact_of i ''not_started'' (Some emergency_name) (Some (sha256_hex raw)) (Some code)"
      and emergency: "code \<noteq> []" "read_file s (dir @ [emergency_name]) = Some raw" "length raw \<le> entry_max_bytes"
        "canonical_object raw = Inr e" "emergency_ok e i (PStr code)"
    have "load_canonical (dir @ [emergency_name]) s = (Inr (e, raw), s)"
      by (rule load_canonical_quiet [OF assms(2) emergency(2-4)])
    moreover have st: "ef_state f = ''not_started''" "ef_terminalization_path f = Some emergency_name"
      "ef_terminalization_sha256 f = Some (sha256_hex raw)" "ef_terminal_code f = Some code"
      using f by (simp_all add: entry_fact_of_def)
    ultimately show ?thesis
      using emergency(1,5) by (simp add: load_fact_def Let_def fact_get st opt_str_def io_bind_def f [symmetric])
  qed
  show ?thesis
    using version i bound doc fact
    by (simp add: load_runtime_entry_def io_bind_def io_lift_def)
qed

text \<open>
  C20: the record of a launch is final. Once one of the two writers has returned, then whatever
  attempts to record an entry in the same directory follow, for this or any other run, however
  they end and whichever of their system calls fail, reading the entry for the run gives back
  exactly the fact that was recorded, and for a run that was not started the emergency document
  it names is still the one whose digest it carries.
\<close>

theorem recorded_entry_is_final:
  assumes "fs_wf s"
    and "write_started dir spec s = (Inr f, t) \<or> write_not_started dir spec tpath code s = (Inr f, t)"
    and "(entry_attempt dir)\<^sup>*\<^sup>* t u"
    and "dict_get spec ''schema_version'' = PStr ''nano-run-spec-alpha-2''"
    and "\<And>b. canonical_json (PDict (entry_as_dict f)) = Inr b \<Longrightarrow> length b \<le> entry_max_bytes"
  shows "load_runtime_entry (dir @ [runtime_entry_name]) spec (u\<lparr>faults := []\<rparr>)
           = (Inr (Some f), u\<lparr>faults := []\<rparr>)"
proof -
  have rec: "entry_recorded dir spec f t"
    using assms(2) by (elim disjE) (simp_all add: entry_recorded_started entry_recorded_not_started assms(1))
  have "grows s t"
    using assms(2) io_keepsD [OF grows_write_started] io_keepsD [OF grows_write_not_started] by blast
  then have "fs_wf t" using assms(1) growsD by blast
  with rec have "entry_recorded dir spec f u"
    by (rule entry_recorded_grows [OF _ attempts_grow [OF assms(3)]])
  then have "entry_recorded dir spec f (u\<lparr>faults := []\<rparr>)"
    by (rule entry_recorded_cong) simp_all
  then show ?thesis by (rule recorded_entry_loads) (use assms(4,5) in simp_all)
qed

text \<open>What the reader accepts.\<close>

lemma load_fact_Inr:
  assumes "load_fact p i d s = (Inr f, t)"
  shows "ef_run_id f = id_run i \<and> ef_trial_id f = id_trial i \<and> ef_attempt_id f = id_attempt i
    \<and> ef_run_spec_sha256 f = id_spec i"
    "f = entry_fact_of i ''started'' None None None
     \<or> (\<exists>raw e code. f = entry_fact_of i ''not_started'' (Some emergency_name) (Some (sha256_hex raw)) (Some code)
          \<and> read_file s (butlast p @ [emergency_name]) = Some raw \<and> canonical_object raw = Inr e
          \<and> emergency_ok e i (PStr code))"
proof -
  show cases: "f = entry_fact_of i ''started'' None None None
     \<or> (\<exists>raw e code. f = entry_fact_of i ''not_started'' (Some emergency_name) (Some (sha256_hex raw)) (Some code)
          \<and> read_file s (butlast p @ [emergency_name]) = Some raw \<and> canonical_object raw = Inr e
          \<and> emergency_ok e i (PStr code))"
    using assms
    by (auto simp: load_fact_def Let_def io_bind_Inr io_check_Inr io_return_def io_raise_def
        split: if_splits pyval.splits)
      (blast dest: load_canonical_Inr(2) load_canonical_Inr(4))
  then show "ef_run_id f = id_run i \<and> ef_trial_id f = id_trial i \<and> ef_attempt_id f = id_attempt i
    \<and> ef_run_spec_sha256 f = id_spec i"
    by (auto simp: entry_fact_of_def)
qed

text \<open>
  C11: an entry that is accepted is bound to the run. It names the run, trial and attempt of the
  specification and the digest of that specification, and if it says that the runtime was not
  started, then the emergency document beside it is canonical, has the digest the entry carries,
  names the same run, and states the code of the entry and that the bridge did not complete.
\<close>

theorem accepted_entry_is_bound:
  assumes "load_runtime_entry p spec s = (Inr (Some f), t)"
  shows "dict_get spec ''run_id'' = PStr (ef_run_id f) \<and> dict_get spec ''trial_id'' = PStr (ef_trial_id f)
    \<and> dict_get spec ''attempt_id'' = PStr (ef_attempt_id f) \<and> rust_run_spec_sha256 spec = Inr (ef_run_spec_sha256 f)
    \<and> (ef_state f = ''started'' \<and> ef_terminalization_sha256 f = None \<and> ef_terminal_code f = None
       \<or> ef_state f = ''not_started''
         \<and> (\<exists>raw e code. read_file s (butlast p @ [emergency_name]) = Some raw \<and> canonical_object raw = Inr e
              \<and> ef_terminalization_sha256 f = Some (sha256_hex raw) \<and> ef_terminal_code f = Some code
              \<and> dict_get e ''run_id'' = PStr (ef_run_id f) \<and> dict_get e ''run_spec_sha256'' = PStr (ef_run_spec_sha256 f)
              \<and> dict_get e ''code'' = PStr code \<and> dict_get e ''bridge_completed'' = PBool False))"
proof -
  obtain d raw u i where load: "load_canonical p s = (Inr (d, raw), u)" and i: "identity_of spec = Inr i"
    and fact: "load_fact p i d u = (Inr f, t)"
    using assms by (auto simp: load_runtime_entry_def Let_def io_bind_Inr io_lift_Inr io_check_Inr io_return_def
        split: if_splits)
  have "read_file u = read_file s" using load_canonical_Inr(1) [OF load] only_reads_simps(2) by blast
  then show ?thesis
    using load_fact_Inr [OF fact] identity_of_Inr [OF i]
    by (auto simp: entry_fact_of_def emergency_ok_def has_identity_def identity_items_def)
qed

section \<open>Instances\<close>

definition sample_run_spec :: pydict where
  "sample_run_spec =
     [(''schema_version'', PStr ''nano-run-spec-alpha-2''), (''run_id'', PStr ''r1''), (''trial_id'', PStr ''t1''),
      (''attempt_id'', PStr ''a1''),
      (''task'', PDict [(''id'', PStr ''task''), (''digest'', PStr ''d''), (''instruction'', PStr ''fix''),
         (''git_history_capability'', PDict [(''schema_version'', PStr ''v''), (''policy_version'', PStr ''p''),
           (''git_history_access'', PStr ''not_required''), (''canonical_instruction_sha256'', PStr ''i''),
           (''trusted_manifest_sha256'', PStr ''m''), (''supporting_span_sha256'', PNone)])]),
      (''contract'', PDict [(''id'', PStr ''c''), (''contract_set_sha256'', PStr ''s''), (''profile_id'', PStr ''p'')]),
      (''provider'', PDict [(''kind'', PStr ''xai''), (''model'', PStr ''m''), (''max_turns'', PInt 8), (''retry_max'', PInt 0)]),
      (''workspace_dir'', PStr ''/w''), (''artifact_dir'', PStr ''/a''), (''agent_timeout_sec'', PInt 9)]"

definition sample_entry_fs :: fsys where
  "sample_entry_fs = \<lparr>entries = [([], Dir 448)], contents = (\<lambda>_. []), next_inode = 0, faults = []\<rparr>"

lemma sample_ordered: "ordered_run_spec sample_run_spec = Inr sample_run_spec"
  by (simp add: ordered_run_spec_def sample_run_spec_def pick_def py_item_def dict_item_def dict_get_def)

lemma sample_identity:
  obtains h where "identity_of sample_run_spec = Inr \<lparr>id_run = ''r1'', id_trial = ''t1'', id_attempt = ''a1'', id_spec = h\<rparr>"
    "is_sha256_hex h"
proof -
  have "dumpable (PDict sample_run_spec)" "strs_ok (PDict sample_run_spec)"
    using dumpable_u64 [of 8] dumpable_u64 [of 0] dumpable_u64 [of 9]
    by (simp_all add: sample_run_spec_def ord_of_def del: dumpable.simps(1)) 
  then obtain t where "json_dumps (PDict sample_run_spec) = Some t" "valid_utf8 t"
    using dumpable_iff(1) valid_utf8_json_dumps(1) by blast
  moreover from this(2) have "py_encode t = Inr t" by simp
  ultimately have "rust_run_spec_sha256 sample_run_spec = Inr (sha256_hex t)"
    by (simp only: rust_run_spec_sha256_def sample_ordered rbind_simps option.case)
  moreover have "pick (PDict sample_run_spec) [''run_id'', ''trial_id'', ''attempt_id''] =
      Inr [(''run_id'', PStr ''r1''), (''trial_id'', PStr ''t1''), (''attempt_id'', PStr ''a1'')]"
    by (simp add: pick_def py_item_def dict_item_def sample_run_spec_def)
  moreover have "sha256_hex t \<noteq> []" using sha256_hex_is_sha256_hex [of t] by (auto simp: is_sha256_hex_def)
  ultimately show ?thesis
    by (intro that [of "sha256_hex t"]) (simp_all add: identity_of_def catch_def)
qed

lemma write_exclusive_quiet:
  assumes "faults s = []" "p \<noteq> []" "is_dir s (butlast p)" "lookup s p = None"
  shows "\<exists>t. write_exclusive p b s = (Inr (), t)"
proof -
  have "add_entry p (File (next_inode s)) s = Some (s\<lparr>entries := entries s @ [(p, File (next_inode s))]\<rparr>)"
    using assms by (simp add: add_entry_def)
  then obtain u where u: "new_file p s = Some u" "faults u = []" by (simp add: new_file_def assms(1))
  have "fs_create_new p s = (Inr (), u)"
    using u(1) assms(1) by (simp add: fs_create_new_def fs_create_def syscall_quiet)
  moreover have look: "lookup u p = Some (File (next_inode s))" using new_file_step(4) [OF u(1)] .
  define v where "v = u\<lparr>contents := (contents u)(next_inode s := b)\<rparr>"
  have "fs_write p b u = (Inr (), v)" using look u(2) by (simp add: fs_write_def syscall_quiet v_def)
  moreover have "fs_fsync v = (Inr (), v)" using u(2) by (simp add: fs_fsync_def syscall_quiet v_def)
  moreover have "fsync_directory (butlast p) v = (Inr (), v)"
  proof -
    obtain m where "lookup s (butlast p) = Some (Dir m)" using assms(3) by (auto simp: is_dir_def split: option.splits node.splits)
    moreover have "frame {p} s u" by (rule new_file_step(2) [OF u(1)]) simp
    moreover have "butlast p \<noteq> p" using assms(2) by (metis append_butlast_last_id append_self_conv not_Cons_self2)
    ultimately have "present v (butlast p)" using frameD [of "{p}" s u] by (simp add: present_def v_def lookup_def)
    then show ?thesis using u(2) by (simp add: fsync_directory_def fs_probe_def fs_fsync_def io_seq_run syscall_quiet v_def)
  qed
  ultimately show ?thesis by (simp add: write_exclusive_def io_except_def io_seq_run)
qed

lemma sample_started:
  obtains f t b where "write_started [] sample_run_spec sample_entry_fs = (Inr f, t)"
    "canonical_json (PDict (entry_as_dict f)) = Inr b" "length b \<le> entry_max_bytes"
proof -
  obtain h where i: "identity_of sample_run_spec = Inr \<lparr>id_run = ''r1'', id_trial = ''t1'', id_attempt = ''a1'', id_spec = h\<rparr>"
    (is "_ = Inr ?i") and h: "is_sha256_hex h"
    by (rule sample_identity)
  let ?f = "entry_fact_of ?i ''started'' None None None"
  have "dumpable (PDict (entry_as_dict ?f))" "strs_ok (PDict (entry_as_dict ?f))"
    using sha256_hex_valid_utf8 [OF h]
    by (simp_all add: entry_as_dict_def entry_fact_of_def opt_str_def runtime_entry_schema_def ord_of_def)
  then obtain b where b: "canonical_json (PDict (entry_as_dict ?f)) = Inr b"
    using canonical_json_defined by blast
  have "length h = 64" "list_all (\<lambda>c. 35 \<le> ord_of c \<and> ord_of c \<noteq> 92) h"
    using h by (auto simp: is_sha256_hex_def is_lower_hex_def is_digit_def list_all_iff)
  then have "esc_len h = 64" by (simp add: esc_len_plain)
  then have "dump_bound (PDict (entry_as_dict ?f)) \<le> 1000"
    by (simp add: entry_as_dict_def entry_fact_of_def opt_str_def runtime_entry_schema_def json_escape_def ord_of_def)
  moreover note length_canonical [OF b]
  ultimately have "length b \<le> entry_max_bytes" by (simp add: entry_max_bytes_def)
  moreover obtain t where "write_exclusive ([] @ [runtime_entry_name]) b sample_entry_fs = (Inr (), t)"
    using write_exclusive_quiet [of sample_entry_fs "[runtime_entry_name]" b]
    by (auto simp: sample_entry_fs_def is_dir_def lookup_def)
  then have "write_started [] sample_run_spec sample_entry_fs = (Inr ?f, t)"
    using i b by (simp add: write_started_def record_entry_def io_bind_def io_lift_def io_seq_run)
  ultimately show ?thesis using that b by blast
qed

theorem recorded_entry_is_final_witness:
  "\<exists>f t u. entry_attempt [] t u
     \<and> load_runtime_entry [runtime_entry_name] sample_run_spec (u\<lparr>faults := []\<rparr>) = (Inr (Some f), u\<lparr>faults := []\<rparr>)"
proof -
  obtain f t b where t: "write_started [] sample_run_spec sample_entry_fs = (Inr f, t)"
    and b: "canonical_json (PDict (entry_as_dict f)) = Inr b" "length b \<le> entry_max_bytes"
    by (rule sample_started)
  obtain r u where u: "write_started [] sample_run_spec t = (r, u)" by (cases "write_started [] sample_run_spec t")
  have wf: "fs_wf sample_entry_fs" by (auto simp: fs_wf_def sample_entry_fs_def lookup_def split: if_splits)
  have again: "entry_attempt [] t u" using u by (rule entry_attempt.started)
  then have steps: "(entry_attempt [])\<^sup>*\<^sup>* t u" by blast
  have "load_runtime_entry ([] @ [runtime_entry_name]) sample_run_spec (u\<lparr>faults := []\<rparr>) = (Inr (Some f), u\<lparr>faults := []\<rparr>)"
    by (rule recorded_entry_is_final [OF wf disjI1 [OF t] steps])
      (use b in \<open>auto simp: sample_run_spec_def dict_get_def\<close>)
  with again show ?thesis by auto
qed

lemma sample_loads:
  obtains f t where "load_runtime_entry [runtime_entry_name] sample_run_spec t = (Inr (Some f), t)"
proof -
  obtain f t b where t: "write_started [] sample_run_spec sample_entry_fs = (Inr f, t)"
    and b: "canonical_json (PDict (entry_as_dict f)) = Inr b" "length b \<le> entry_max_bytes"
    by (rule sample_started)
  have "entry_recorded [] sample_run_spec f (t\<lparr>faults := []\<rparr>)"
    by (rule entry_recorded_cong [OF entry_recorded_started [OF t]]) simp
  then have "load_runtime_entry ([] @ [runtime_entry_name]) sample_run_spec (t\<lparr>faults := []\<rparr>) = (Inr (Some f), t\<lparr>faults := []\<rparr>)"
    by (rule recorded_entry_loads) (use b in \<open>auto simp: sample_run_spec_def dict_get_def\<close>)
  then show ?thesis using that by simp
qed

theorem accepted_entry_is_bound_witness:
  "\<exists>f :: entry_fact. dict_get sample_run_spec ''run_id'' = PStr (ef_run_id f) \<and> rust_run_spec_sha256 sample_run_spec = Inr (ef_run_spec_sha256 f)"
proof -
  obtain f t where "load_runtime_entry [runtime_entry_name] sample_run_spec t = (Inr (Some f), t)"
    by (rule sample_loads)
  from accepted_entry_is_bound [OF this] show ?thesis by (intro exI [of _ f]) simp
qed

end
