(* ===== verification/Protected_Target.thy ===== *)
theory Protected_Target
  imports Regex Publication "HOL-Library.Product_Lexorder"
begin

text \<open>
  \<open>harbor/protected_target.py\<close>: the policy of targets that an agent must not touch (the benchmark's
  own material), the matching of tool arguments against it, and the audit that classifies the
  attempts a trial's evidence shows.
\<close>

section \<open>The policy\<close>

record policy =
  po_families :: "pystr list"
  po_slugs :: "pystr list"
  po_terminal :: "(pystr \<times> pystr list) list"
  po_filesystem :: "(pystr \<times> pystr list) list"

definition policy_schema :: pystr where
  "policy_schema = ''protected-targets-v1''"

definition blocked_code :: pystr where
  "blocked_code = ''protected_harness_material_access_blocked''"

definition workspace_root :: pystr where
  "workspace_root = ''/workspace''"

definition protected_error :: "pystr \<Rightarrow> py_error" where
  "protected_error code = ProtectedTargetError code"

definition policy_error :: py_error where
  "policy_error = protected_error ''protected_target_policy_invalid''"

definition protected_hooks :: json_hooks where
  "protected_hooks =
     \<lparr>object_hook = unique_object (protected_error ''duplicate_json_key''),
      constant_hook = (\<lambda>c. Inl (protected_error ''invalid_json_constant''))\<rparr>"

definition decode_json :: "bytes \<Rightarrow> pyval result" where
  "decode_json raw =
     catch (\<lambda>e. e = UnicodeDecodeError \<or> e = JSONDecodeError) (json_loads_bytes protected_hooks raw)
       (Inl (protected_error ''json_invalid''))"

text \<open>\<open>isinstance\<close> tests that raise.\<close>

definition as_list :: "py_error \<Rightarrow> pyval \<Rightarrow> pyval list result" where
  "as_list e v = (case v of PList vs \<Rightarrow> Inr vs | _ \<Rightarrow> Inl e)"

definition as_dict :: "py_error \<Rightarrow> pyval \<Rightarrow> pydict result" where
  "as_dict e v = (case v of PDict d \<Rightarrow> Inr d | _ \<Rightarrow> Inl e)"

text \<open>A list of strings that all satisfy \<open>P\<close>.\<close>

fun strings_where :: "(pystr \<Rightarrow> bool) \<Rightarrow> pyval list \<Rightarrow> pystr list result" where
  "strings_where P [] = Inr []"
| "strings_where P (PStr s # vs) =
     ensure (P s) policy_error (rbind (strings_where P vs) (\<lambda>ss. Inr (s # ss)))"
| "strings_where P (v # vs) = Inl policy_error"

definition distinct_strings :: "(pystr \<Rightarrow> bool) \<Rightarrow> pyval \<Rightarrow> pystr list result" where
  "distinct_strings P v =
     (case v of
        PList vs \<Rightarrow>
          ensure (vs \<noteq> []) policy_error
            (rbind (strings_where P vs) (\<lambda>ss. ensure (distinct ss) policy_error (Inr ss)))
      | _ \<Rightarrow> Inl policy_error)"

definition field_map :: "pydict \<Rightarrow> (pystr \<times> pystr list) list result" where
  "field_map d =
     rmap (\<lambda>(tool, v). ensure (tool \<noteq> []) policy_error
             (rbind (distinct_strings (\<lambda>f. f \<noteq> []) v) (\<lambda>fs. Inr (tool, fs)))) d"

text \<open>
  \<open>str.lower\<close>: beyond ASCII it is a parameter, a function of the whole string (a final sigma has
  its own lower case).
\<close>

definition lower_char :: "char \<Rightarrow> char" where
  "lower_char c = (if 65 \<le> ord_of c \<and> ord_of c \<le> 90 then char_of (ord_of c + 32) else c)"

definition is_ascii :: "pystr \<Rightarrow> bool" where
  "is_ascii s \<longleftrightarrow> list_all (\<lambda>c. ord_of c < 128) s"

definition py_lower :: "(pystr \<Rightarrow> pystr) \<Rightarrow> pystr \<Rightarrow> pystr" where
  "py_lower other s = (if is_ascii s then map lower_char s else other s)"

definition policy_keys :: "pystr list" where
  "policy_keys =
     [''schema_version'', ''fatal_code'', ''workspace_root'', ''protected_path_families'',
      ''official_benchmark_repository_slugs'', ''terminal_command_fields'', ''filesystem_path_fields'']"

definition load_field_maps :: "pyval \<Rightarrow> pyval \<Rightarrow> ((pystr \<times> pystr list) list \<times> (pystr \<times> pystr list) list) result" where
  "load_field_maps terminal filesystem =
     rbind (as_dict policy_error terminal) (\<lambda>t.
     rbind (as_dict policy_error filesystem) (\<lambda>f.
     ensure (set (dict_keys t) \<inter> set (dict_keys f) = {}) policy_error
       (rbind (field_map t) (\<lambda>t'. rbind (field_map f) (\<lambda>f'. Inr (t', f'))))))"

definition policy_of_value :: "(pystr \<Rightarrow> pystr) \<Rightarrow> pyval \<Rightarrow> policy result" where
  "policy_of_value other v =
     rbind (as_dict policy_error v) (\<lambda>d.
     ensure (keys_are d policy_keys \<and> py_eq (dict_get d ''schema_version'') (PStr policy_schema)
             \<and> py_eq (dict_get d ''fatal_code'') (PStr blocked_code)
             \<and> py_eq (dict_get d ''workspace_root'') (PStr workspace_root)) policy_error
    (rbind (distinct_strings (\<lambda>r. take 1 r = ''/'') (dict_get d ''protected_path_families'')) (\<lambda>families.
     rbind (distinct_strings (\<lambda>s. s \<noteq> [] \<and> s = py_lower other s \<and> CHR ''/'' \<in> set s)
              (dict_get d ''official_benchmark_repository_slugs'')) (\<lambda>slugs.
     rbind (load_field_maps (dict_get d ''terminal_command_fields'') (dict_get d ''filesystem_path_fields'')) (\<lambda>(t, f).
       Inr \<lparr>po_families = families, po_slugs = slugs, po_terminal = t, po_filesystem = f\<rparr>)))))"

definition load_policy :: "(pystr \<Rightarrow> pystr) \<Rightarrow> bytes \<Rightarrow> policy result" where
  "load_policy other raw = rbind (decode_json raw) (policy_of_value other)"

section \<open>Matching\<close>

text \<open>\<open>s.replace(old, new)\<close> for a non-empty \<open>old\<close>.\<close>

function replace_all :: "string \<Rightarrow> string \<Rightarrow> string \<Rightarrow> string" where
  "replace_all old new [] = []"
| "replace_all old new (c # s) =
     (if old \<noteq> [] \<and> starts old (c # s) then new @ replace_all old new (drop (length old) (c # s))
      else c # replace_all old new s)"
  by pat_completeness auto
termination
  by (relation "measure (\<lambda>(old, new, s). length s)") auto

declare replace_all.simps [simp del]

definition separator_spellings :: "string list" where
  "separator_spellings =
     [CHR 0x5C # ''u002f'', CHR 0x5C # ''u005c'', CHR 0x5C # ''/'', ''%2f'', ''%5c'']"

definition unescape :: "string \<Rightarrow> string" where
  "unescape s =
     replace_all ''%3a'' '':'' (replace_all ''%2e'' ''.''
       (fold (\<lambda>old t. replace_all old ''/'' t) separator_spellings s))"

text \<open>\<open>re.sub(r"/+", "/", s)\<close>.\<close>

fun squeeze :: "string \<Rightarrow> string" where
  "squeeze (a # b # s) = (if a = CHR ''/'' \<and> b = CHR ''/'' then squeeze (b # s) else a # squeeze (b # s))"
| "squeeze s = s"

definition normalize_syntax :: "(pystr \<Rightarrow> pystr) \<Rightarrow> pystr \<Rightarrow> pystr" where
  "normalize_syntax other v =
     squeeze (map (\<lambda>c. if c = CHR 0x5C then CHR ''/'' else c) (unescape (unescape (py_lower other v))))"

definition without_file_scheme :: "pystr \<Rightarrow> pystr" where
  "without_file_scheme s = (if starts ''file:'' s then drop 5 s else s)"

definition rooted :: "pystr \<Rightarrow> pystr" where
  "rooted s = (if take 1 s = ''/'' then s else workspace_root @ ''/'' @ s)"

text \<open>The parts of a path, with \<open>.\<close> and \<open>..\<close> resolved as text.\<close>

definition push_part :: "pystr list \<Rightarrow> pystr \<Rightarrow> pystr list" where
  "push_part ps part =
     (if part = [] \<or> part = ''.'' then ps else if part = ''..'' then butlast ps else ps @ [part])"

definition lexical_path :: "(pystr \<Rightarrow> pystr) \<Rightarrow> pystr \<Rightarrow> pystr" where
  "lexical_path other p =
     ''/'' @ join_slash (foldl push_part [] (split_slash (rooted (without_file_scheme (normalize_syntax other p)))))"

definition path_within :: "pystr \<Rightarrow> pystr \<Rightarrow> bool" where
  "path_within p r \<longleftrightarrow> p = r \<or> starts (r @ ''/'') p"

definition linux_proc_root_alias :: "pystr \<Rightarrow> pystr option" where
  "linux_proc_root_alias p =
     (if take 1 p \<noteq> ''/'' then None
      else case split_slash (drop 1 p) of
        proc # process # r # rest \<Rightarrow>
          if rest \<noteq> [] \<and> proc = ''proc'' \<and> r = ''root''
             \<and> (process = ''self'' \<or> process \<noteq> [] \<and> list_all is_digit process)
          then Some (''/'' @ join_slash rest) else None
      | _ \<Rightarrow> None)"

definition path_candidates :: "(pystr \<Rightarrow> pystr) \<Rightarrow> pystr \<Rightarrow> pystr list" where
  "path_candidates other p =
     (let r = rooted (without_file_scheme (normalize_syntax other p)) in
      concat (map (\<lambda>c. c # (case linux_proc_root_alias c of None \<Rightarrow> [] | Some a \<Rightarrow> [a])) [r, lexical_path other r]))"

definition match_path :: "(pystr \<Rightarrow> pystr) \<Rightarrow> policy \<Rightarrow> pystr \<Rightarrow> pystr option" where
  "match_path other po p =
     find (\<lambda>r. True) (concat (map (\<lambda>c. filter (path_within c) (po_families po)) (path_candidates other p)))"

record target_match =
  tm_kind :: pystr
  tm_field :: pystr
  tm_value :: pystr

text \<open>\<open>_TERMINAL_SPLIT.split\<close>: the pieces between runs of separating characters.\<close>

definition is_separator :: "nat \<Rightarrow> bool" where
  "is_separator c \<longleftrightarrow> is_space_point c \<or> c \<in> {39, 34, 96, 59, 124, 38, 40, 41, 60, 62, 123, 125, 91, 93, 44, 61}"

fun split_terminal :: "nat list \<Rightarrow> nat list list" where
  "split_terminal [] = [[]]"
| "split_terminal (c # s) =
     (if is_separator c
      then (if s \<noteq> [] \<and> is_separator (hd s) then split_terminal s else [] # split_terminal s)
      else case split_terminal s of [] \<Rightarrow> [[c]] | p # ps \<Rightarrow> (c # p) # ps)"

definition path_fragment :: "pystr \<Rightarrow> bool" where
  "path_fragment s \<longleftrightarrow> list_ex (\<lambda>p. starts p s) [''/'', ''./'', ''../'', ''file:'']"

text \<open>\<open>slug in normalized\<close>.\<close>

fun occurs :: "string \<Rightarrow> string \<Rightarrow> bool" where
  "occurs p [] = (p = [])"
| "occurs p (c # s) = (starts p (c # s) \<or> occurs p s)"

definition first_some :: "('a \<Rightarrow> 'b option) \<Rightarrow> 'a list \<Rightarrow> 'b option" where
  "first_some f xs = (case List.map_filter f xs of [] \<Rightarrow> None | y # _ \<Rightarrow> Some y)"

definition protected_path :: "pystr \<Rightarrow> pystr \<Rightarrow> target_match" where
  "protected_path field r = \<lparr>tm_kind = ''protected_path'', tm_field = field, tm_value = r\<rparr>"

definition match_terminal_field :: "(pystr \<Rightarrow> pystr) \<Rightarrow> policy \<Rightarrow> pydict \<Rightarrow> pystr \<Rightarrow> target_match option" where
  "match_terminal_field other po args field =
     (case dict_get args field of
        PStr v \<Rightarrow>
          (let normalized = normalize_syntax other v in
           case find (\<lambda>slug. occurs slug normalized) (po_slugs po) of
             Some slug \<Rightarrow>
               Some \<lparr>tm_kind = ''official_benchmark_repository'', tm_field = field, tm_value = slug\<rparr>
           | None \<Rightarrow>
               map_option (protected_path field)
                 (first_some (match_path other po)
                   (filter path_fragment (map of_points (split_terminal (code_points normalized))))))
      | _ \<Rightarrow> None)"

definition match_filesystem_field :: "(pystr \<Rightarrow> pystr) \<Rightarrow> policy \<Rightarrow> pydict \<Rightarrow> pystr \<Rightarrow> target_match option" where
  "match_filesystem_field other po args field =
     (case dict_get args field of
        PStr v \<Rightarrow> map_option (protected_path field) (match_path other po v)
      | _ \<Rightarrow> None)"

definition fields_of :: "(pystr \<times> pystr list) list \<Rightarrow> pystr \<Rightarrow> pystr list" where
  "fields_of fields_by_tool tool = (case map_of fields_by_tool tool of None \<Rightarrow> [] | Some fs \<Rightarrow> fs)"

definition match_protected_target :: "(pystr \<Rightarrow> pystr) \<Rightarrow> policy \<Rightarrow> pyval \<Rightarrow> pyval \<Rightarrow> target_match option" where
  "match_protected_target other po tool arguments =
     (case (tool, arguments) of
        (PStr t, PDict args) \<Rightarrow>
          (case first_some (match_terminal_field other po args) (fields_of (po_terminal po) t) of
             Some m \<Rightarrow> Some m
           | None \<Rightarrow> first_some (match_filesystem_field other po args) (fields_of (po_filesystem po) t))
      | _ \<Rightarrow> None)"

section \<open>Findings\<close>

record evidence_source =
  es_kind :: pystr
  es_path :: pystr
  es_sha256 :: pystr

record target_finding =
  fi_call_id :: pystr
  fi_tool_name :: pystr
  fi_match :: target_match
  fi_dispatched :: bool
  fi_bytes_returned :: bool
  fi_access_blocked :: bool
  fi_sources :: "evidence_source list"

definition evidence_of :: "pystr \<Rightarrow> pystr \<Rightarrow> bytes \<Rightarrow> evidence_source" where
  "evidence_of kind p raw = \<lparr>es_kind = kind, es_path = p, es_sha256 = sha256_hex raw\<rparr>"

text \<open>A tool call as the evidence shows it; the arguments and the name are whatever was recorded.\<close>

record shown_call =
  sc_call_id :: pystr
  sc_tool_name :: pyval
  sc_arguments :: pyval
  sc_dispatched :: bool
  sc_bytes_returned :: bool
  sc_access_blocked :: bool

definition finding_key :: "target_finding \<Rightarrow> pystr \<times> pystr \<times> pystr \<times> pystr \<times> pystr" where
  "finding_key f =
     (fi_call_id f, fi_tool_name f, tm_kind (fi_match f), tm_field (fi_match f), tm_value (fi_match f))"

definition fresh_finding :: "pystr \<Rightarrow> pystr \<Rightarrow> target_match \<Rightarrow> target_finding" where
  "fresh_finding call_id tool m =
     \<lparr>fi_call_id = call_id, fi_tool_name = tool, fi_match = m, fi_dispatched = False, fi_bytes_returned = False,
      fi_access_blocked = False, fi_sources = []\<rparr>"

definition absorb :: "shown_call \<Rightarrow> evidence_source \<Rightarrow> target_finding \<Rightarrow> target_finding" where
  "absorb c source f =
     f\<lparr>fi_dispatched := fi_dispatched f \<or> sc_dispatched c,
       fi_bytes_returned := fi_bytes_returned f \<or> sc_bytes_returned c,
       fi_access_blocked := fi_access_blocked f \<or> sc_access_blocked c,
       fi_sources := (if source \<in> set (fi_sources f) then fi_sources f else fi_sources f @ [source])\<rparr>"

text \<open>The dictionary of findings, in insertion order.\<close>

primrec merge_into :: "target_finding \<Rightarrow> (target_finding \<Rightarrow> target_finding) \<Rightarrow> target_finding list \<Rightarrow> target_finding list" where
  "merge_into fresh g [] = [g fresh]"
| "merge_into fresh g (f # fs) = (if finding_key f = finding_key fresh then g f # fs else f # merge_into fresh g fs)"

definition merge_call ::
  "(pystr \<Rightarrow> pystr) \<Rightarrow> policy \<Rightarrow> evidence_source \<Rightarrow> target_finding list \<Rightarrow> shown_call \<Rightarrow> target_finding list" where
  "merge_call other po source fs c =
     (case (sc_tool_name c, match_protected_target other po (sc_tool_name c) (sc_arguments c)) of
        (PStr tool, Some m) \<Rightarrow> merge_into (fresh_finding (sc_call_id c) tool m) (absorb c source) fs
      | _ \<Rightarrow> fs)"

definition merge_calls ::
  "(pystr \<Rightarrow> pystr) \<Rightarrow> policy \<Rightarrow> target_finding list \<Rightarrow> shown_call list \<times> evidence_source \<Rightarrow> target_finding list" where
  "merge_calls other po fs surface = foldl (merge_call other po (snd surface)) fs (fst surface)"

section \<open>The calls of a trajectory\<close>

definition is_permission_denial :: "pyval \<Rightarrow> pyval \<Rightarrow> pyval \<Rightarrow> bool" where
  "is_permission_denial output execution_attempted outcome \<longleftrightarrow>
     py_eq output (PStr ''permission_denied'') \<and> execution_attempted = PBool False \<and> py_eq outcome (PStr ''rejected'')"

definition trajectory_invalid :: py_error where
  "trajectory_invalid = protected_error ''trajectory_invalid''"

definition nonempty_text :: "pyval \<Rightarrow> bool" where
  "nonempty_text v = (case v of PStr s \<Rightarrow> s \<noteq> [] | _ \<Rightarrow> False)"

text \<open>A recorded identifier, or one made from the position of the call.\<close>

definition call_id_or :: "pystr \<Rightarrow> pyval \<Rightarrow> pystr" where
  "call_id_or made v = (case v of PStr s \<Rightarrow> if s = [] then made else s | _ \<Rightarrow> made)"

definition step_observations :: "pydict \<Rightarrow> pydict result" where
  "step_observations step =
     (case dict_get step ''observation'' of
        PDict o' \<Rightarrow>
          rbind (as_list trajectory_invalid (dict_get_default o' ''results'' (PList []))) (\<lambda>rs.
            rfold (\<lambda>seen r.
              rbind (as_dict trajectory_invalid r) (\<lambda>d.
                Inr (case dict_get d ''source_call_id'' of PStr i \<Rightarrow> dict_set seen i r | _ \<Rightarrow> seen))) [] rs)
      | _ \<Rightarrow> Inr [])"

definition dict_of :: "pyval \<Rightarrow> pydict" where
  "dict_of v = (case v of PDict d \<Rightarrow> d | _ \<Rightarrow> [])"

definition trajectory_call :: "nat \<Rightarrow> pydict \<Rightarrow> nat \<Rightarrow> pyval \<Rightarrow> shown_call result" where
  "trajectory_call step_index seen call_index v =
     rbind (as_dict trajectory_invalid v) (\<lambda>c.
       let call_id = call_id_or (''atif-step-'' @ nat_repr step_index @ ''-call-'' @ nat_repr call_index)
                       (dict_get c ''tool_call_id'');
           shown = dict_of (dict_get seen call_id);
           content = dict_get shown ''content''; extra = dict_get shown ''extra'';
           blocked = (case extra of
             PDict x \<Rightarrow> is_permission_denial content (dict_get x ''execution_attempted'') (dict_get x ''outcome'')
           | _ \<Rightarrow> False)
       in Inr \<lparr>sc_call_id = call_id, sc_tool_name = dict_get c ''function_name'',
               sc_arguments = dict_get c ''arguments'',
               sc_dispatched = (call_id \<in> set (dict_keys seen) \<and> \<not> blocked),
               sc_bytes_returned = (nonempty_text content \<and> \<not> blocked), sc_access_blocked = blocked\<rparr>)"

definition indexed :: "'a list \<Rightarrow> (nat \<times> 'a) list" where
  "indexed xs = zip [0..<length xs] xs"

definition step_calls :: "nat \<times> pyval \<Rightarrow> shown_call list result" where
  "step_calls step =
     rbind (as_dict trajectory_invalid (snd step)) (\<lambda>d.
     rbind (as_list trajectory_invalid (dict_get_default d ''tool_calls'' (PList []))) (\<lambda>cs.
     rbind (step_observations d) (\<lambda>seen.
       rmap (\<lambda>(i, c). trajectory_call (fst step) seen i c) (indexed cs))))"

definition partial_call :: "nat \<times> pyval \<Rightarrow> shown_call result" where
  "partial_call entry =
     rbind (as_dict trajectory_invalid (snd entry)) (\<lambda>c.
       let observation = dict_get c ''observation'';
           content = dict_get (dict_of observation) ''output'';
           denied = (case observation of
             PDict x \<Rightarrow> is_permission_denial content (dict_get x ''execution_attempted'') (dict_get x ''outcome'')
           | _ \<Rightarrow> False)
       in Inr \<lparr>sc_call_id = call_id_or (''partial-call-'' @ nat_repr (fst entry)) (dict_get c ''call_id''),
               sc_tool_name = dict_get c ''function_name'', sc_arguments = dict_get c ''arguments'',
               sc_dispatched = (dict_get c ''dispatched'' = PBool True),
               sc_bytes_returned = (nonempty_text content \<and> \<not> denied),
               sc_access_blocked =
                 (denied \<or> (case dict_get c ''failure'' of
                              PDict x \<Rightarrow> py_eq (dict_get x ''code'') (PStr blocked_code) | _ \<Rightarrow> False))\<rparr>)"

definition optional_list :: "pyval \<Rightarrow> pyval list result" where
  "optional_list v = (if v = PNone then Inr [] else as_list trajectory_invalid v)"

definition atif_calls :: "pyval \<Rightarrow> shown_call list result" where
  "atif_calls v =
     rbind (as_dict trajectory_invalid v) (\<lambda>d.
     rbind (optional_list (dict_get d ''steps'')) (\<lambda>steps.
     rbind (rmap step_calls (indexed steps)) (\<lambda>calls.
     rbind (optional_list (dict_get d ''tool_calls'')) (\<lambda>partial.
     rbind (rmap partial_call (indexed partial)) (\<lambda>more. Inr (concat calls @ more))))))"

section \<open>The calls of an event log\<close>

definition events_invalid :: py_error where
  "events_invalid = protected_error ''event_prefix_invalid''"

definition update_shown :: "pystr \<Rightarrow> (shown_call \<Rightarrow> shown_call) \<Rightarrow> shown_call list \<Rightarrow> shown_call list" where
  "update_shown call_id g = map (\<lambda>c. if sc_call_id c = call_id then g c else c)"

definition find_shown :: "pystr \<Rightarrow> shown_call list \<Rightarrow> shown_call option" where
  "find_shown call_id = find (\<lambda>c. sc_call_id c = call_id)"

definition register_shown :: "shown_call list \<Rightarrow> pydict \<Rightarrow> shown_call list result" where
  "register_shown calls data =
     (case dict_get data ''call_id'' of
        PStr i \<Rightarrow>
          ensure (i \<noteq> [] \<and> find_shown i calls = None) events_invalid
            (case dict_get data ''arguments_json'' of
               PStr raw \<Rightarrow>
                 rbind (py_encode raw) (\<lambda>b.
                 rbind (decode_json b) (\<lambda>v.
                 rbind (as_dict events_invalid v) (\<lambda>args.
                   Inr (calls @ [\<lparr>sc_call_id = i, sc_tool_name = dict_get data ''provider_name'',
                                  sc_arguments = PDict args, sc_dispatched = False, sc_bytes_returned = False,
                                  sc_access_blocked = False\<rparr>]))))
             | _ \<Rightarrow> Inl events_invalid)
      | _ \<Rightarrow> Inl events_invalid)"

definition settle_shown :: "pystr \<Rightarrow> pydict \<Rightarrow> (shown_call \<Rightarrow> shown_call) result" where
  "settle_shown ty data =
     (if ty = ''tool.dispatched'' then Inr (\<lambda>c. c\<lparr>sc_dispatched := True\<rparr>)
      else if ty = ''tool.completed'' then
        (case dict_get data ''output'' of
           PStr out \<Rightarrow>
             (let denied = is_permission_denial (PStr out) (dict_get data ''execution_attempted'') (dict_get data ''outcome'')
              in Inr (\<lambda>c. c\<lparr>sc_bytes_returned := (out \<noteq> [] \<and> \<not> denied), sc_access_blocked := denied\<rparr>))
         | _ \<Rightarrow> Inl events_invalid)
      else Inr (\<lambda>c. c\<lparr>sc_access_blocked := py_eq (dict_get data ''code'') (PStr blocked_code)\<rparr>))"

definition event_call :: "shown_call list \<Rightarrow> pyval \<Rightarrow> shown_call list result" where
  "event_call calls event =
     rbind (as_dict events_invalid event) (\<lambda>e.
       case (dict_get e ''type'', dict_get e ''data'') of
         (PStr ty, PDict data) \<Rightarrow>
           if ty = ''tool.registered'' then register_shown calls data
           else if ty \<in> {''tool.dispatched'', ''tool.completed'', ''tool.failed''} then
             (case dict_get data ''call_id'' of
                PStr i \<Rightarrow>
                  (case find_shown i calls of
                     None \<Rightarrow> Inl events_invalid
                   | Some c \<Rightarrow>
                       ensure (py_eq (dict_get data ''provider_name'') (sc_tool_name c)) events_invalid
                         (rbind (settle_shown ty data) (\<lambda>g. Inr (update_shown i g calls))))
              | _ \<Rightarrow> Inl events_invalid)
           else Inr calls
       | _ \<Rightarrow> Inl events_invalid)"

definition event_calls :: "pyval list \<Rightarrow> shown_call list result" where
  "event_calls events = rfold event_call [] events"

text \<open>\<open>raw.splitlines()\<close> on bytes: lines end at a line feed, a carriage return or both.\<close>

fun byte_lines :: "bytes \<Rightarrow> bytes \<Rightarrow> bytes list" where
  "byte_lines acc [] = (if acc = [] then [] else [acc])"
| "byte_lines acc (c # s) =
     (if ord_of c = 13 \<and> take 1 s = [char_of (10 :: nat)] then acc # byte_lines [] (drop 1 s)
      else if ord_of c = 10 \<or> ord_of c = 13 then acc # byte_lines [] s
      else byte_lines (acc @ [c]) s)"

definition jsonl :: "bytes \<Rightarrow> pyval list result" where
  "jsonl raw =
     ensure (raw \<noteq> [] \<and> last raw = char_of (10 :: nat)) events_invalid (rmap decode_json (byte_lines [] raw))"

section \<open>The audit of a trial\<close>

definition surface_max_bytes :: nat where
  "surface_max_bytes = 32 * 1024 * 1024"

definition read_evidence :: "path \<Rightarrow> bytes io" where
  "read_evidence p =
     io_except (\<lambda>e. e = OSError)
       (io_seq (fs_probe (\<lambda>s. present s p))
         (io_bind (\<lambda>s. (Inr (read_file s p), s)) (\<lambda>found.
            case found of
              None \<Rightarrow> io_raise (protected_error ''evidence_file_invalid'')
            | Some raw \<Rightarrow>
                io_check (length raw \<le> surface_max_bytes) (protected_error ''evidence_file_invalid'')
                  (io_seq (fs_probe (\<lambda>s. True)) (io_return raw)))))
       (protected_error ''evidence_file_unavailable'')"

definition evidence_path_error :: py_error where
  "evidence_path_error = protected_error ''evidence_path_invalid''"

text \<open>The parts of a safe relative path below the agent directory.\<close>

definition safe_agent_path :: "path \<Rightarrow> pyval \<Rightarrow> pystr list io" where
  "safe_agent_path agent_dir relative =
     (case relative of
        PStr r \<Rightarrow>
          io_check (r \<noteq> [] \<and> CHR 0x00 \<notin> set r \<and> \<not> path_is_absolute r
                    \<and> list_all (\<lambda>part. part \<notin> {[], ''.'', ''..''}) (path_parts r)) evidence_path_error
            (io_except (\<lambda>e. e = OSError)
              (io_seq (fs_probe (\<lambda>s. present s agent_dir)) (io_seq (fs_probe (\<lambda>s. present s (agent_dir @ path_parts r)))
                (io_seq (fs_probe (\<lambda>s. present s (agent_dir @ path_parts r)))
                  (io_guard (\<lambda>s. read_file s (agent_dir @ path_parts r) \<noteq> None) evidence_path_error
                    (io_return (path_parts r))))))
              evidence_path_error)
      | _ \<Rightarrow> io_raise evidence_path_error)"

text \<open>A file that a field of the marker names and whose digest another field carries.\<close>

definition bound_file :: "path \<Rightarrow> pydict \<Rightarrow> pystr \<Rightarrow> pystr \<Rightarrow> pystr \<Rightarrow> (pystr list \<times> bytes) io" where
  "bound_file agent_dir marker path_field digest_field code =
     io_bind (safe_agent_path agent_dir (dict_get marker path_field)) (\<lambda>parts.
     io_bind (read_evidence (agent_dir @ parts)) (\<lambda>raw.
       io_check (dict_get marker digest_field = PStr (sha256_hex raw)) (protected_error code)
         (io_return (parts, raw))))"

definition first_present :: "path \<Rightarrow> fsys \<Rightarrow> pystr option" where
  "first_present agent_dir s =
     find (\<lambda>n. present s (agent_dir @ [n])) [''trajectory.json'', ''partial-trajectory.json'', ''emergency-prefix.json'']"

definition unbound_trajectory :: "path \<Rightarrow> (pyval \<times> evidence_source) option io" where
  "unbound_trajectory agent_dir s =
     (case first_present agent_dir s of
        None \<Rightarrow> (Inr None, s)
      | Some n \<Rightarrow>
          io_bind (safe_agent_path agent_dir (PStr n)) (\<lambda>parts.
          io_bind (read_evidence (agent_dir @ parts)) (\<lambda>raw.
          io_bind (io_lift (decode_json raw)) (\<lambda>v. io_return (Some (v, evidence_of ''atif'' n raw))))) s)"

definition trajectory_surface :: "path \<Rightarrow> pydict option \<Rightarrow> (pyval \<times> evidence_source) option io" where
  "trajectory_surface agent_dir marker =
     (case marker of
        Some d \<Rightarrow>
          if ''trajectory_path'' \<in> set (dict_keys d) then
            io_bind (bound_file agent_dir d ''trajectory_path'' ''trajectory_sha256'' ''trajectory_binding_invalid'')
              (\<lambda>(parts, raw). io_bind (io_lift (decode_json raw)) (\<lambda>v.
                 io_return (Some (v, evidence_of ''atif'' (join_slash parts) raw))))
          else unbound_trajectory agent_dir
      | None \<Rightarrow> unbound_trajectory agent_dir)"

definition marker_dict :: "path \<Rightarrow> pydict option io" where
  "marker_dict agent_dir s =
     (if present s (agent_dir @ [''agent-run.json'']) then
        io_bind (safe_agent_path agent_dir (PStr ''agent-run.json'')) (\<lambda>parts.
        io_bind (read_evidence (agent_dir @ parts)) (\<lambda>raw.
        io_bind (io_lift (decode_json raw)) (\<lambda>v.
        io_bind (io_lift (as_dict (protected_error ''marker_invalid'') v)) (\<lambda>d. io_return (Some d))))) s
      else (Inr None, s))"

definition marker_text :: "pydict option \<Rightarrow> pystr \<Rightarrow> pyval" where
  "marker_text marker k = (case marker of None \<Rightarrow> PNone | Some d \<Rightarrow> dict_get d k)"

text \<open>Lists and dictionaries cannot be looked up in a set.\<close>

definition unhashable :: "pyval \<Rightarrow> bool" where
  "unhashable v = (case v of PList vs \<Rightarrow> True | PDict d \<Rightarrow> True | _ \<Rightarrow> False)"

definition event_log_surface :: "path \<Rightarrow> pydict option \<Rightarrow> (pyval list \<times> evidence_source) list io" where
  "event_log_surface agent_dir marker s =
     (if unhashable (marker_text marker ''schema_version'') then (Inl TypeError, s)
      else if marker_text marker ''schema_version'' \<in>
           PStr ` {''nano-agent-run-v2'', ''nano-agent-run-v3'', ''nano-agent-run-v4''}
         \<and> present s (agent_dir @ [''runtime'', ''events.jsonl'']) then
        io_bind (safe_agent_path agent_dir (PStr ''runtime/events.jsonl'')) (\<lambda>parts.
        io_bind (read_evidence (agent_dir @ parts)) (\<lambda>raw.
          io_check (marker_text marker ''events_sha256'' = PStr (sha256_hex raw)) (protected_error ''event_binding_invalid'')
            (io_bind (io_lift (jsonl raw)) (\<lambda>events.
               io_return [(events, evidence_of ''runtime_event'' ''runtime/events.jsonl'' raw)])))) s
      else (Inr [], s))"

definition jsonl_suffix :: "pystr list \<Rightarrow> bool" where
  "jsonl_suffix parts \<longleftrightarrow>
     parts \<noteq> [] \<and> length (last parts) > 6 \<and> drop (length (last parts) - 6) (last parts) = ''.jsonl''"

text \<open>The diagnostic of a failed run; a document without events is a surface without calls.\<close>

definition diagnostic_events :: "pystr list \<Rightarrow> bytes \<Rightarrow> pyval list option result" where
  "diagnostic_events parts raw =
     (if jsonl_suffix parts then rbind (jsonl raw) (\<lambda>events. Inr (Some events))
      else rbind (decode_json raw) (\<lambda>v.
           rbind (as_dict (protected_error ''diagnostic_invalid'') v) (\<lambda>d.
             if dict_get d ''events'' = PNone then Inr None
             else rbind (as_list (protected_error ''diagnostic_invalid'') (dict_get d ''events'')) (\<lambda>es. Inr (Some es)))))"

definition diagnostic_surface :: "path \<Rightarrow> pydict option \<Rightarrow> (pyval list option \<times> evidence_source) option io" where
  "diagnostic_surface agent_dir marker =
     (case marker of
        None \<Rightarrow> io_return None
      | Some d \<Rightarrow>
          if \<not> py_eq (dict_get d ''schema_version'') (PStr ''nano-agent-run-v4'') then io_return None
          else if unhashable (dict_get d ''publication_kind'') then io_raise TypeError
          else io_check
            (dict_get d ''publication_kind'' \<in> {PStr ''failure_atif'', PStr ''emergency_atif''}
             \<and> \<not> py_eq (dict_get d ''terminal_status'') (PStr ''success'')) (protected_error ''v4_marker_invalid'')
           (io_bind (bound_file agent_dir d ''diagnostic_path'' ''diagnostic_sha256'' ''diagnostic_binding_invalid'')
              (\<lambda>(parts, raw). io_bind (io_lift (diagnostic_events parts raw)) (\<lambda>es.
                 io_return (Some (es, evidence_of ''diagnostic'' (join_slash parts) raw))))))"

text \<open>
  The calls of one surface after the other; a surface that is not well formed ends the audit, and
  what was found until then is kept.
\<close>

primrec merge_surfaces ::
  "(pystr \<Rightarrow> pystr) \<Rightarrow> policy \<Rightarrow> target_finding list \<Rightarrow> (pyval list \<times> evidence_source) list
     \<Rightarrow> target_finding list \<times> py_error option" where
  "merge_surfaces other po fs [] = (fs, None)"
| "merge_surfaces other po fs (surface # rest) =
     (case event_calls (fst surface) of
        Inl e \<Rightarrow> (fs, Some e)
      | Inr calls \<Rightarrow> merge_surfaces other po (merge_calls other po fs (calls, snd surface)) rest)"

definition apply_terminal_code :: "pydict option \<Rightarrow> target_finding list \<Rightarrow> target_finding list" where
  "apply_terminal_code marker fs =
     (if py_eq (marker_text marker ''terminal_code'') (PStr blocked_code)
      then map (\<lambda>f. if fi_dispatched f then f else f\<lparr>fi_access_blocked := True\<rparr>) fs else fs)"

definition audit_caught :: "py_error \<Rightarrow> bool" where
  "audit_caught e \<longleftrightarrow> e = TypeError \<or> is_value_error e"

definition audit_stopped :: "py_error \<Rightarrow> target_finding list \<Rightarrow> (pystr \<times> target_finding list) io" where
  "audit_stopped e fs s = (if audit_caught e then (Inr (''invalid'', fs), s) else (Inl e, s))"

definition io_or_stop :: "target_finding list \<Rightarrow> 'a io \<Rightarrow> ('a \<Rightarrow> (pystr \<times> target_finding list) io)
    \<Rightarrow> (pystr \<times> target_finding list) io" where
  "io_or_stop fs m k s = (case m s of (Inl e, t) \<Rightarrow> audit_stopped e fs t | (Inr x, t) \<Rightarrow> k x t)"

definition audit_surfaces :: "(pystr \<Rightarrow> pystr) \<Rightarrow> policy \<Rightarrow> path \<Rightarrow> (pystr \<times> target_finding list) io" where
  "audit_surfaces other po agent_dir =
     io_or_stop [] (marker_dict agent_dir) (\<lambda>marker.
     io_or_stop []
       (io_bind (trajectory_surface agent_dir marker) (\<lambda>found.
          case found of
            None \<Rightarrow> io_return None
          | Some (v, source) \<Rightarrow> io_bind (io_lift (atif_calls v)) (\<lambda>calls. io_return (Some (calls, source)))))
       (\<lambda>trajectory.
        let fs = (case trajectory of None \<Rightarrow> [] | Some surface \<Rightarrow> merge_calls other po [] surface) in
        io_or_stop fs (event_log_surface agent_dir marker) (\<lambda>log.
        io_or_stop fs (diagnostic_surface agent_dir marker) (\<lambda>diagnostic.
          let surfaces = log @ (case diagnostic of Some (Some es, source) \<Rightarrow> [(es, source)] | _ \<Rightarrow> []);
              state = (if marker = None \<and> trajectory = None \<and> log = [] \<and> diagnostic = None
                       then ''unavailable'' else ''available'')
          in (case merge_surfaces other po fs surfaces of
                (fs', Some e) \<Rightarrow> audit_stopped e fs'
              | (fs', None) \<Rightarrow> io_return (state, apply_terminal_code marker fs'))))))"

section \<open>The document\<close>

definition finding_strong :: "target_finding \<Rightarrow> bool" where
  "finding_strong f \<longleftrightarrow> fi_dispatched f \<or> fi_bytes_returned f"

definition finding_blocked :: "target_finding \<Rightarrow> bool" where
  "finding_blocked f \<longleftrightarrow> fi_access_blocked f \<and> \<not> fi_dispatched f"

definition classification :: "target_finding \<Rightarrow> pystr" where
  "classification f =
     (if finding_strong f then ''strong'' else if finding_blocked f then ''access_blocked'' else ''attempted'')"

definition finding_signal :: "target_finding \<Rightarrow> pystr" where
  "finding_signal f =
     (if finding_strong f
      then (if tm_kind (fi_match f) = ''official_benchmark_repository''
            then ''official_benchmark_repository_access'' else ''protected_harness_material_access'')
      else if finding_blocked f then blocked_code else ''protected_harness_material_access_attempted'')"

definition source_value :: "evidence_source \<Rightarrow> pyval" where
  "source_value e = PDict [(''kind'', PStr (es_kind e)), (''path'', PStr (es_path e)), (''sha256'', PStr (es_sha256 e))]"

definition target_finding_schema :: pystr where
  "target_finding_schema = ''nano-protected-target-finding-v1''"

definition finding_row :: "bool \<Rightarrow> target_finding \<Rightarrow> pydict" where
  "finding_row rewarded f =
     [(''schema_version'', PStr target_finding_schema), (''call_id'', PStr (fi_call_id f)),
      (''tool_name'', PStr (fi_tool_name f)), (''target_kind'', PStr (tm_kind (fi_match f))),
      (''target_field'', PStr (tm_field (fi_match f))), (''policy_value'', PStr (tm_value (fi_match f))),
      (''classification'', PStr (classification f)), (''attempted'', PBool True),
      (''dispatched'', PBool (fi_dispatched f)), (''bytes_returned'', PBool (fi_bytes_returned f)),
      (''causal_benefit'', PBool (rewarded \<and> fi_bytes_returned f)), (''access_blocked'', PBool (finding_blocked f)),
      (''evidence_sources'',
        PList (map source_value (sort_key (\<lambda>e. (es_kind e, es_path e, es_sha256 e)) (fi_sources f))))]"

definition count_of :: "(target_finding \<Rightarrow> bool) \<Rightarrow> target_finding list \<Rightarrow> pyval" where
  "count_of P fs = PInt (int (length (filter P fs)))"

definition target_audit_document :: "pystr \<Rightarrow> bool \<Rightarrow> pystr \<times> target_finding list \<Rightarrow> pydict" where
  "target_audit_document policy_sha256 rewarded outcome =
     (let fs = sort_key finding_key (snd outcome) in
      [(''schema_version'', PStr ''nano-protected-target-audit-v1''),
       (''policy_schema_version'', PStr policy_schema), (''policy_sha256'', PStr policy_sha256),
       (''state'', PStr (fst outcome)),
       (''signals'', PList (map PStr (sort (remdups (map finding_signal fs))))),
       (''counts'',
         PDict [(''findings'', PInt (int (length fs))), (''strong'', count_of finding_strong fs),
           (''attempted'', count_of (\<lambda>f. classification f = ''attempted'') fs),
           (''access_blocked'', count_of (\<lambda>f. classification f = ''access_blocked'') fs),
           (''dispatched'', count_of fi_dispatched fs), (''bytes_returned'', count_of fi_bytes_returned fs),
           (''causal_benefit'', count_of (\<lambda>f. rewarded \<and> fi_bytes_returned f) fs)]),
       (''findings'', PList (map (\<lambda>f. PDict (finding_row rewarded f)) fs))])"

definition audit_protected_trial ::
  "(pystr \<Rightarrow> pystr) \<Rightarrow> policy \<Rightarrow> pystr \<Rightarrow> path \<Rightarrow> bool \<Rightarrow> pydict io" where
  "audit_protected_trial other po policy_sha256 trial_dir rewarded s =
     (let agent_dir = trial_dir @ [''agent''] in
      if \<not> is_dir s agent_dir then (Inr (target_audit_document policy_sha256 rewarded (''unavailable'', [])), s)
      else io_bind (audit_surfaces other po agent_dir)
             (\<lambda>outcome. io_return (target_audit_document policy_sha256 rewarded outcome)) s)"

section \<open>Admission of a finding\<close>

definition finding_required :: "pystr list" where
  "finding_required =
     [''schema_version'', ''call_id'', ''tool_name'', ''target_kind'', ''target_field'', ''policy_value'',
      ''classification'', ''attempted'', ''dispatched'', ''bytes_returned'', ''causal_benefit'', ''access_blocked'',
      ''evidence_sources'']"

definition confirmed_fields :: "pystr list" where
  "confirmed_fields =
     [''confirmed_access'', ''confirmed_use'', ''confirmed_privileged_access'', ''confirmed_privileged_use'']"

definition is_bool_value :: "pyval \<Rightarrow> bool" where
  "is_bool_value v = (case v of PBool b \<Rightarrow> True | _ \<Rightarrow> False)"

definition source_ok :: "pyval \<Rightarrow> bool" where
  "source_ok v =
     (case v of
        PDict d \<Rightarrow>
          keys_are d [''kind'', ''path'', ''sha256'']
          \<and> list_all (\<lambda>k. nonempty_text (dict_get d k)) [''kind'', ''path'', ''sha256'']
          \<and> (case dict_get d ''sha256'' of PStr h \<Rightarrow> is_sha256_hex h | _ \<Rightarrow> False)
      | _ \<Rightarrow> False)"

definition finding_well_formed :: "pydict \<Rightarrow> bool" where
  "finding_well_formed d \<longleftrightarrow>
     (let g = dict_get d; optional = set (dict_keys d) - set finding_required in
      set finding_required \<subseteq> set (dict_keys d) \<and> optional \<subseteq> set confirmed_fields
      \<and> py_eq (g ''schema_version'') (PStr target_finding_schema)
      \<and> list_all (\<lambda>k. nonempty_text (g k))
          [''call_id'', ''tool_name'', ''target_kind'', ''target_field'', ''policy_value'', ''classification'']
      \<and> g ''target_kind'' \<in> {PStr ''protected_path'', PStr ''official_benchmark_repository''}
      \<and> list_all (\<lambda>k. is_bool_value (g k))
          [''attempted'', ''dispatched'', ''bytes_returned'', ''causal_benefit'', ''access_blocked'']
      \<and> list_all (\<lambda>k. is_bool_value (g k)) (filter (\<lambda>k. k \<notin> set finding_required) (dict_keys d))
      \<and> (case g ''evidence_sources'' of PList vs \<Rightarrow> vs \<noteq> [] \<and> list_all source_ok vs | _ \<Rightarrow> False))"

definition target_finding_blocks :: "pyval \<Rightarrow> bool" where
  "target_finding_blocks v =
     (case v of
        PDict d \<Rightarrow>
          (let g = dict_get d in
           if \<not> finding_well_formed d then True
           else if list_ex (\<lambda>k. g k = PBool True) confirmed_fields then True
           else if g ''classification'' = PStr ''strong'' \<or> g ''dispatched'' = PBool True
                   \<or> g ''bytes_returned'' = PBool True \<or> g ''causal_benefit'' = PBool True then True
           else if g ''attempted'' \<noteq> PBool True then True
           else if g ''classification'' = PStr ''access_blocked'' then g ''access_blocked'' \<noteq> PBool True
           else if g ''classification'' = PStr ''attempted'' then g ''access_blocked'' \<noteq> PBool False
           else True)
      | _ \<Rightarrow> True)"

end
