(* ===== verification/Protected_Target_Correct.thy ===== *)
theory Protected_Target_Correct
  imports Protected_Target
begin

text \<open>
  What the matching and the audit of protected targets guarantee: no spelling of a path hides that it
  leads into a protected family, an audit without strong findings means that nothing protected was
  reached, and a finding blocks a submission exactly when it is strong.
\<close>

section \<open>Normal forms\<close>

lemma starts_Nil [simp]: "starts [] s"
  by (simp add: starts_def)

lemma starts_Cons: "starts (a # q) s \<longleftrightarrow> (\<exists>t. s = a # t \<and> starts q t)"
  by (cases s) (auto simp: starts_def)

lemma replace_all_Nil [simp]: "replace_all old new [] = []"
  by (simp add: replace_all.simps)

lemma replace_all_Cons:
  "old \<noteq> [] \<Longrightarrow> starts old (c # s) \<Longrightarrow> replace_all old new (c # s) = new @ replace_all old new (drop (length old) (c # s))"
  "old = [] \<or> \<not> starts old (c # s) \<Longrightarrow> replace_all old new (c # s) = c # replace_all old new s"
  by (simp_all only: replace_all.simps) auto

text \<open>What occurs in the result of a replacement by a foreign character occurred before.\<close>

lemma starts_replace:
  assumes "c \<notin> set q" and "starts q (replace_all old [c] s)"
  shows "starts q s"
  using assms
proof (induction s arbitrary: q)
  case Nil
  then show ?case by simp
next
  case (Cons x s)
  show ?case
  proof (cases "q = [] \<or> (old \<noteq> [] \<and> starts old (x # s))")
    case True
    then show ?thesis
      using Cons.prems by (cases q) (auto simp: starts_Cons replace_all_Cons(1))
  next
    case False
    then obtain a q' where q: "q = a # q'" by (cases q) auto
    have "replace_all old [c] (x # s) = x # replace_all old [c] s" using False by (intro replace_all_Cons) auto
    with Cons.prems q have "a = x" "starts q' (replace_all old [c] s)" by (simp_all add: starts_Cons)
    with Cons.IH [of q'] Cons.prems(1) q show ?thesis by (simp add: starts_Cons)
  qed
qed

lemma occurs_drop: "occurs q (drop n s) \<Longrightarrow> q \<noteq> [] \<Longrightarrow> occurs q s"
proof (induction n arbitrary: s)
  case (Suc n)
  then show ?case by (cases s) auto
qed simp

lemma occurs_replace:
  assumes "c \<notin> set q" and "q \<noteq> []" and "occurs q (replace_all old [c] s)"
  shows "occurs q s \<and> q \<noteq> old"
  using assms(3)
proof (induction old "[c]" s rule: replace_all.induct)
  case (1 old)
  then show ?case using assms(2) by simp
next
  case (2 old x s)
  show ?case
  proof (cases "old \<noteq> [] \<and> starts old (x # s)")
    case True
    then have eq: "replace_all old [c] (x # s) = c # replace_all old [c] (drop (length old) (x # s))"
      by (simp add: replace_all_Cons(1))
    moreover have "\<not> starts q (c # t)" for t
      using assms(1,2) by (cases q) (auto simp: starts_Cons)
    ultimately have "occurs q (replace_all old [c] (drop (length old) (x # s)))"
      using "2.prems" by simp
    then have "occurs q (drop (length old) (x # s)) \<and> q \<noteq> old" by (rule "2.hyps"(1) [OF True])
    then show ?thesis using occurs_drop assms(2) by blast
  next
    case False
    then have eq: "replace_all old [c] (x # s) = x # replace_all old [c] s"
      by (intro replace_all_Cons) auto
    show ?thesis
    proof (cases "starts q (x # replace_all old [c] s)")
      case True
      then have "starts q (x # s)" using starts_replace [OF assms(1), of old "x # s"] eq by simp
      moreover from this have "q \<noteq> old" using False assms(2) by auto
      ultimately show ?thesis by simp
    next
      case F: False
      then have "occurs q s \<and> q \<noteq> old" using "2.prems" eq by (intro "2.hyps"(2) [OF False]) simp
      then show ?thesis by simp
    qed
  qed
qed

lemma replace_all_absent: "\<not> occurs old s \<Longrightarrow> replace_all old new s = s"
  by (induction s) (auto simp: replace_all_Cons(2))

definition escapes :: "string list" where
  "escapes = [''%2f'', ''%5c'', ''%2e'', ''%3a'']"

lemma escapes_no_slash: "q \<in> set escapes \<Longrightarrow> q \<noteq> [] \<and> CHR ''/'' \<notin> set q \<and> CHR ''.'' \<notin> set q \<and> CHR '':'' \<notin> set q \<and> CHR 0x5C \<notin> set q"
  by (auto simp: escapes_def)

lemma unescape_no_escapes: "q \<in> set escapes \<Longrightarrow> \<not> occurs q (unescape s)"
proof
  assume q: "q \<in> set escapes" and occ: "occurs q (unescape s)"
  note foreign = escapes_no_slash [OF q]
  note earlier = occurs_replace [of _ q]
  have "q \<noteq> ''%3a''" "occurs q (replace_all ''%2e'' ''.'' (fold (\<lambda>old t. replace_all old ''/'' t) separator_spellings s))"
    using earlier occ foreign unfolding unescape_def by blast+
  then have "q \<noteq> ''%2e''" "occurs q (fold (\<lambda>old t. replace_all old ''/'' t) separator_spellings s)"
    using earlier foreign by blast+
  then have "q \<noteq> ''%5c''" "occurs q (fold (\<lambda>old t. replace_all old ''/'' t) (butlast separator_spellings) s)"
    using earlier foreign unfolding separator_spellings_def by (simp_all, blast+)
  then have "q \<noteq> ''%2f''"
    using earlier foreign unfolding separator_spellings_def by (simp, blast)
  with q \<open>q \<noteq> ''%3a''\<close> \<open>q \<noteq> ''%2e''\<close> \<open>q \<noteq> ''%5c''\<close> show False by (auto simp: escapes_def)
qed

abbreviation slashed :: "string \<Rightarrow> string" where
  "slashed s \<equiv> map (\<lambda>c. if c = CHR 0x5C then CHR ''/'' else c) s"

lemma starts_slashed: "CHR ''/'' \<notin> set q \<Longrightarrow> starts q (slashed s) \<Longrightarrow> starts q s"
  by (induction q arbitrary: s) (auto simp: starts_Cons map_eq_Cons_conv split: if_splits)

lemma occurs_slashed: "CHR ''/'' \<notin> set q \<Longrightarrow> occurs q (slashed s) \<Longrightarrow> occurs q s"
  by (induction s) (auto dest: starts_slashed [where s = "_ # _", simplified])

lemma squeeze_Cons: "\<exists>t. squeeze (c # s) = c # t"
  by (induction s arbitrary: c) auto

lemma starts_squeeze: "CHR ''/'' \<notin> set q \<Longrightarrow> starts q (squeeze s) \<Longrightarrow> starts q s"
proof (induction s arbitrary: q rule: squeeze.induct)
  case (1 a b s)
  show ?case
  proof (cases "a = CHR ''/'' \<and> b = CHR ''/''")
    case True
    then have "starts q (b # s)" using 1 by simp
    with True "1.prems"(1) have "q = []" by (cases q) (auto simp: starts_Cons)
    then show ?thesis by simp
  next
    case False
    with 1 show ?thesis by (cases q) (auto simp: starts_Cons split: if_splits)
  qed
qed simp_all

lemma occurs_squeeze: "CHR ''/'' \<notin> set q \<Longrightarrow> occurs q (squeeze s) \<Longrightarrow> occurs q s"
proof (induction s rule: squeeze.induct)
  case (1 a b s)
  show ?case
  proof (cases "a = CHR ''/'' \<and> b = CHR ''/''")
    case True
    with 1 show ?thesis by simp
  next
    case False
    then show ?thesis
      using 1 starts_squeeze [of q "a # b # s"] by (auto split: if_splits)
  qed
qed simp_all

lemma squeezed: "\<not> occurs ''//'' (squeeze s)"
proof (induction s rule: squeeze.induct)
  case (1 a b s)
  obtain t where "squeeze (b # s) = b # t" using squeeze_Cons by blast
  with 1 show ?case by (auto simp: starts_Cons)
qed (simp_all add: starts_Cons)

lemma squeeze_id: "\<not> occurs ''//'' s \<Longrightarrow> squeeze s = s"
  by (induction s rule: squeeze.induct) (auto simp: starts_Cons)

definition plain_char :: "char \<Rightarrow> bool" where
  "plain_char c \<longleftrightarrow> ord_of c < 128 \<and> lower_char c = c \<and> c \<noteq> CHR 0x5C"

definition normal :: "pystr \<Rightarrow> bool" where
  "normal s \<longleftrightarrow> list_all plain_char s \<and> (\<forall>q \<in> set (''//'' # escapes). \<not> occurs q s)"

lemma set_replace_all: "set (replace_all old new s) \<subseteq> set s \<union> set new"
proof (induction old new s rule: replace_all.induct)
  case (2 old new c s)
  then show ?case
    by (cases "old \<noteq> [] \<and> starts old (c # s)") (auto simp: replace_all_Cons dest!: in_set_dropD)
qed simp

lemma set_unescape: "set (unescape s) \<subseteq> set s \<union> {CHR ''/'', CHR ''.'', CHR '':''}"
proof -
  have step: "set (replace_all old [c] t) \<subseteq> A" if "set t \<subseteq> A" "c \<in> A" for old c t A
    using set_replace_all [of old "[c]" t] that by auto
  show ?thesis
    unfolding unescape_def separator_spellings_def by (simp only: fold_simps, intro step) auto
qed

lemma set_squeeze: "set (squeeze s) \<subseteq> set s"
  by (induction s rule: squeeze.induct) auto

lemma plain_lower_char: "ord_of c < 128 \<Longrightarrow> ord_of (lower_char c) < 128 \<and> lower_char (lower_char c) = lower_char c"
  by (auto simp: lower_char_def)

lemma plain_separators: "plain_char CHR ''/''" "plain_char CHR ''.''" "plain_char CHR '':''"
  by (auto simp: plain_char_def lower_char_def ord_of_def)

lemma normal_normalize:
  assumes "is_ascii p"
  shows "normal (normalize_syntax other p)"
proof -
  let ?u = "unescape (unescape (py_lower other p))"
  have low: "ord_of c < 128 \<and> lower_char c = c" if "c \<in> set (py_lower other p)" for c
    using that assms plain_lower_char by (auto simp: py_lower_def is_ascii_def list_all_iff)
  have "ord_of c < 128 \<and> lower_char c = c" if "c \<in> set ?u" for c
    using that low set_unescape plain_separators unfolding plain_char_def by blast
  then have "plain_char c" if "c \<in> set (slashed ?u)" for c
    using that plain_separators(1) by (auto simp: plain_char_def split: if_splits)
  then have "list_all plain_char (squeeze (slashed ?u))"
    unfolding list_all_iff using set_squeeze by blast
  moreover have "\<not> occurs q (squeeze (slashed ?u))" if "q \<in> set escapes" for q
    using escapes_no_slash [OF that] unescape_no_escapes [OF that] occurs_squeeze occurs_slashed by blast
  ultimately show ?thesis
    using squeezed by (auto simp: normal_def normalize_syntax_def)
qed

lemma occurs_subset: "occurs q s \<Longrightarrow> set q \<subseteq> set s"
proof (induction s)
  case (Cons c s)
  have "set q \<subseteq> set (c # s)" if "starts q (c # s)"
    using that unfolding starts_def by (metis set_take_subset)
  with Cons show ?case by auto
qed simp

lemma normal_no_escape:
  assumes "normal s" and "CHR 0x5C \<in> set q \<or> q \<in> set escapes"
  shows "\<not> occurs q s"
proof
  assume occ: "occurs q s"
  have "CHR 0x5C \<notin> set s" using assms(1) by (auto simp: normal_def list_all_iff plain_char_def)
  then have "CHR 0x5C \<notin> set q" using occurs_subset [OF occ] by blast
  then show False using assms occ by (auto simp: normal_def)
qed

lemma unescape_normal: "normal s \<Longrightarrow> unescape s = s"
proof -
  assume n: "normal s"
  have "replace_all q new s = s" if "CHR 0x5C \<in> set q \<or> q \<in> set escapes" for q new
    by (rule replace_all_absent [OF normal_no_escape [OF n that]])
  then show ?thesis by (simp add: unescape_def separator_spellings_def escapes_def)
qed

lemma normalize_normal:
  assumes "normal s"
  shows "normalize_syntax other s = s"
proof -
  have chars: "plain_char c" if "c \<in> set s" for c using assms that by (simp add: normal_def list_all_iff)
  then have "is_ascii s" "map lower_char s = s"
    by (auto simp: is_ascii_def list_all_iff plain_char_def intro: map_idI)
  then have "py_lower other s = s" by (simp add: py_lower_def)
  moreover have "slashed s = s" by (rule map_idI) (use chars in \<open>auto simp: plain_char_def\<close>)
  moreover have "squeeze s = s" using assms by (intro squeeze_id) (simp add: normal_def)
  ultimately show ?thesis using unescape_normal [OF assms] by (simp add: normalize_syntax_def)
qed

lemma normal_drop: "normal s \<Longrightarrow> normal (drop n s)"
  using occurs_drop by (auto simp: normal_def list_all_iff escapes_def dest: in_set_dropD)

lemma normal_rooted:
  assumes "normal s"
  shows "normal (rooted s)"
proof (cases "take 1 s = ''/''")
  case True
  with assms show ?thesis by (simp add: rooted_def)
next
  case False
  have "list_all plain_char (workspace_root @ ''/'')"
    by (simp add: workspace_root_def plain_char_def lower_char_def ord_of_def)
  moreover have "\<not> starts ''/'' s" using False by (cases s) (auto simp: starts_Cons)
  ultimately show ?thesis
    using assms False by (auto simp: normal_def rooted_def workspace_root_def escapes_def starts_Cons)
qed

lemma rooted_normal:
  "take 1 (rooted s) = ''/''" "without_file_scheme (rooted s) = rooted s" "rooted (rooted s) = rooted s"
proof -
  show root: "take 1 (rooted s) = ''/''" by (simp add: rooted_def workspace_root_def)
  then show "rooted (rooted s) = rooted s" by (simp add: rooted_def [of "rooted s"])
  obtain t where "rooted s = CHR ''/'' # t" using root by (cases "rooted s") auto
  then show "without_file_scheme (rooted s) = rooted s" by (simp add: without_file_scheme_def starts_Cons)
qed

text \<open>Normalising twice changes nothing, so the second candidate of a match is the lexical path.\<close>

lemma lexical_of_rooted:
  assumes "is_ascii p"
  shows "lexical_path other (rooted (without_file_scheme (normalize_syntax other p))) = lexical_path other p"
proof -
  let ?r = "rooted (without_file_scheme (normalize_syntax other p))"
  have "normal (without_file_scheme (normalize_syntax other p))"
    using normal_normalize [OF assms] normal_drop by (simp add: without_file_scheme_def)
  then have "normalize_syntax other ?r = ?r" by (intro normalize_normal normal_rooted)
  then show ?thesis by (simp add: lexical_path_def rooted_normal)
qed

lemma first_some_Some: "x \<in> set xs \<Longrightarrow> f x \<noteq> None \<Longrightarrow> first_some f xs \<noteq> None"
  by (induction xs) (auto simp: first_some_def List.map_filter_def split: option.splits list.splits)

lemma match_path_within:
  assumes "is_ascii p" and "r \<in> set (po_families po)" and "path_within (lexical_path other p) r"
  shows "match_path other po p \<noteq> None"
proof -
  have "lexical_path other p \<in> set (path_candidates other p)"
    using lexical_of_rooted [OF assms(1)] by (simp add: path_candidates_def Let_def)
  then have "r \<in> set (concat (map (\<lambda>c. filter (path_within c) (po_families po)) (path_candidates other p)))"
    using assms(2,3) by auto
  then show ?thesis unfolding match_path_def by (auto simp: find_None_iff)
qed


text \<open>The policy of the repository.\<close>

definition repository_policy :: policy where
  "repository_policy =
     \<lparr>po_families = [''/logs''],
      po_slugs = [''harbor-framework/terminal-bench'', ''laude-institute/terminal-bench''],
      po_terminal = [(''run_terminal_command'', [''command''])],
      po_filesystem =
        [(''grep'', [''path'']), (''list_dir'', [''target_directory'']), (''read_file'', [''target_file'']),
         (''search_replace'', [''file_path'']), (''write'', [''file_path''])]\<rparr>"


section \<open>What a finding is\<close>

definition source_fine :: "evidence_source \<Rightarrow> bool" where
  "source_fine e \<longleftrightarrow> es_kind e \<noteq> [] \<and> es_path e \<noteq> [] \<and> is_sha256_hex (es_sha256 e)"

definition match_fine :: "target_match \<Rightarrow> bool" where
  "match_fine m \<longleftrightarrow>
     tm_kind m \<in> {''protected_path'', ''official_benchmark_repository''} \<and> tm_field m \<noteq> [] \<and> tm_value m \<noteq> []"

definition finding_fine :: "target_finding \<Rightarrow> bool" where
  "finding_fine f \<longleftrightarrow>
     fi_call_id f \<noteq> [] \<and> fi_tool_name f \<noteq> [] \<and> match_fine (fi_match f) \<and> fi_sources f \<noteq> []
     \<and> list_all source_fine (fi_sources f)"

definition policy_fine :: "policy \<Rightarrow> bool" where
  "policy_fine po \<longleftrightarrow>
     [] \<notin> set (po_families po) \<and> [] \<notin> set (po_slugs po)
     \<and> list_all (\<lambda>(tool, fs). tool \<noteq> [] \<and> [] \<notin> set fs) (po_terminal po @ po_filesystem po)"

lemma case_str_dict_Inr [simp]:
  "(case v of PStr s \<Rightarrow> f s | _ \<Rightarrow> Inl e) = Inr y \<longleftrightarrow> (\<exists>s. v = PStr s \<and> f s = Inr y)"
  "(case v of PDict d \<Rightarrow> h d | _ \<Rightarrow> Inl e) = Inr y \<longleftrightarrow> (\<exists>d. v = PDict d \<and> h d = Inr y)"
  by (rule case_str_Inr case_dict_Inr)+

lemma as_Inr [simp]:
  "as_list e v = Inr vs \<longleftrightarrow> v = PList vs" "as_dict e v = Inr d \<longleftrightarrow> v = PDict d"
  by (cases v; auto simp: as_list_def as_dict_def)+

lemma strings_where_Inr: "strings_where P vs = Inr ss \<Longrightarrow> list_all P ss"
  by (induction P vs arbitrary: ss rule: strings_where.induct) (auto simp: rbind_Inr_iff)

lemma distinct_strings_Inr: "distinct_strings P v = Inr ss \<Longrightarrow> list_all P ss"
  by (auto simp: distinct_strings_def rbind_Inr_iff dest: strings_where_Inr split: pyval.splits)

lemma rmap_all: "rmap f xs = Inr ys \<Longrightarrow> (\<And>x y. f x = Inr y \<Longrightarrow> P y) \<Longrightarrow> \<forall>y \<in> set ys. P y"
  by (induction xs arbitrary: ys) (auto simp: rbind_Inr_iff)

lemma field_map_Inr:
  assumes "field_map d = Inr m"
  shows "list_all (\<lambda>(tool, fs). tool \<noteq> [] \<and> [] \<notin> set fs) m"
proof -
  have "\<forall>y \<in> set m. case y of (tool, fs) \<Rightarrow> tool \<noteq> [] \<and> [] \<notin> set fs"
    by (rule rmap_all [OF assms [unfolded field_map_def]])
      (auto simp: rbind_Inr_iff list_all_iff dest!: distinct_strings_Inr split: prod.splits)
  then show ?thesis by (simp add: list_all_iff)
qed

lemma load_policy_fine:
  assumes "load_policy other raw = Inr po"
  shows "policy_fine po"
proof -
  obtain d families slugs t f where parts:
    "distinct_strings (\<lambda>r. take 1 r = ''/'') (dict_get d ''protected_path_families'') = Inr families"
    "distinct_strings (\<lambda>s. s \<noteq> [] \<and> s = py_lower other s \<and> CHR ''/'' \<in> set s)
       (dict_get d ''official_benchmark_repository_slugs'') = Inr slugs"
    "\<exists>terminal. field_map terminal = Inr t" "\<exists>filesystem. field_map filesystem = Inr f"
    and po: "po = \<lparr>po_families = families, po_slugs = slugs, po_terminal = t, po_filesystem = f\<rparr>"
    using assms unfolding load_policy_def policy_of_value_def load_field_maps_def
    by (auto simp: rbind_Inr_iff split: prod.splits) blast
  have "[] \<notin> set families" "[] \<notin> set slugs"
    using distinct_strings_Inr [OF parts(1)] distinct_strings_Inr [OF parts(2)] by (auto simp: list_all_iff)
  then show ?thesis using parts(3,4) field_map_Inr by (auto simp: policy_fine_def po)
qed

lemma first_some_in: "first_some f xs = Some y \<Longrightarrow> \<exists>x \<in> set xs. f x = Some y"
  by (induction xs) (auto simp: first_some_def List.map_filter_def split: option.splits list.splits if_splits)

lemma match_path_in: "match_path other po p = Some r \<Longrightarrow> r \<in> set (po_families po)"
  by (auto simp: match_path_def find_Some_iff in_set_conv_nth dest!: nth_mem)

lemma fields_of_fine:
  assumes "list_all (\<lambda>(tool, fs). tool \<noteq> [] \<and> [] \<notin> set fs) m" and "field \<in> set (fields_of m tool)"
  shows "tool \<noteq> [] \<and> field \<noteq> []"
proof (cases "map_of m tool")
  case None
  with assms(2) show ?thesis by (simp add: fields_of_def)
next
  case (Some fs)
  with assms show ?thesis by (auto simp: fields_of_def list_all_iff dest!: map_of_SomeD)
qed

lemma match_fine_result:
  assumes "policy_fine po" and "match_protected_target other po v arguments = Some m"
  obtains tool where "v = PStr tool" "tool \<noteq> []" "match_fine m"
proof -
  obtain tool args where v: "v = PStr tool" "arguments = PDict args"
    using assms(2) by (auto simp: match_protected_target_def split: pyval.splits)
  with assms(2) consider field where "field \<in> set (fields_of (po_terminal po) tool)"
      "match_terminal_field other po args field = Some m"
    | field where "field \<in> set (fields_of (po_filesystem po) tool)"
      "match_filesystem_field other po args field = Some m"
    by (auto simp: match_protected_target_def split: option.splits dest!: first_some_in)
  then show ?thesis
  proof cases
    case 1
    have f: "tool \<noteq> [] \<and> field \<noteq> []"
      by (rule fields_of_fine [OF _ 1(1)]) (use assms(1) in \<open>simp add: policy_fine_def\<close>)
    have "r \<noteq> []" if "r \<in> set (po_families po) \<or> r \<in> set (po_slugs po)" for r
      using assms(1) that by (auto simp: policy_fine_def)
    with 1(2) f have "match_fine m"
      by (auto simp: match_terminal_field_def Let_def match_fine_def protected_path_def find_Some_iff
          split: pyval.splits option.splits dest!: first_some_in match_path_in)
    with v(1) f show ?thesis using that by blast
  next
    case 2
    have f: "tool \<noteq> [] \<and> field \<noteq> []"
      by (rule fields_of_fine [OF _ 2(1)]) (use assms(1) in \<open>simp add: policy_fine_def\<close>)
    have "r \<noteq> []" if "r \<in> set (po_families po)" for r
      using assms(1) that by (auto simp: policy_fine_def)
    with 2(2) f have "match_fine m"
      by (auto simp: match_filesystem_field_def match_fine_def protected_path_def
          split: pyval.splits option.splits dest!: match_path_in)
    with v(1) f show ?thesis using that by blast
  qed
qed

lemma merge_into_all:
  assumes "\<And>f. f \<in> set fs \<Longrightarrow> P f" and "P (g fresh)" and "\<And>f. P f \<Longrightarrow> P (g f)"
  shows "f \<in> set (merge_into fresh g fs) \<Longrightarrow> P f"
  using assms(1,2) by (induction fs) (auto simp: assms(3) split: if_splits)

lemma merge_call_fine:
  assumes "policy_fine po" and "list_all finding_fine fs" and "source_fine source" and "sc_call_id c \<noteq> []"
  shows "list_all finding_fine (merge_call other po source fs c)"
proof (cases "match_protected_target other po (sc_tool_name c) (sc_arguments c)")
  case None
  then show ?thesis using assms(2) by (simp add: merge_call_def split: pyval.split)
next
  case (Some m)
  obtain tool where t: "sc_tool_name c = PStr tool" "tool \<noteq> []" "match_fine m"
    by (rule match_fine_result [OF assms(1) Some])
  have "finding_fine (absorb c source (fresh_finding (sc_call_id c) tool m))"
    using t assms(3,4) by (simp add: finding_fine_def absorb_def fresh_finding_def)
  moreover have "finding_fine (absorb c source f)" if "finding_fine f" for f
    using that assms(3) by (simp add: finding_fine_def absorb_def)
  ultimately show ?thesis
    using assms(2) Some t(1) unfolding merge_call_def list_all_iff
    by (auto intro: merge_into_all [where P = finding_fine and fs = fs and g = "absorb c source"])
qed

lemma merge_calls_fine:
  assumes "policy_fine po" and "source_fine source"
  shows "list_all finding_fine fs \<Longrightarrow> \<forall>c \<in> set calls. sc_call_id c \<noteq> [] \<Longrightarrow>
    list_all finding_fine (merge_calls other po fs (calls, source))"
  unfolding merge_calls_def fst_conv snd_conv
proof (induction calls arbitrary: fs)
  case (Cons c calls)
  then show ?case using merge_call_fine [OF assms(1) _ assms(2)] by simp
qed simp

lemma call_id_or_made [simp]: "call_id_or (c # made) v \<noteq> []"
  by (auto simp: call_id_or_def split: pyval.splits)

lemma trajectory_call_id: "trajectory_call n seen i v = Inr c \<Longrightarrow> sc_call_id c \<noteq> []"
  by (auto simp: trajectory_call_def rbind_Inr_iff Let_def)

lemma partial_call_id: "partial_call entry = Inr c \<Longrightarrow> sc_call_id c \<noteq> []"
  by (auto simp: partial_call_def rbind_Inr_iff Let_def)

lemma atif_call_ids:
  assumes "atif_calls v = Inr calls"
  shows "\<forall>c \<in> set calls. sc_call_id c \<noteq> []"
proof -
  have "\<forall>c \<in> set cs. sc_call_id c \<noteq> []" if "step_calls step = Inr cs" for step cs
    using that unfolding step_calls_def
    by (auto simp: rbind_Inr_iff dest!: rmap_all [where P = "\<lambda>c. sc_call_id c \<noteq> []"] dest: trajectory_call_id)
  then show ?thesis
    using assms partial_call_id unfolding atif_calls_def
    by (auto simp: rbind_Inr_iff dest!: rmap_all [where P = "\<lambda>cs. \<forall>c \<in> set cs. sc_call_id c \<noteq> []"]
        rmap_all [where P = "\<lambda>c. sc_call_id c \<noteq> []"])
qed

lemma register_shown_Inr:
  assumes "register_shown cs data = Inr cs'"
  obtains c where "cs' = cs @ [c]" "sc_call_id c \<noteq> []"
  using assms unfolding register_shown_def
  by (simp only: case_str_dict_Inr ensure_Inr_iff rbind_Inr_iff as_Inr sum.inject) (elim exE conjE, rule that, rule sym, assumption, simp)

lemma settle_shown_Inr: "settle_shown ty data = Inr g \<Longrightarrow> sc_call_id (g c) = sc_call_id c"
  by (auto simp: settle_shown_def Let_def split: if_splits)

lemma event_call_ids_step:
  assumes "event_call cs ev = Inr cs'" and "\<forall>c \<in> set cs. sc_call_id c \<noteq> []"
  shows "\<forall>c \<in> set cs'. sc_call_id c \<noteq> []"
proof -
  obtain e where e: "ev = PDict e" using assms(1) by (auto simp: event_call_def rbind_Inr_iff)
  obtain ty data where "dict_get e ''type'' = PStr ty" "dict_get e ''data'' = PDict data"
    using assms(1) by (auto simp: event_call_def e rbind_Inr_iff)
  then have step: "(if ty = ''tool.registered'' then register_shown cs data
      else if ty \<in> {''tool.dispatched'', ''tool.completed'', ''tool.failed''} then
        (case dict_get data ''call_id'' of
           PStr i \<Rightarrow>
             (case find_shown i cs of
                None \<Rightarrow> Inl events_invalid
              | Some c \<Rightarrow>
                  ensure (py_eq (dict_get data ''provider_name'') (sc_tool_name c)) events_invalid
                    (rbind (settle_shown ty data) (\<lambda>g. Inr (update_shown i g cs))))
         | _ \<Rightarrow> Inl events_invalid)
      else Inr cs) = Inr cs'"
    using assms(1) by (simp add: event_call_def e as_dict_def)
  have "register_shown cs data = Inr cs' \<or> (\<exists>i g. settle_shown ty data = Inr g \<and> cs' = update_shown i g cs) \<or> cs' = cs"
  proof (cases "ty = ''tool.registered''")
    case True
    show ?thesis using step [unfolded if_P [OF True]] by blast
  next
    case F: False
    show ?thesis
    proof (cases "ty \<in> {''tool.dispatched'', ''tool.completed'', ''tool.failed''}")
      case True
      note step [unfolded if_not_P [OF F] if_P [OF True] case_str_dict_Inr]
      then obtain i where "(case find_shown i cs of None \<Rightarrow> Inl events_invalid
          | Some c \<Rightarrow> ensure (py_eq (dict_get data ''provider_name'') (sc_tool_name c)) events_invalid
              (rbind (settle_shown ty data) (\<lambda>g. Inr (update_shown i g cs)))) = Inr cs'" by blast
      then show ?thesis by (cases "find_shown i cs") (auto simp only: option.case ensure_Inr_iff rbind_Inr_iff sum.inject sum.distinct)
    next
      case False
      note step [unfolded if_not_P [OF F] if_not_P [OF False]]
      then show ?thesis by simp
    qed
  qed
  then consider "register_shown cs data = Inr cs'"
    | i g where "settle_shown ty data = Inr g" "cs' = update_shown i g cs" | "cs' = cs" by blast
  then show ?thesis
  proof cases
    case 1
    then show ?thesis using assms(2) by (auto elim!: register_shown_Inr)
  next
    case 2
    then show ?thesis using assms(2) settle_shown_Inr by (auto simp: update_shown_def)
  next
    case 3
    then show ?thesis using assms(2) by simp
  qed
qed

lemma event_call_ids:
  assumes "event_calls events = Inr calls"
  shows "\<forall>c \<in> set calls. sc_call_id c \<noteq> []"
proof (rule rfold_invariant [OF assms [unfolded event_calls_def]])
  show "\<forall>c \<in> set []. sc_call_id c \<noteq> []" by simp
next
  show "\<forall>c \<in> set cs'. sc_call_id c \<noteq> []" if "\<forall>c \<in> set cs. sc_call_id c \<noteq> []" "event_call cs ev = Inr cs'" for cs ev cs'
    using event_call_ids_step that by blast
qed

section \<open>The surfaces of a trial\<close>

lemma reads_safe_agent_path [io_keeps_intros]: "io_keeps only_reads (safe_agent_path dir v)"
  unfolding safe_agent_path_def by (cases v) (simp_all only: pyval.case, (intro io_keeps_intros)+)

lemma reads_read_evidence [io_keeps_intros]: "io_keeps only_reads (read_evidence p)"
proof -
  have "io_keeps only_reads (\<lambda>s. (Inr (read_file s p), s))" by (simp add: io_keeps_def reading.refl)
  then show ?thesis unfolding read_evidence_def by (intro io_keeps_intros) (auto intro!: io_keeps_intros split: option.split)
qed

lemma reads_bound_file [io_keeps_intros]: "io_keeps only_reads (bound_file dir d a b c)"
  unfolding bound_file_def by (auto intro!: io_keeps_intros)

lemma safe_agent_path_Inr:
  assumes "safe_agent_path dir v s = (Inr parts, t)"
  obtains r where "v = PStr r" "parts = path_parts r"
    "list_all (\<lambda>part. part \<notin> {[], ''.'', ''..''}) parts" "read_file s (dir @ parts) \<noteq> None"
proof -
  obtain r where v: "v = PStr r" using assms by (cases v) (auto simp: safe_agent_path_def io_raise_def)
  obtain u1 u2 u3 where probes: "fs_probe (\<lambda>s. present s dir) s = (Inr (), u1)"
      "fs_probe (\<lambda>s. present s (dir @ path_parts r)) u1 = (Inr (), u2)"
      "fs_probe (\<lambda>s. present s (dir @ path_parts r)) u2 = (Inr (), u3)"
    and rest: "list_all (\<lambda>part. part \<notin> {[], ''.'', ''..''}) (path_parts r)"
      "read_file u3 (dir @ path_parts r) \<noteq> None" "parts = path_parts r"
    using assms
    by (auto simp: safe_agent_path_def v io_check_Inr io_except_Inr io_seq_Inr io_guard_Inr io_return_def)
  have "only_reads s u1" "only_reads u1 u2" "only_reads u2 u3"
    using probes keeps_probe_reads io_keepsD by blast+
  then have "read_file u3 = read_file s" using only_reads_simps(2) by metis
  with rest show ?thesis using that [OF v] by simp
qed

lemma read_evidence_Inr:
  assumes "read_evidence p s = (Inr raw, t)"
  shows "read_file s p = Some raw"
proof -
  obtain u where u: "fs_probe (\<lambda>s. present s p) s = (Inr (), u)" "read_file u p = Some raw"
    using assms
    by (auto simp: read_evidence_def io_except_Inr io_seq_Inr io_bind_Inr io_check_Inr io_raise_def io_return_def
        split: option.splits)
  have "only_reads s u" using u(1) keeps_probe_reads io_keepsD by blast
  with u(2) only_reads_simps(2) show ?thesis by metis
qed

lemma bound_file_Inr:
  assumes "bound_file dir d f g code s = (Inr (parts, raw), t)"
  obtains r where "dict_get d f = PStr r" "parts = path_parts r" "dict_get d g = PStr (sha256_hex raw)"
    "list_all (\<lambda>part. part \<notin> {[], ''.'', ''..''}) parts" "read_file s (dir @ parts) = Some raw"
proof -
  obtain u v where safe: "safe_agent_path dir (dict_get d f) s = (Inr parts, u)"
    and raw: "read_evidence (dir @ parts) u = (Inr raw, v)" and digest: "dict_get d g = PStr (sha256_hex raw)"
    using assms by (auto simp: bound_file_def io_bind_Inr io_check_Inr io_return_def)
  have "only_reads s u" using safe reads_safe_agent_path io_keepsD by blast
  then have "read_file s (dir @ parts) = Some raw" using read_evidence_Inr [OF raw] only_reads_simps(2) by metis
  with digest show ?thesis using that safe_agent_path_Inr [OF safe] by metis
qed

lemma join_slash_nonempty: "parts \<noteq> [] \<Longrightarrow> list_all (\<lambda>part. part \<notin> {[], ''.'', ''..''}) parts \<Longrightarrow> join_slash parts \<noteq> []"
  by (cases parts) auto

lemma source_fine_evidence: "kind \<noteq> [] \<Longrightarrow> p \<noteq> [] \<Longrightarrow> source_fine (evidence_of kind p raw)"
  by (simp add: source_fine_def evidence_of_def)

lemma bound_source_fine:
  assumes "bound_file dir d f g code s = (Inr (parts, raw), t)" and "is_dir s dir" and "kind \<noteq> []"
  shows "source_fine (evidence_of kind (join_slash parts) raw)"
proof -
  obtain r where r: "list_all (\<lambda>part. part \<notin> {[], ''.'', ''..''}) parts" "read_file s (dir @ parts) = Some raw"
    by (rule bound_file_Inr [OF assms(1)])
  have "parts \<noteq> []"
    using r(2) assms(2) by (auto simp: read_file_def is_dir_def split: option.splits node.splits)
  with r(1) assms(3) show ?thesis by (intro source_fine_evidence join_slash_nonempty)
qed

lemma reads_marker_dict [io_keeps_intros]: "io_keeps only_reads (marker_dict dir)"
proof -
  have "io_keeps only_reads (io_bind (safe_agent_path dir (PStr ''agent-run.json'')) (\<lambda>parts.
        io_bind (read_evidence (dir @ parts)) (\<lambda>raw. io_bind (io_lift (decode_json raw)) (\<lambda>v.
        io_bind (io_lift (as_dict (protected_error ''marker_invalid'') v)) (\<lambda>d. io_return (Some d))))))"
    by (auto intro!: io_keeps_intros)
  then show ?thesis by (auto simp: io_keeps_def marker_dict_def reading.refl)
qed

lemma reads_unbound_trajectory [io_keeps_intros]: "io_keeps only_reads (unbound_trajectory dir)"
proof -
  have "io_keeps only_reads (io_bind (safe_agent_path dir (PStr n)) (\<lambda>parts.
          io_bind (read_evidence (dir @ parts)) (\<lambda>raw.
          io_bind (io_lift (decode_json raw)) (\<lambda>v. io_return (Some (v, evidence_of ''atif'' n raw))))))" for n
    by (auto intro!: io_keeps_intros)
  then show ?thesis by (auto simp: io_keeps_def unbound_trajectory_def reading.refl split: option.split)
qed

lemma reads_trajectory_surface [io_keeps_intros]: "io_keeps only_reads (trajectory_surface dir marker)"
  unfolding trajectory_surface_def by (auto intro!: io_keeps_intros split: option.split prod.split)

lemma reads_event_log_surface [io_keeps_intros]: "io_keeps only_reads (event_log_surface dir marker)"
proof -
  have "io_keeps only_reads (io_bind (safe_agent_path dir (PStr ''runtime/events.jsonl'')) (\<lambda>parts.
        io_bind (read_evidence (dir @ parts)) (\<lambda>raw.
          io_check (c raw) e (io_bind (io_lift (jsonl raw)) (\<lambda>events.
               io_return [(events, evidence_of ''runtime_event'' ''runtime/events.jsonl'' raw)])))))" for c e
    by (auto intro!: io_keeps_intros)
  note run = io_keepsD [OF this]
  show ?thesis
  proof (rule io_keepsI)
    fix s r t
    assume "event_log_surface dir marker s = (r, t)"
    then show "only_reads s t" unfolding event_log_surface_def using run by (simp only: split: if_split_asm) (auto intro: reading.refl)
  qed
qed

lemma reads_diagnostic_surface [io_keeps_intros]: "io_keeps only_reads (diagnostic_surface dir marker)"
  unfolding diagnostic_surface_def by (auto intro!: io_keeps_intros split: option.split prod.split)

lemma trajectory_source_fine:
  assumes "trajectory_surface dir marker s = (Inr (Some (v, source)), t)" and "is_dir s dir"
  shows "source_fine source"
proof (cases "\<exists>d. marker = Some d \<and> ''trajectory_path'' \<in> set (dict_keys d)")
  case True
  with assms(1) obtain d u parts raw where
    b: "bound_file dir d ''trajectory_path'' ''trajectory_sha256'' ''trajectory_binding_invalid'' s = (Inr (parts, raw), u)"
    and e: "source = evidence_of ''atif'' (join_slash parts) raw"
    by (auto simp: trajectory_surface_def io_bind_Inr io_lift_Inr)
  show ?thesis unfolding e by (rule bound_source_fine [OF b assms(2)]) simp
next
  case False
  with assms(1) have "unbound_trajectory dir s = (Inr (Some (v, source)), t)"
    by (auto simp: trajectory_surface_def split: option.splits if_splits)
  then obtain n raw where n: "first_present dir s = Some n" "source = evidence_of ''atif'' n raw"
    by (auto simp: unbound_trajectory_def io_bind_Inr io_lift_Inr split: option.splits)
  then have "n \<noteq> []" by (auto simp: first_present_def find_Some_iff nth_Cons' split: if_splits)
  then show ?thesis using n(2) source_fine_evidence by simp
qed

lemma event_log_Inr:
  assumes "event_log_surface dir marker s = (Inr logged, t)" and "logged \<noteq> []"
  obtains raw events where "logged = [(events, evidence_of ''runtime_event'' ''runtime/events.jsonl'' raw)]"
    "read_file s (dir @ [''runtime'', ''events.jsonl'']) = Some raw" "jsonl raw = Inr events"
proof -
  obtain parts u raw u' where safe: "safe_agent_path dir (PStr ''runtime/events.jsonl'') s = (Inr parts, u)"
    and raw: "read_evidence (dir @ parts) u = (Inr raw, u')"
    and events: "\<exists>events. jsonl raw = Inr events \<and> logged = [(events, evidence_of ''runtime_event'' ''runtime/events.jsonl'' raw)]"
    using assms unfolding event_log_surface_def
    by (auto simp: io_bind_Inr io_check_Inr io_lift_Inr split: if_split_asm)
  have "parts = path_parts ''runtime/events.jsonl''" using safe_agent_path_Inr [OF safe] by blast
  moreover have "path_parts ''runtime/events.jsonl'' = [''runtime'', ''events.jsonl'']" by code_simp
  ultimately have parts: "parts = [''runtime'', ''events.jsonl'']" by simp
  have "only_reads s u" using safe reads_safe_agent_path io_keepsD by blast
  then have "read_file s (dir @ parts) = Some raw" using read_evidence_Inr [OF raw] only_reads_simps(2) by metis
  with events parts show ?thesis using that by blast
qed

lemma diagnostic_source_fine:
  assumes "diagnostic_surface dir marker s = (Inr (Some (es, source)), t)" and "is_dir s dir"
  shows "source_fine source"
proof -
  obtain d u parts raw where
    b: "bound_file dir d ''diagnostic_path'' ''diagnostic_sha256'' ''diagnostic_binding_invalid'' s = (Inr (parts, raw), u)"
    and e: "source = evidence_of ''diagnostic'' (join_slash parts) raw"
    using assms(1) unfolding diagnostic_surface_def
    by (auto simp: io_bind_Inr io_check_Inr io_lift_Inr io_raise_def split: option.splits if_split_asm)
  show ?thesis unfolding e by (rule bound_source_fine [OF b assms(2)]) simp
qed

lemma merge_surfaces_fine:
  assumes "policy_fine po"
  shows "list_all finding_fine fs \<Longrightarrow> list_all (\<lambda>surface. source_fine (snd surface)) surfaces \<Longrightarrow>
    list_all finding_fine (fst (merge_surfaces other po fs surfaces))"
proof (induction surfaces arbitrary: fs)
  case (Cons surface rest)
  show ?case
  proof (cases "event_calls (fst surface)")
    case (Inl e)
    with Cons.prems show ?thesis by simp
  next
    case (Inr calls)
    have "list_all finding_fine (merge_calls other po fs (calls, snd surface))"
      using Cons.prems event_call_ids [OF Inr] by (intro merge_calls_fine assms) auto
    with Cons Inr show ?thesis by simp
  qed
qed simp

lemma apply_terminal_code_fine: "list_all finding_fine fs \<Longrightarrow> list_all finding_fine (apply_terminal_code marker fs)"
  by (auto simp: apply_terminal_code_def list_all_iff finding_fine_def)

section \<open>The outcome of an audit\<close>

lemma io_or_stop_Inr:
  assumes "io_or_stop fs m k s = (Inr outcome, t)"
  shows "(\<exists>x u. m s = (Inr x, u) \<and> k x u = (Inr outcome, t)) \<or> outcome = (''invalid'', fs)"
  using assms by (auto simp: io_or_stop_def audit_stopped_def split: prod.splits sum.splits if_splits)

definition diagnostic_calls :: "(pyval list option \<times> evidence_source) option \<Rightarrow> (pyval list \<times> evidence_source) list" where
  "diagnostic_calls diagnostic = (case diagnostic of Some (Some es, source) \<Rightarrow> [(es, source)] | _ \<Rightarrow> [])"

definition trajectory_findings ::
  "(pystr \<Rightarrow> pystr) \<Rightarrow> policy \<Rightarrow> (shown_call list \<times> evidence_source) option \<Rightarrow> target_finding list" where
  "trajectory_findings other po trajectory =
     (case trajectory of None \<Rightarrow> [] | Some surface \<Rightarrow> merge_calls other po [] surface)"

definition shown_trajectory ::
  "path \<Rightarrow> pydict option \<Rightarrow> (shown_call list \<times> evidence_source) option io" where
  "shown_trajectory dir marker =
     io_bind (trajectory_surface dir marker) (\<lambda>found.
       case found of
         None \<Rightarrow> io_return None
       | Some (v, source) \<Rightarrow> io_bind (io_lift (atif_calls v)) (\<lambda>calls. io_return (Some (calls, source))))"

definition shown_surfaces ::
  "(pystr \<Rightarrow> pystr) \<Rightarrow> policy \<Rightarrow> pydict option \<Rightarrow> target_finding list \<Rightarrow> pystr \<Rightarrow> (pyval list \<times> evidence_source) list
     \<Rightarrow> (pystr \<times> target_finding list) io" where
  "shown_surfaces other po marker fs state surfaces =
     (case merge_surfaces other po fs surfaces of
        (fs', Some e) \<Rightarrow> audit_stopped e fs'
      | (fs', None) \<Rightarrow> io_return (state, apply_terminal_code marker fs'))"

lemma audit_surfaces_alt:
  "audit_surfaces other po dir =
     io_or_stop [] (marker_dict dir) (\<lambda>marker.
     io_or_stop [] (shown_trajectory dir marker) (\<lambda>trajectory.
     io_or_stop (trajectory_findings other po trajectory) (event_log_surface dir marker) (\<lambda>logged.
     io_or_stop (trajectory_findings other po trajectory) (diagnostic_surface dir marker) (\<lambda>diagnostic.
       shown_surfaces other po marker (trajectory_findings other po trajectory)
         (if marker = None \<and> trajectory = None \<and> logged = [] \<and> diagnostic = None then ''unavailable'' else ''available'')
         (logged @ diagnostic_calls diagnostic)))))"
  unfolding audit_surfaces_def shown_trajectory_def trajectory_findings_def diagnostic_calls_def shown_surfaces_def Let_def ..

lemma shown_surfaces_Inr:
  assumes "shown_surfaces other po marker fs state surfaces s = (Inr outcome, t)"
    and "merge_surfaces other po fs surfaces = (fs', stop)"
  shows "if stop = None then outcome = (state, apply_terminal_code marker fs') else outcome = (''invalid'', fs')"
  using assms by (auto simp: shown_surfaces_def audit_stopped_def split: option.splits if_splits)

text \<open>
  A trial is read from beginning to end, or the audit stops before, with what the trajectory showed
  or with what the surfaces showed until the one that is not well formed.
\<close>

lemma audit_surfaces_Inr:
  assumes "audit_surfaces other po dir s = (Inr outcome, t)"
  shows "outcome = (''invalid'', [])
     \<or> (\<exists>marker u trajectory u'. marker_dict dir s = (Inr marker, u) \<and> shown_trajectory dir marker u = (Inr trajectory, u')
          \<and> (outcome = (''invalid'', trajectory_findings other po trajectory)
             \<or> (\<exists>logged v diagnostic v' fs stop. event_log_surface dir marker u' = (Inr logged, v)
                  \<and> diagnostic_surface dir marker v = (Inr diagnostic, v')
                  \<and> merge_surfaces other po (trajectory_findings other po trajectory)
                      (logged @ diagnostic_calls diagnostic) = (fs, stop)
                  \<and> (if stop = None then fst outcome \<noteq> ''invalid'' \<and> snd outcome = apply_terminal_code marker fs
                     else outcome = (''invalid'', fs)))))" (is "?stopped \<or> (\<exists>marker u trajectory u'. ?read marker u trajectory u')")
proof (rule ccontr)
  assume contra: "\<not> ?thesis"
  then have "outcome \<noteq> (''invalid'', [])" by blast
  with io_or_stop_Inr [OF assms [unfolded audit_surfaces_alt]] obtain marker u where
    marker: "marker_dict dir s = (Inr marker, u)"
    and run: "io_or_stop [] (shown_trajectory dir marker) (\<lambda>trajectory.
     io_or_stop (trajectory_findings other po trajectory) (event_log_surface dir marker) (\<lambda>logged.
     io_or_stop (trajectory_findings other po trajectory) (diagnostic_surface dir marker) (\<lambda>diagnostic.
       shown_surfaces other po marker (trajectory_findings other po trajectory)
         (if marker = None \<and> trajectory = None \<and> logged = [] \<and> diagnostic = None then ''unavailable'' else ''available'')
         (logged @ diagnostic_calls diagnostic)))) u = (Inr outcome, t)" by blast
  from io_or_stop_Inr [OF run] \<open>outcome \<noteq> _\<close> obtain trajectory u' where
    trajectory: "shown_trajectory dir marker u = (Inr trajectory, u')"
    and run: "io_or_stop (trajectory_findings other po trajectory) (event_log_surface dir marker) (\<lambda>logged.
     io_or_stop (trajectory_findings other po trajectory) (diagnostic_surface dir marker) (\<lambda>diagnostic.
       shown_surfaces other po marker (trajectory_findings other po trajectory)
         (if marker = None \<and> trajectory = None \<and> logged = [] \<and> diagnostic = None then ''unavailable'' else ''available'')
         (logged @ diagnostic_calls diagnostic))) u' = (Inr outcome, t)" by blast
  from contra marker trajectory have "outcome \<noteq> (''invalid'', trajectory_findings other po trajectory)" by blast
  with io_or_stop_Inr [OF run] obtain logged v where
    logged: "event_log_surface dir marker u' = (Inr logged, v)"
    and run: "io_or_stop (trajectory_findings other po trajectory) (diagnostic_surface dir marker) (\<lambda>diagnostic.
       shown_surfaces other po marker (trajectory_findings other po trajectory)
         (if marker = None \<and> trajectory = None \<and> logged = [] \<and> diagnostic = None then ''unavailable'' else ''available'')
         (logged @ diagnostic_calls diagnostic)) v = (Inr outcome, t)" by blast
  from io_or_stop_Inr [OF run] \<open>outcome \<noteq> (''invalid'', trajectory_findings other po trajectory)\<close>
  obtain diagnostic v' where diagnostic: "diagnostic_surface dir marker v = (Inr diagnostic, v')"
    and run: "shown_surfaces other po marker (trajectory_findings other po trajectory)
         (if marker = None \<and> trajectory = None \<and> logged = [] \<and> diagnostic = None then ''unavailable'' else ''available'')
         (logged @ diagnostic_calls diagnostic) v' = (Inr outcome, t)" by blast
  obtain fs stop where merged: "merge_surfaces other po (trajectory_findings other po trajectory)
      (logged @ diagnostic_calls diagnostic) = (fs, stop)" by (cases "merge_surfaces other po (trajectory_findings other po trajectory)
      (logged @ diagnostic_calls diagnostic)")
  have "if stop = None then fst outcome \<noteq> ''invalid'' \<and> snd outcome = apply_terminal_code marker fs
      else outcome = (''invalid'', fs)"
    using shown_surfaces_Inr [OF run merged] by (auto split: if_splits)
  then have "?read marker u trajectory u'" using marker trajectory logged diagnostic merged by blast
  with contra show False by blast
qed

lemma shown_trajectory_Inr:
  assumes "shown_trajectory dir marker s = (Inr (Some (calls, source)), t)"
  obtains v u where "trajectory_surface dir marker s = (Inr (Some (v, source)), u)" "atif_calls v = Inr calls"
  using assms by (auto simp: shown_trajectory_def io_bind_Inr io_lift_Inr split: option.splits)

lemma reads_shown_trajectory [io_keeps_intros]: "io_keeps only_reads (shown_trajectory dir marker)"
  unfolding shown_trajectory_def by (auto intro!: io_keeps_intros split: option.split prod.split)

lemma read_state:
  assumes "io_keeps only_reads m" and "m s = (r, t)"
  shows "read_file t = read_file s" "is_dir t = is_dir s" "present t = present s"
  using io_keepsD [OF assms] by (auto simp: only_reads_def)

lemma trajectory_findings_fine:
  assumes "policy_fine po" and "is_dir s dir" and "shown_trajectory dir marker s = (Inr trajectory, t)"
  shows "list_all finding_fine (trajectory_findings other po trajectory)"
proof (cases trajectory)
  case None
  then show ?thesis by (simp add: trajectory_findings_def)
next
  case (Some surface)
  obtain calls source where c: "surface = (calls, source)" by (cases surface)
  obtain v u where v: "trajectory_surface dir marker s = (Inr (Some (v, source)), u)" "atif_calls v = Inr calls"
    by (rule shown_trajectory_Inr [OF assms(3) [unfolded Some c]])
  from merge_calls_fine [OF assms(1) trajectory_source_fine [OF v(1) assms(2)], of "[]", OF _ atif_call_ids [OF v(2)]]
  show ?thesis by (simp add: trajectory_findings_def Some c)
qed

lemma outcome_fine:
  assumes "policy_fine po" and "is_dir s dir" and "audit_surfaces other po dir s = (Inr outcome, t)"
  shows "list_all finding_fine (snd outcome)"
proof -
  have fine: "list_all finding_fine (trajectory_findings other po trajectory)" "is_dir u' dir"
    if "marker_dict dir s = (Inr marker, u)" "shown_trajectory dir marker u = (Inr trajectory, u')"
    for marker u trajectory u'
  proof -
    have dir: "is_dir u dir" using read_state(2) [OF reads_marker_dict that(1)] assms(2) by simp
    then show "list_all finding_fine (trajectory_findings other po trajectory)"
      using trajectory_findings_fine [OF assms(1) _ that(2)] by blast
    show "is_dir u' dir" using read_state(2) [OF reads_shown_trajectory that(2)] dir by simp
  qed
  show ?thesis
    using audit_surfaces_Inr [OF assms(3)]
  proof (elim disjE exE conjE)
    assume "outcome = (''invalid'', [])"
    then show ?thesis by simp
  next
    fix marker u trajectory u'
    assume "marker_dict dir s = (Inr marker, u)" "shown_trajectory dir marker u = (Inr trajectory, u')"
      and "outcome = (''invalid'', trajectory_findings other po trajectory)"
    then show ?thesis using fine(1) by simp
  next
    fix marker u trajectory u' logged v diagnostic v' fs stop
    assume start: "marker_dict dir s = (Inr marker, u)" "shown_trajectory dir marker u = (Inr trajectory, u')"
      and logged: "event_log_surface dir marker u' = (Inr logged, v)"
      and diagnostic: "diagnostic_surface dir marker v = (Inr diagnostic, v')"
      and merged: "merge_surfaces other po (trajectory_findings other po trajectory)
          (logged @ diagnostic_calls diagnostic) = (fs, stop)"
      and outcome: "if stop = None then fst outcome \<noteq> ''invalid'' \<and> snd outcome = apply_terminal_code marker fs
        else outcome = (''invalid'', fs)"
    have dir': "is_dir v dir" using read_state(2) [OF reads_event_log_surface logged] fine(2) [OF start] by simp
    have "source_fine (snd surface)" if "surface \<in> set logged" for surface
    proof -
      from that have "logged \<noteq> []" by auto
      from event_log_Inr [OF logged this] that show ?thesis using source_fine_evidence by (metis empty_iff
        empty_set list.set(2) insert_iff snd_conv list.distinct(1))
    qed
    moreover have "source_fine (snd surface)" if "surface \<in> set (diagnostic_calls diagnostic)" for surface
      using that diagnostic_source_fine [OF _ dir'] diagnostic
      by (auto simp: diagnostic_calls_def split: option.splits)
    ultimately have "list_all (\<lambda>surface. source_fine (snd surface)) (logged @ diagnostic_calls diagnostic)"
      by (auto simp only: list_all_iff set_append)
    from merge_surfaces_fine [OF assms(1) fine(1) [OF start] this, of other] have "list_all finding_fine fs"
      by (simp add: merged)
    moreover have "snd outcome = apply_terminal_code marker fs \<or> snd outcome = fs"
      using outcome by (auto split: if_splits)
    ultimately show ?thesis using apply_terminal_code_fine by auto
  qed
qed

section \<open>Rows and their admission\<close>

lemma row_keys: "map fst (finding_row rewarded f) = finding_required"
  by (simp add: finding_row_def finding_required_def)

lemma row_get:
  "dict_get (finding_row rewarded f) ''schema_version'' = PStr target_finding_schema"
  "dict_get (finding_row rewarded f) ''call_id'' = PStr (fi_call_id f)"
  "dict_get (finding_row rewarded f) ''tool_name'' = PStr (fi_tool_name f)"
  "dict_get (finding_row rewarded f) ''target_kind'' = PStr (tm_kind (fi_match f))"
  "dict_get (finding_row rewarded f) ''target_field'' = PStr (tm_field (fi_match f))"
  "dict_get (finding_row rewarded f) ''policy_value'' = PStr (tm_value (fi_match f))"
  "dict_get (finding_row rewarded f) ''classification'' = PStr (classification f)"
  "dict_get (finding_row rewarded f) ''attempted'' = PBool True"
  "dict_get (finding_row rewarded f) ''dispatched'' = PBool (fi_dispatched f)"
  "dict_get (finding_row rewarded f) ''bytes_returned'' = PBool (fi_bytes_returned f)"
  "dict_get (finding_row rewarded f) ''causal_benefit'' = PBool (rewarded \<and> fi_bytes_returned f)"
  "dict_get (finding_row rewarded f) ''access_blocked'' = PBool (finding_blocked f)"
  "dict_get (finding_row rewarded f) ''evidence_sources'' =
     PList (map source_value (sort_key (\<lambda>e. (es_kind e, es_path e, es_sha256 e)) (fi_sources f)))"
  by (simp_all add: finding_row_def dict_get_def)

lemma row_unconfirmed: "k \<in> set confirmed_fields \<Longrightarrow> dict_get (finding_row rewarded f) k = PNone"
proof -
  assume k: "k \<in> set confirmed_fields"
  have "list_all (\<lambda>k. k \<notin> set finding_required) confirmed_fields" by code_simp
  with k have "k \<notin> set finding_required" unfolding list_all_iff by (rule bspec [rotated])
  then have "k \<notin> set (map fst (finding_row rewarded f))" by (simp only: row_keys not_False_eq_True)
  then have "map_of (finding_row rewarded f) k = None" by (simp add: map_of_eq_None_iff)
  then show ?thesis by (simp only: dict_get_def option.case)
qed

lemma source_value_ok:
  assumes "source_fine e"
  shows "source_ok (source_value e)"
proof -
  have "es_sha256 e \<noteq> []" using assms by (auto simp: source_fine_def is_sha256_hex_def)
  with assms show ?thesis
    by (simp add: source_ok_def source_value_def source_fine_def keys_are_def dict_keys_def nonempty_text_def dict_get_def)
qed

lemma row_well_formed:
  assumes "finding_fine f"
  shows "finding_well_formed (finding_row rewarded f)"
proof -
  have "dict_keys (finding_row rewarded f) = finding_required" using row_keys by (simp add: dict_keys_def)
  moreover have "list_all (\<lambda>k. nonempty_text (dict_get (finding_row rewarded f) k))
      [''call_id'', ''tool_name'', ''target_kind'', ''target_field'', ''policy_value'', ''classification'']"
    using assms by (auto simp: row_get nonempty_text_def finding_fine_def match_fine_def classification_def)
  moreover have "tm_kind (fi_match f) = ''protected_path'' \<or> tm_kind (fi_match f) = ''official_benchmark_repository''"
    using assms by (auto simp: finding_fine_def match_fine_def)
  moreover have "list_all source_ok (map source_value (sort_key (\<lambda>e. (es_kind e, es_path e, es_sha256 e)) (fi_sources f)))"
    using assms source_value_ok by (auto simp: finding_fine_def list_all_iff)
  moreover have "sort_key (\<lambda>e. (es_kind e, es_path e, es_sha256 e)) (fi_sources f) \<noteq> []"
    using assms by (metis finding_fine_def set_empty set_sort)
  ultimately show ?thesis
    by (simp add: finding_well_formed_def Let_def row_get is_bool_value_def)
qed

lemma strong_row_blocks: "finding_strong f \<Longrightarrow> target_finding_blocks (PDict (finding_row rewarded f))"
  by (simp add: target_finding_blocks_def Let_def row_get classification_def)

lemma row_blocks_iff:
  assumes "finding_fine f"
  shows "target_finding_blocks (PDict (finding_row rewarded f)) \<longleftrightarrow> finding_strong f"
proof (cases "finding_strong f")
  case True
  then show ?thesis using strong_row_blocks by simp
next
  case False
  have "\<not> list_ex (\<lambda>k. dict_get (finding_row rewarded f) k = PBool True) confirmed_fields"
    using row_unconfirmed by (auto simp: list_ex_iff)
  then show ?thesis
    using False row_well_formed [OF assms]
    by (auto simp: target_finding_blocks_def Let_def row_get classification_def finding_strong_def)
qed

lemma audit_rows:
  assumes "audit_protected_trial other po digest trial rewarded s = (Inr doc, t)"
  shows "\<exists>outcome. doc = target_audit_document digest rewarded outcome
    \<and> (outcome = (''unavailable'', []) \<or> is_dir s (trial @ [''agent'']) \<and> audit_surfaces other po (trial @ [''agent'']) s = (Inr outcome, t))"
  using assms by (auto simp: audit_protected_trial_def Let_def io_bind_Inr split: if_splits)

lemma document_get:
  "dict_get (target_audit_document digest rewarded outcome) ''state'' = PStr (fst outcome)"
  "dict_get (target_audit_document digest rewarded outcome) ''findings'' =
     PList (map (\<lambda>f. PDict (finding_row rewarded f)) (sort_key finding_key (snd outcome)))"
  by (simp_all add: target_audit_document_def Let_def dict_get_def)

text \<open>
  C21: the audit and the admission agree. Under a policy that was loaded, a finding of an audit blocks
  the submission exactly when the call was dispatched or returned bytes; in particular the admission
  never rejects a finding of the audit as malformed or contradictory.
\<close>

theorem audit_blocks_what_was_reached:
  assumes "load_policy other raw = Inr po"
    and "audit_protected_trial other po (sha256_hex raw) trial rewarded s = (Inr doc, t)"
    and "dict_get doc ''findings'' = PList rows" and "PDict row \<in> set rows"
  shows "target_finding_blocks (PDict row) \<longleftrightarrow>
    dict_get row ''dispatched'' = PBool True \<or> dict_get row ''bytes_returned'' = PBool True"
proof -
  obtain outcome where doc: "doc = target_audit_document (sha256_hex raw) rewarded outcome"
    and run: "outcome = (''unavailable'', []) \<or> is_dir s (trial @ [''agent'']) \<and> audit_surfaces other po (trial @ [''agent'']) s = (Inr outcome, t)"
    using audit_rows [OF assms(2)] by blast
  have "list_all finding_fine (snd outcome)"
    using run outcome_fine [OF load_policy_fine [OF assms(1)], of s "trial @ [''agent'']" other outcome t] by fastforce
  moreover obtain f where f: "f \<in> set (snd outcome)" "row = finding_row rewarded f"
    using assms(3,4) by (auto simp: doc document_get)
  ultimately have "finding_fine f" by (simp add: list_all_iff)
  from row_blocks_iff [OF this, of rewarded] show ?thesis by (simp add: f(2) row_get finding_strong_def)
qed

section \<open>What an admissible audit excludes\<close>

definition some_strong :: "target_finding list \<Rightarrow> bool" where
  "some_strong fs \<longleftrightarrow> (\<exists>f \<in> set fs. finding_strong f)"

definition reached :: "(pystr \<Rightarrow> pystr) \<Rightarrow> policy \<Rightarrow> shown_call \<Rightarrow> bool" where
  "reached other po c \<longleftrightarrow>
     match_protected_target other po (sc_tool_name c) (sc_arguments c) \<noteq> None \<and> (sc_dispatched c \<or> sc_bytes_returned c)"

lemma absorb_strong: "finding_strong f \<or> sc_dispatched c \<or> sc_bytes_returned c \<Longrightarrow> finding_strong (absorb c source f)"
  by (auto simp: finding_strong_def absorb_def)

lemma merge_into_strong:
  assumes "\<And>f. finding_strong f \<Longrightarrow> finding_strong (g f)"
    and "some_strong fs \<or> (\<forall>f. finding_strong (g f))"
  shows "some_strong (merge_into fresh g fs)"
  using assms(2) by (induction fs) (auto simp: some_strong_def assms(1))

lemma merge_call_strong:
  assumes "some_strong fs \<or> reached other po c"
  shows "some_strong (merge_call other po source fs c)"
proof (cases "match_protected_target other po (sc_tool_name c) (sc_arguments c)")
  case None
  with assms show ?thesis by (auto simp: merge_call_def reached_def split: pyval.split)
next
  case (Some m)
  then obtain tool where tool: "sc_tool_name c = PStr tool"
    by (auto simp: match_protected_target_def split: pyval.splits)
  have "some_strong (merge_into (fresh_finding (sc_call_id c) tool m) (absorb c source) fs)"
    using assms absorb_strong by (intro merge_into_strong) (auto simp: reached_def)
  with Some show ?thesis by (simp add: merge_call_def tool)
qed

lemma merge_calls_strong:
  "some_strong fs \<or> (\<exists>c \<in> set calls. reached other po c) \<Longrightarrow> some_strong (merge_calls other po fs (calls, source))"
  unfolding merge_calls_def fst_conv snd_conv
  by (induction calls arbitrary: fs) (auto simp: merge_call_strong)

lemma merge_surfaces_strong:
  assumes "merge_surfaces other po fs surfaces = (fs', None)"
    and "some_strong fs \<or> (\<exists>surface \<in> set surfaces. \<exists>calls. event_calls (fst surface) = Inr calls
           \<and> (\<exists>c \<in> set calls. reached other po c))"
  shows "some_strong fs'"
  using assms
proof (induction surfaces arbitrary: fs)
  case Nil
  then show ?case by simp
next
  case (Cons surface rest)
  then obtain calls where calls: "event_calls (fst surface) = Inr calls"
    and run: "merge_surfaces other po (merge_calls other po fs (calls, snd surface)) rest = (fs', None)"
    by (auto split: sum.splits)
  have "some_strong (merge_calls other po fs (calls, snd surface))
    \<or> (\<exists>surface \<in> set rest. \<exists>calls. event_calls (fst surface) = Inr calls \<and> (\<exists>c \<in> set calls. reached other po c))"
    using Cons.prems(2) merge_calls_strong [of fs calls other po "snd surface"] by (auto simp: calls)
  then show ?case by (rule Cons.IH [OF run])
qed

lemma apply_terminal_code_strong: "some_strong fs \<Longrightarrow> some_strong (apply_terminal_code marker fs)"
proof -
  assume "some_strong fs"
  then obtain f where f: "f \<in> set fs" "finding_strong f" by (auto simp: some_strong_def)
  let ?g = "\<lambda>f. if fi_dispatched f then f else f\<lparr>fi_access_blocked := True\<rparr>"
  have "finding_strong (?g f)" using f(2) by (auto simp: finding_strong_def)
  moreover have "?g f \<in> set (map ?g fs)" using f(1) by (simp only: set_map image_eqI)
  ultimately show ?thesis using f unfolding some_strong_def apply_terminal_code_def by (auto simp only: split: if_splits)
qed

lemma available_audit_is_weak:
  assumes "audit_surfaces other po dir s = (Inr (''available'', fs), t)" and "\<not> some_strong fs"
  obtains marker u trajectory u' logged v
  where "marker_dict dir s = (Inr marker, u)" "shown_trajectory dir marker u = (Inr trajectory, u')"
    "event_log_surface dir marker u' = (Inr logged, v)"
    "\<And>calls source c. trajectory = Some (calls, source) \<Longrightarrow> c \<in> set calls \<Longrightarrow> \<not> reached other po c"
    "\<And>events source calls c. (events, source) \<in> set logged \<Longrightarrow> event_calls events = Inr calls \<Longrightarrow> c \<in> set calls
       \<Longrightarrow> \<not> reached other po c"
  using audit_surfaces_Inr [OF assms(1)]
proof (elim disjE exE conjE)
  fix marker u trajectory u' logged v diagnostic v' fs' stop
  assume read: "marker_dict dir s = (Inr marker, u)" "shown_trajectory dir marker u = (Inr trajectory, u')"
      "event_log_surface dir marker u' = (Inr logged, v)"
    and merged: "merge_surfaces other po (trajectory_findings other po trajectory)
          (logged @ diagnostic_calls diagnostic) = (fs', stop)"
    and outcome: "if stop = None then fst (''available'', fs) \<noteq> ''invalid'' \<and> snd (''available'', fs) = apply_terminal_code marker fs'
        else (''available'', fs) = (''invalid'', fs')"
  from outcome have "stop = None" "fs = apply_terminal_code marker fs'" by (auto split: if_splits)
  then have weak: "\<not> some_strong fs'" "merge_surfaces other po (trajectory_findings other po trajectory)
          (logged @ diagnostic_calls diagnostic) = (fs', None)"
    using assms(2) apply_terminal_code_strong merged by auto
  note strong = merge_surfaces_strong [OF weak(2)]
  show ?thesis
  proof (rule that [OF read])
    fix calls source c
    assume "trajectory = Some (calls, source)" "c \<in> set calls"
    then show "\<not> reached other po c"
      using strong weak(1) merge_calls_strong [of "[]" calls other po source] by (auto simp: trajectory_findings_def)
  next
    fix events source calls c
    assume "(events, source) \<in> set logged" "event_calls events = Inr calls" "c \<in> set calls"
    then show "\<not> reached other po c" using strong weak(1) by force
  qed
qed simp_all

text \<open>The tool calls of the surfaces that a marker binds.\<close>

definition trajectory_shows :: "path \<Rightarrow> fsys \<Rightarrow> pydict \<Rightarrow> shown_call \<Rightarrow> bool" where
  "trajectory_shows dir s d c \<longleftrightarrow>
     ''trajectory_path'' \<in> set (dict_keys d)
     \<and> (\<exists>r raw v calls. dict_get d ''trajectory_path'' = PStr r \<and> read_file s (dir @ path_parts r) = Some raw
         \<and> decode_json raw = Inr v \<and> atif_calls v = Inr calls \<and> c \<in> set calls)"

definition event_log_shows :: "path \<Rightarrow> fsys \<Rightarrow> pydict \<Rightarrow> shown_call \<Rightarrow> bool" where
  "event_log_shows dir s d c \<longleftrightarrow>
     dict_get d ''schema_version'' \<in> PStr ` {''nano-agent-run-v2'', ''nano-agent-run-v3'', ''nano-agent-run-v4''}
     \<and> (\<exists>raw events calls. read_file s (dir @ [''runtime'', ''events.jsonl'']) = Some raw
         \<and> jsonl raw = Inr events \<and> event_calls events = Inr calls \<and> c \<in> set calls)"

lemma read_present: "read_file s p = Some raw \<Longrightarrow> present s p"
  by (auto simp: read_file_def present_def split: option.splits)

lemma marker_dict_Inr:
  assumes "marker_dict dir s = (Inr marker, t)" and "read_file s (dir @ [''agent-run.json'']) = Some m"
    and "decode_json m = Inr (PDict d)"
  shows "marker = Some d"
proof -
  obtain parts u raw u' where safe: "safe_agent_path dir (PStr ''agent-run.json'') s = (Inr parts, u)"
    and raw: "read_evidence (dir @ parts) u = (Inr raw, u')"
    and rest: "\<exists>d'. decode_json raw = Inr (PDict d') \<and> marker = Some d'"
    using assms(1) read_present [OF assms(2)] unfolding marker_dict_def
    by (auto simp: io_bind_Inr io_lift_Inr)
  have "path_parts ''agent-run.json'' = [''agent-run.json'']" by code_simp
  moreover have "parts = path_parts ''agent-run.json''" using safe_agent_path_Inr [OF safe] by blast
  ultimately have "parts = [''agent-run.json'']" by simp
  then have "raw = m"
    using read_evidence_Inr [OF raw] assms(2) read_state(1) [OF reads_safe_agent_path safe] by simp
  with rest assms(3) show ?thesis by simp
qed

lemma shown_trajectory_bound:
  assumes "shown_trajectory dir (Some d) s = (Inr trajectory, t)" and "trajectory_shows dir s d c"
  obtains calls source where "trajectory = Some (calls, source)" "c \<in> set calls"
proof -
  obtain r raw v calls where key: "''trajectory_path'' \<in> set (dict_keys d)"
    and r: "dict_get d ''trajectory_path'' = PStr r" "read_file s (dir @ path_parts r) = Some raw"
    and v: "decode_json raw = Inr v" "atif_calls v = Inr calls" "c \<in> set calls"
    using assms(2) by (auto simp: trajectory_shows_def)
  obtain parts raw' u v' source calls' where
    b: "bound_file dir d ''trajectory_path'' ''trajectory_sha256'' ''trajectory_binding_invalid'' s = (Inr (parts, raw'), u)"
    and v': "decode_json raw' = Inr v'" "atif_calls v' = Inr calls'" "trajectory = Some (calls', source)"
    using assms(1) key unfolding shown_trajectory_def trajectory_surface_def
    by (auto simp: io_bind_Inr io_lift_Inr)
  have "raw' = raw" using bound_file_Inr [OF b] r by auto
  with v v' show ?thesis using that by simp
qed

lemma event_log_bound:
  assumes "event_log_surface dir (Some d) s = (Inr logged, t)" and "event_log_shows dir s d c"
  obtains events source calls where "(events, source) \<in> set logged" "event_calls events = Inr calls" "c \<in> set calls"
proof -
  obtain raw events calls where schema: "marker_text (Some d) ''schema_version'' \<in>
        PStr ` {''nano-agent-run-v2'', ''nano-agent-run-v3'', ''nano-agent-run-v4''}"
    and raw: "read_file s (dir @ [''runtime'', ''events.jsonl'']) = Some raw"
    and events: "jsonl raw = Inr events" "event_calls events = Inr calls" "c \<in> set calls"
    using assms(2) by (auto simp: event_log_shows_def marker_text_def)
  have "logged \<noteq> []"
    using assms(1) schema read_present [OF raw] unfolding event_log_surface_def
    by (auto simp: io_bind_Inr io_check_Inr io_lift_Inr unhashable_def)
  obtain raw' events' where l: "logged = [(events', evidence_of ''runtime_event'' ''runtime/events.jsonl'' raw')]"
    and "read_file s (dir @ [''runtime'', ''events.jsonl'']) = Some raw'" "jsonl raw' = Inr events'"
    by (rule event_log_Inr [OF assms(1) \<open>logged \<noteq> []\<close>])
  with raw events(1) have "events' = events" by simp
  with l have "(events, evidence_of ''runtime_event'' ''runtime/events.jsonl'' raw') \<in> set logged" by simp
  from that [OF this events(2,3)] show ?thesis .
qed

text \<open>
  C10: an audit that lets a trial pass has seen the evidence and found it harmless. When the audit of
  a trial with a marker is available and none of its findings blocks the submission, no tool call of
  the trajectory or of the event log that the marker binds reached a protected target: a call that
  matches the policy was neither dispatched nor answered with bytes.
\<close>

theorem admitted_audit_reached_nothing:
  assumes "audit_protected_trial other po digest trial rewarded s = (Inr doc, t)"
    and "dict_get doc ''state'' = PStr ''available''"
    and "dict_get doc ''findings'' = PList rows" and "\<forall>row \<in> set rows. \<not> target_finding_blocks row"
    and "read_file s (trial @ [''agent'', ''agent-run.json'']) = Some m" and "decode_json m = Inr (PDict d)"
    and "trajectory_shows (trial @ [''agent'']) s d c \<or> event_log_shows (trial @ [''agent'']) s d c"
  shows "match_protected_target other po (sc_tool_name c) (sc_arguments c) = None
    \<or> \<not> sc_dispatched c \<and> \<not> sc_bytes_returned c"
proof -
  let ?dir = "trial @ [''agent'']"
  obtain fs where doc: "doc = target_audit_document digest rewarded (''available'', fs)"
    and run: "audit_surfaces other po ?dir s = (Inr (''available'', fs), t)"
    using audit_rows [OF assms(1)] assms(2) by (auto simp: document_get)
  have "\<not> some_strong fs"
  proof
    assume "some_strong fs"
    then obtain f where "f \<in> set fs" "finding_strong f" by (auto simp: some_strong_def)
    moreover from this(1) have "PDict (finding_row rewarded f) \<in> set rows"
      using assms(3) by (auto simp: doc document_get)
    ultimately show False using assms(4) strong_row_blocks by blast
  qed
  from available_audit_is_weak [OF run this] obtain marker u trajectory u' logged v
    where marker: "marker_dict ?dir s = (Inr marker, u)"
      and trajectory: "shown_trajectory ?dir marker u = (Inr trajectory, u')"
      and logged: "event_log_surface ?dir marker u' = (Inr logged, v)"
      and weak: "\<And>calls source c. trajectory = Some (calls, source) \<Longrightarrow> c \<in> set calls \<Longrightarrow> \<not> reached other po c"
        "\<And>events source calls c. (events, source) \<in> set logged \<Longrightarrow> event_calls events = Inr calls \<Longrightarrow> c \<in> set calls
           \<Longrightarrow> \<not> reached other po c" by blast
  have m: "marker = Some d" by (rule marker_dict_Inr [OF marker]) (use assms(5,6) in simp_all)
  note files = read_state(1) [OF reads_marker_dict marker] read_state(1) [OF reads_shown_trajectory trajectory]
  have "\<not> reached other po c" using assms(7)
  proof
    assume "trajectory_shows ?dir s d c"
    then have "trajectory_shows ?dir u d c" by (simp add: trajectory_shows_def files)
    from shown_trajectory_bound [OF trajectory [unfolded m] this] obtain calls source where "trajectory = Some (calls, source)" "c \<in> set calls" .
    then show ?thesis by (rule weak(1))
  next
    assume "event_log_shows ?dir s d c"
    then have "event_log_shows ?dir u' d c" by (simp add: event_log_shows_def files)
    from event_log_bound [OF logged [unfolded m] this] obtain events source calls
      where "(events, source) \<in> set logged" "event_calls events = Inr calls" "c \<in> set calls" .
    then show ?thesis by (rule weak(2))
  qed
  then show ?thesis by (simp add: reached_def)
qed

section \<open>A trial that passes\<close>

interpretation protected_reader: json_reader protected_hooks
  by unfold_locales (auto simp: protected_hooks_def unique_object_def protected_error_def)

lemma decode_canonical:
  assumes "canonical_json v = Inr b" and "wf_val v" and "sort_keys v = v"
  shows "decode_json b = Inr v"
  using protected_reader.loads_canonical [OF assms(1,2)] by (simp add: decode_json_def catch_def assms(3))

definition policy_document :: pyval where
  "policy_document = PDict
     [(''fatal_code'', PStr blocked_code),
      (''filesystem_path_fields'', PDict
        [(''grep'', PList [PStr ''path'']), (''list_dir'', PList [PStr ''target_directory'']),
         (''read_file'', PList [PStr ''target_file'']), (''search_replace'', PList [PStr ''file_path'']),
         (''write'', PList [PStr ''file_path''])]),
      (''official_benchmark_repository_slugs'',
        PList [PStr ''harbor-framework/terminal-bench'', PStr ''laude-institute/terminal-bench'']),
      (''protected_path_families'', PList [PStr ''/logs'']), (''schema_version'', PStr policy_schema),
      (''terminal_command_fields'', PDict [(''run_terminal_command'', PList [PStr ''command''])]),
      (''workspace_root'', PStr workspace_root)]"

lemma repository_policy_loads:
  obtains raw where "load_policy id raw = Inr repository_policy"
proof -
  have wf: "wf_val policy_document" "sort_keys policy_document = policy_document"
    "dumpable policy_document" "strs_ok policy_document" by code_simp+
  then obtain b where b: "canonical_json policy_document = Inr b" using canonical_json_defined by blast
  have "decode_json b = Inr policy_document" by (rule decode_canonical [OF b wf(1,2)])
  moreover have "policy_of_value id policy_document = Inr repository_policy" by code_simp
  ultimately show ?thesis using that [of b] by (simp add: load_policy_def)
qed

definition attempt_trajectory :: pyval where
  "attempt_trajectory = PDict [(''steps'', PList [PDict [(''tool_calls'', PList [PDict
     [(''arguments'', PDict [(''target_file'', PStr ''/logs/x'')]), (''function_name'', PStr ''read_file''),
      (''tool_call_id'', PStr ''c'')]])]])]"

definition attempt_call :: shown_call where
  "attempt_call =
     \<lparr>sc_call_id = ''c'', sc_tool_name = PStr ''read_file'', sc_arguments = PDict [(''target_file'', PStr ''/logs/x'')],
      sc_dispatched = False, sc_bytes_returned = False, sc_access_blocked = False\<rparr>"

lemma sample_atif: "atif_calls attempt_trajectory = Inr [attempt_call]"
  by code_simp

lemma sample_match: "match_protected_target id repository_policy (PStr ''read_file'') (PDict [(''target_file'', PStr ''/logs/x'')])
    = Some (protected_path ''target_file'' ''/logs'')"
  by code_simp

definition sample_finding :: "bytes \<Rightarrow> target_finding" where
  "sample_finding raw = (fresh_finding ''c'' ''read_file'' (protected_path ''target_file'' ''/logs''))
     \<lparr>fi_sources := [evidence_of ''atif'' ''t.json'' raw]\<rparr>"

definition sample_marker :: "bytes \<Rightarrow> pydict" where
  "sample_marker raw = [(''trajectory_path'', PStr ''t.json''), (''trajectory_sha256'', PStr (sha256_hex raw))]"

definition attempt_trial :: "bytes \<Rightarrow> bytes \<Rightarrow> fsys" where
  "attempt_trial m raw =
     \<lparr>entries = [([], Dir 448), ([''agent''], Dir 448), ([''agent'', ''agent-run.json''], File 0), ([''agent'', ''t.json''], File 1)],
      contents = (\<lambda>i. if i = 0 then m else raw), next_inode = 2, faults = []\<rparr>"

lemma probe_quiet: "faults s = [] \<Longrightarrow> P s \<Longrightarrow> fs_probe P s = (Inr (), s)"
  by (simp add: fs_probe_def syscall_quiet)

lemma safe_quiet:
  assumes "faults s = []" and "present s dir" and "read_file s (dir @ path_parts r) = Some raw"
    and "r \<noteq> [] \<and> CHR 0x00 \<notin> set r \<and> \<not> path_is_absolute r \<and> list_all (\<lambda>part. part \<notin> {[], ''.'', ''..''}) (path_parts r)"
  shows "safe_agent_path dir (PStr r) s = (Inr (path_parts r), s)"
  using assms read_present [OF assms(3)]
  by (simp add: safe_agent_path_def io_except_def io_seq_run io_guard_def probe_quiet)

lemma read_quiet:
  "faults s = [] \<Longrightarrow> read_file s p = Some raw \<Longrightarrow> length raw \<le> surface_max_bytes \<Longrightarrow> read_evidence p s = (Inr raw, s)"
  by (simp add: read_evidence_def io_except_def io_seq_run io_bind_def probe_quiet read_present)

lemma sample_files:
  "read_file (attempt_trial m raw) ([''agent''] @ [''agent-run.json'']) = Some m"
  "read_file (attempt_trial m raw) ([''agent''] @ [''t.json'']) = Some raw"
  "read_file (attempt_trial m raw) ([''agent''] @ [''runtime'', ''events.jsonl'']) = None"
  "present (attempt_trial m raw) [''agent'']" "is_dir (attempt_trial m raw) [''agent'']" "faults (attempt_trial m raw) = []"
  by (simp_all add: attempt_trial_def read_file_def present_def is_dir_def lookup_def)

lemma sample_parts:
  "path_parts ''agent-run.json'' = [''agent-run.json'']" "path_parts ''t.json'' = [''t.json'']"
  "\<not> path_is_absolute ''agent-run.json''" "\<not> path_is_absolute ''t.json''"
  by code_simp+

lemma attempt_audit:
  assumes "decode_json m = Inr (PDict (sample_marker raw))" and "decode_json raw = Inr attempt_trajectory"
    and "length m \<le> surface_max_bytes" "length raw \<le> surface_max_bytes"
  shows "audit_surfaces id repository_policy [''agent''] (attempt_trial m raw) =
    (Inr (''available'', [sample_finding raw]), attempt_trial m raw)"
proof -
  let ?s = "attempt_trial m raw"
  have safe: "safe_agent_path [''agent''] (PStr ''agent-run.json'') ?s = (Inr [''agent-run.json''], ?s)"
    "safe_agent_path [''agent''] (PStr ''t.json'') ?s = (Inr [''t.json''], ?s)"
    using safe_quiet [of ?s "[''agent'']" "''agent-run.json''" m] safe_quiet [of ?s "[''agent'']" "''t.json''" raw]
    by (simp_all add: sample_parts sample_files [simplified])
  have evidence: "read_evidence ([''agent''] @ [''agent-run.json'']) ?s = (Inr m, ?s)"
    "read_evidence ([''agent''] @ [''t.json'']) ?s = (Inr raw, ?s)"
    using assms(3,4) by (auto intro!: read_quiet simp: sample_files [simplified])
  have marker: "marker_dict [''agent''] ?s = (Inr (Some (sample_marker raw)), ?s)"
    using safe(1) evidence(1) assms(1) read_present [OF sample_files(1) [of m raw]]
    by (simp add: marker_dict_def io_bind_def io_lift_def as_dict_def)
  have "bound_file [''agent''] (sample_marker raw) ''trajectory_path'' ''trajectory_sha256'' ''trajectory_binding_invalid'' ?s
      = (Inr ([''t.json''], raw), ?s)"
    using safe(2) evidence(2) by (simp add: bound_file_def sample_marker_def dict_get_def io_bind_def)
  moreover have "''trajectory_path'' \<in> set (dict_keys (sample_marker raw))" by (simp add: sample_marker_def dict_keys_def)
  ultimately have "trajectory_surface [''agent''] (Some (sample_marker raw)) ?s =
      (Inr (Some (attempt_trajectory, evidence_of ''atif'' ''t.json'' raw)), ?s)"
    using assms(2) by (simp add: trajectory_surface_def io_bind_def io_lift_def)
  then have trajectory: "shown_trajectory [''agent''] (Some (sample_marker raw)) ?s =
      (Inr (Some ([attempt_call], evidence_of ''atif'' ''t.json'' raw)), ?s)"
    by (simp add: shown_trajectory_def io_bind_def io_lift_def sample_atif)
  have none: "event_log_surface [''agent''] (Some (sample_marker raw)) ?s = (Inr [], ?s)"
    "diagnostic_surface [''agent''] (Some (sample_marker raw)) ?s = (Inr None, ?s)"
    by (auto simp: event_log_surface_def diagnostic_surface_def marker_text_def sample_marker_def dict_get_def unhashable_def)
  have found: "trajectory_findings id repository_policy (Some ([attempt_call], evidence_of ''atif'' ''t.json'' raw)) = [sample_finding raw]"
    using sample_match
    by (simp add: trajectory_findings_def merge_calls_def merge_call_def attempt_call_def sample_finding_def absorb_def fresh_finding_def)
  have "apply_terminal_code (Some (sample_marker raw)) fs = fs" for fs
    by (simp add: apply_terminal_code_def marker_text_def sample_marker_def dict_get_def)
  then show ?thesis
    by (simp add: audit_surfaces_alt io_or_stop_def marker trajectory none found shown_surfaces_def diagnostic_calls_def)
qed

lemma sample_evidence:
  obtains m raw where "decode_json m = Inr (PDict (sample_marker raw))" "decode_json raw = Inr attempt_trajectory"
    "length m \<le> surface_max_bytes" "length raw \<le> surface_max_bytes"
proof -
  have t: "wf_val attempt_trajectory" "sort_keys attempt_trajectory = attempt_trajectory" "dumpable attempt_trajectory"
    "strs_ok attempt_trajectory" by code_simp+
  then obtain raw where raw: "canonical_json attempt_trajectory = Inr raw" using canonical_json_defined by blast
  have h: "is_sha256_hex (sha256_hex raw)" by simp
  have m: "wf_val (PDict (sample_marker raw))" "sort_keys (PDict (sample_marker raw)) = PDict (sample_marker raw)"
    "dumpable (PDict (sample_marker raw))" "strs_ok (PDict (sample_marker raw))"
    using sha256_hex_valid_utf8 [OF h] by (simp_all add: sample_marker_def sort_dict_def ord_of_def) 
  then obtain b where b: "canonical_json (PDict (sample_marker raw)) = Inr b" using canonical_json_defined by blast
  have "length (sha256_hex raw) = 64" "list_all (\<lambda>c. 35 \<le> ord_of c \<and> ord_of c \<noteq> 92) (sha256_hex raw)"
    using h by (auto simp: is_sha256_hex_def is_lower_hex_def is_digit_def list_all_iff)
  then have "esc_len (sha256_hex raw) = 64" by (simp add: esc_len_plain)
  then have "dump_bound (PDict (sample_marker raw)) \<le> 1000" "dump_bound attempt_trajectory \<le> 1000"
    by (simp_all add: sample_marker_def attempt_trajectory_def json_escape_def ord_of_def)
  with length_canonical [OF raw] length_canonical [OF b]
  show ?thesis using that [OF decode_canonical [OF b m(1,2)] decode_canonical [OF raw t(1,2)]]
    by (simp add: surface_max_bytes_def)
qed

theorem audit_blocks_what_was_reached_witness:
  "\<exists>row. dict_get row ''classification'' = PStr ''attempted'' \<and> \<not> target_finding_blocks (PDict row)"
proof -
  obtain policy_raw where p: "load_policy id policy_raw = Inr repository_policy" by (rule repository_policy_loads)
  obtain m raw where e: "decode_json m = Inr (PDict (sample_marker raw))" "decode_json raw = Inr attempt_trajectory"
    "length m \<le> surface_max_bytes" "length raw \<le> surface_max_bytes" by (rule sample_evidence)
  let ?s = "attempt_trial m raw" and ?f = "sample_finding raw"
  let ?doc = "target_audit_document (sha256_hex policy_raw) False (''available'', [?f])"
  have "audit_protected_trial id repository_policy (sha256_hex policy_raw) [] False ?s = (Inr ?doc, ?s)"
    using attempt_audit [OF e] by (simp add: audit_protected_trial_def Let_def io_bind_def sample_files)
  from audit_blocks_what_was_reached [OF p this, of "[PDict (finding_row False ?f)]" "finding_row False ?f"]
  have "\<not> target_finding_blocks (PDict (finding_row False ?f))"
    by (simp add: document_get row_get sample_finding_def fresh_finding_def)
  moreover have "dict_get (finding_row False ?f) ''classification'' = PStr ''attempted''"
    by (simp add: row_get classification_def finding_strong_def finding_blocked_def sample_finding_def fresh_finding_def)
  ultimately show ?thesis by blast
qed

theorem admitted_audit_reached_nothing_witness:
  "\<exists>m raw. trajectory_shows [''agent''] (attempt_trial m raw) (sample_marker raw) attempt_call
     \<and> \<not> sc_dispatched attempt_call \<and> \<not> sc_bytes_returned attempt_call"
proof -
  obtain m raw where e: "decode_json m = Inr (PDict (sample_marker raw))" "decode_json raw = Inr attempt_trajectory"
    "length m \<le> surface_max_bytes" "length raw \<le> surface_max_bytes" by (rule sample_evidence)
  let ?s = "attempt_trial m raw" and ?f = "sample_finding raw"
  let ?doc = "target_audit_document [] False (''available'', [?f])"
  have run: "audit_protected_trial id repository_policy [] [] False ?s = (Inr ?doc, ?s)"
    using attempt_audit [OF e] by (simp add: audit_protected_trial_def Let_def io_bind_def sample_files)
  have "finding_fine ?f"
    using source_fine_evidence
    by (simp add: finding_fine_def match_fine_def sample_finding_def fresh_finding_def protected_path_def)
  then have weak: "\<not> target_finding_blocks (PDict (finding_row False ?f))"
    by (simp add: row_blocks_iff finding_strong_def sample_finding_def fresh_finding_def)
  have shown: "trajectory_shows [''agent''] ?s (sample_marker raw) attempt_call"
    using e(2) sample_files(2) [of m raw]
    by (auto simp: trajectory_shows_def sample_marker_def dict_keys_def dict_get_def sample_parts sample_atif)
  have "match_protected_target id repository_policy (sc_tool_name attempt_call) (sc_arguments attempt_call) = None
      \<or> \<not> sc_dispatched attempt_call \<and> \<not> sc_bytes_returned attempt_call"
    by (rule admitted_audit_reached_nothing [OF run, of "[PDict (finding_row False ?f)]" m "sample_marker raw"])
      (use weak shown e(1) sample_files(1) in \<open>simp_all add: document_get\<close>)
  with shown sample_match show ?thesis by (auto simp: attempt_call_def)
qed

end
