(* ===== verification/Protected_Target_Reports.thy ===== *)
theory Protected_Target_Reports
  imports Protected_Target_Correct
begin

text \<open>
  Which exceptions the parts of the audit of protected targets can raise, and that the audit turns
  all of them into a document. The rules for \<open>io_raises\<close> follow those for \<open>raises_only\<close>.
\<close>

section \<open>The audit always ends with a document\<close>

definition io_raises :: "(py_error \<Rightarrow> bool) \<Rightarrow> 'a io \<Rightarrow> bool" where
  "io_raises P m \<longleftrightarrow> (\<forall>s. raises_only P (fst (m s)))"

named_theorems io_raises_intros

lemma io_raises_return [io_raises_intros]: "io_raises P (io_return x)"
  by (simp add: io_raises_def raises_only_def)

lemma io_raises_raise [io_raises_intros]: "P e \<Longrightarrow> io_raises P (io_raise e)"
  by (simp add: io_raises_def raises_only_def io_raise_def)

lemma io_raises_lift [io_raises_intros]: "raises_only P r \<Longrightarrow> io_raises P (io_lift r)"
  by (simp add: io_raises_def io_lift_def)

lemma io_raises_bind [io_raises_intros]:
  "io_raises P m \<Longrightarrow> (\<And>x. io_raises P (f x)) \<Longrightarrow> io_raises P (io_bind m f)"
  unfolding io_raises_def raises_only_def io_bind_def
  by (auto split: prod.splits sum.splits) (metis fst_conv)+

lemma io_raises_seq [io_raises_intros]: "io_raises P m \<Longrightarrow> io_raises P k \<Longrightarrow> io_raises P (io_seq m k)"
  unfolding io_seq_def by (rule io_raises_bind)

lemma io_raises_check [io_raises_intros]: "P e \<Longrightarrow> io_raises P k \<Longrightarrow> io_raises P (io_check c e k)"
  by (simp add: io_check_def io_raises_raise)

lemma io_raises_guard [io_raises_intros]: "P e \<Longrightarrow> io_raises P k \<Longrightarrow> io_raises P (io_guard c e k)"
  by (simp add: io_raises_def raises_only_def io_guard_def)

lemma io_raises_probe [io_raises_intros]: "P OSError \<Longrightarrow> io_raises P (fs_probe c)"
  by (auto simp: io_raises_def raises_only_def fs_probe_def syscall_def Let_def split: list.splits bool.splits)

lemma io_raises_except [io_raises_intros]:
  assumes "io_raises (\<lambda>e. Q e \<or> P e) m" and "P e"
  shows "io_raises P (io_except Q m e)"
  unfolding io_raises_def raises_only_def
proof (intro allI impI)
  fix s d
  assume d: "fst (io_except Q m e s) = Inl d"
  show "P d"
  proof (cases "fst (m s)")
    case (Inl e')
    with d have "d = (if Q e' then e else e')" by (cases "m s") (simp add: io_except_def)
    moreover have "Q e' \<or> P e'" using assms(1) Inl by (simp add: io_raises_def raises_only_def)
    ultimately show ?thesis using assms(2) by auto
  next
    case (Inr x)
    with d show ?thesis by (cases "m s") (simp add: io_except_def)
  qed
qed

lemma io_raises_if [io_raises_intros]: "io_raises P a \<Longrightarrow> io_raises P b \<Longrightarrow> io_raises P (\<lambda>s. if c s then a s else b s)"
  by (simp add: io_raises_def)

definition audit_error :: "py_error \<Rightarrow> bool" where
  "audit_error e \<longleftrightarrow> audit_caught e \<or> e = Outside_model"

lemma audit_error_simps [simp]: "audit_error (ProtectedTargetError c)" "audit_error (protected_error c)" "audit_error TypeError"
    "audit_error Outside_model" "audit_error UnicodeEncodeError" "audit_error trajectory_invalid" "audit_error events_invalid"
    "audit_error evidence_path_error"
  by (simp_all add: audit_error_def audit_caught_def protected_error_def trajectory_invalid_def events_invalid_def evidence_path_error_def)

lemma decode_json_raises [raises_only_intros]: "(\<And>e. audit_error e \<Longrightarrow> P e) \<Longrightarrow> raises_only P (decode_json raw)"
proof -
  assume P: "\<And>e. audit_error e \<Longrightarrow> P e"
  have "raises_only audit_error (json_loads protected_hooks s)" for s
    by (rule protected_reader.json_loads_raises)
      (auto simp: protected_hooks_def unique_object_def raises_only_def json_error_def audit_error_def audit_caught_def
         protected_error_def split: if_splits)
  then have "raises_only audit_error (json_loads_bytes protected_hooks raw)"
    by (auto simp: json_loads_bytes_def raises_only_def audit_error_def audit_caught_def)
  then show ?thesis using P
    by (auto simp: decode_json_def catch_def raises_only_def split: sum.splits if_splits)
qed

lemma as_raises [raises_only_intros]: "P e \<Longrightarrow> raises_only P (as_list e v)" "P e \<Longrightarrow> raises_only P (as_dict e v)"
  by (auto simp: as_list_def as_dict_def raises_only_def split: pyval.splits)

lemma case_str_raises [raises_only_intros]:
  "(\<And>x. raises_only P (f x)) \<Longrightarrow> P e \<Longrightarrow> raises_only P (case v of PStr x \<Rightarrow> f x | _ \<Rightarrow> Inl e)"
  "(\<And>x. raises_only P (g x)) \<Longrightarrow> raises_only P k \<Longrightarrow> raises_only P (case v of PDict x \<Rightarrow> g x | _ \<Rightarrow> k)"
  by (cases v; simp add: raises_only_def)+

lemma optional_list_raises [raises_only_intros]: "raises_only audit_error (optional_list v)"
  unfolding optional_list_def by (intro raises_only_intros) simp

lemma step_observations_raises [raises_only_intros]: "raises_only audit_error (step_observations d)"
  unfolding step_observations_def by (intro raises_only_intros) simp_all

lemma atif_calls_raises: "raises_only audit_error (atif_calls v)"
  unfolding atif_calls_def step_calls_def partial_call_def trajectory_call_def
  by (intro raises_only_intros) simp_all

lemma register_shown_raises [raises_only_intros]: "raises_only audit_error (register_shown cs data)"
  unfolding register_shown_def by (intro raises_only_intros) simp_all

lemma settle_shown_raises [raises_only_intros]: "raises_only audit_error (settle_shown ty data)"
  unfolding settle_shown_def Let_def by (intro raises_only_intros) simp_all

lemma case_find_raises [raises_only_intros]:
  "P e \<Longrightarrow> (\<And>x. raises_only P (f x)) \<Longrightarrow> raises_only P (case m of None \<Rightarrow> Inl e | Some x \<Rightarrow> f x)"
  by (cases m) (simp_all add: raises_only_def)

lemma case_pair_raises [raises_only_intros]:
  "(\<And>x d. raises_only P (f x d)) \<Longrightarrow> P e \<Longrightarrow>
     raises_only P (case (v, w) of (PStr x, PDict d) \<Rightarrow> f x d | _ \<Rightarrow> Inl e)"
  by (cases v; cases w; simp add: raises_only_def)

lemma event_calls_raises: "raises_only audit_error (event_calls es)"
  unfolding event_calls_def event_call_def by (intro raises_only_intros) simp_all

lemma jsonl_raises [raises_only_intros]: "raises_only audit_error (jsonl raw)"
  unfolding jsonl_def by (intro raises_only_intros) simp_all

lemma diagnostic_events_raises [raises_only_intros]: "raises_only audit_error (diagnostic_events parts raw)"
  unfolding diagnostic_events_def by (intro raises_only_intros) simp_all

lemma safe_agent_path_raises [io_raises_intros]: "io_raises audit_error (safe_agent_path dir v)"
proof (cases v)
  case (PStr r)
  show ?thesis unfolding safe_agent_path_def PStr pyval.case by (intro io_raises_intros) simp_all
qed (simp_all add: safe_agent_path_def io_raises_raise)

lemma read_evidence_raises [io_raises_intros]: "io_raises audit_error (read_evidence p)"
proof -
  have read: "io_raises P (\<lambda>s. (Inr (read_file s p), s))" for P
    by (simp add: io_raises_def raises_only_def)
  have found: "io_raises (\<lambda>e. e = OSError \<or> audit_error e) (case found of
      None \<Rightarrow> io_raise (protected_error ''evidence_file_invalid'')
    | Some raw \<Rightarrow> io_check (length raw \<le> surface_max_bytes) (protected_error ''evidence_file_invalid'')
        (io_seq (fs_probe (\<lambda>s. True)) (io_return raw)))" for found
    by (cases found; simp only: option.case; intro io_raises_intros; simp)
  show ?thesis unfolding read_evidence_def by (intro io_raises_intros read found) simp_all
qed

lemma bound_file_raises [io_raises_intros]: "io_raises audit_error (bound_file dir d f g c)"
  unfolding bound_file_def by (intro io_raises_intros) simp_all

lemma marker_dict_raises: "io_raises audit_error (marker_dict dir)"
proof -
  have "io_raises audit_error (io_bind (safe_agent_path dir (PStr ''agent-run.json'')) (\<lambda>parts.
        io_bind (read_evidence (dir @ parts)) (\<lambda>raw. io_bind (io_lift (decode_json raw)) (\<lambda>v.
        io_bind (io_lift (as_dict (protected_error ''marker_invalid'') v)) (\<lambda>d. io_return (Some d))))))"
    by (intro io_raises_intros raises_only_intros) simp_all
  then show ?thesis by (auto simp: io_raises_def marker_dict_def raises_only_def)
qed

lemma unbound_trajectory_raises [io_raises_intros]: "io_raises audit_error (unbound_trajectory dir)"
proof -
  have "io_raises audit_error (io_bind (safe_agent_path dir (PStr n)) (\<lambda>parts. io_bind (read_evidence (dir @ parts)) (\<lambda>raw.
          io_bind (io_lift (decode_json raw)) (\<lambda>v. io_return (Some (v, evidence_of ''atif'' n raw))))))" for n
    by (intro io_raises_intros raises_only_intros) simp_all
  then show ?thesis by (auto simp: io_raises_def unbound_trajectory_def raises_only_def split: option.splits)
qed

lemma io_raises_option [io_raises_intros]:
  "io_raises P a \<Longrightarrow> (\<And>x. io_raises P (f x)) \<Longrightarrow> io_raises P (case m of None \<Rightarrow> a | Some x \<Rightarrow> f x)"
  "(\<And>x y. io_raises P (g x y)) \<Longrightarrow> io_raises P (case p of (x, y) \<Rightarrow> g x y)"
  "io_raises P b \<Longrightarrow> io_raises P d \<Longrightarrow> io_raises P (if c then b else d)"
  by (cases m; cases p; cases c; simp)+

lemma shown_trajectory_raises: "io_raises audit_error (shown_trajectory dir marker)"
  unfolding shown_trajectory_def trajectory_surface_def
  by (intro io_raises_intros raises_only_intros atif_calls_raises) simp_all

lemma event_log_raises: "io_raises audit_error (event_log_surface dir marker)"
proof -
  have "io_raises audit_error (io_bind (safe_agent_path dir (PStr ''runtime/events.jsonl'')) (\<lambda>parts.
        io_bind (read_evidence (dir @ parts)) (\<lambda>raw. io_check (c raw) (protected_error ''event_binding_invalid'')
            (io_bind (io_lift (jsonl raw)) (\<lambda>events.
               io_return [(events, evidence_of ''runtime_event'' ''runtime/events.jsonl'' raw)])))))" for c
    by (intro io_raises_intros raises_only_intros) simp_all
  then show ?thesis by (simp add: io_raises_def event_log_surface_def raises_only_def)
qed

lemma diagnostic_raises: "io_raises audit_error (diagnostic_surface dir marker)"
  unfolding diagnostic_surface_def by (intro io_raises_intros raises_only_intros) simp_all

lemma audit_stopped_raises: "audit_error e \<Longrightarrow> io_raises (\<lambda>e. e = Outside_model) (audit_stopped e fs)"
  by (auto simp: io_raises_def raises_only_def audit_stopped_def audit_error_def)

lemma io_or_stop_raises:
  assumes "io_raises audit_error m" and "\<And>x. io_raises (\<lambda>e. e = Outside_model) (k x)"
  shows "io_raises (\<lambda>e. e = Outside_model) (io_or_stop fs m k)"
  unfolding io_raises_def
proof
  fix s
  show "raises_only (\<lambda>e. e = Outside_model) (fst (io_or_stop fs m k s))"
  proof (cases "m s")
    case (Pair r t)
    have "audit_error e" if "r = Inl e" for e
      using assms(1) that Pair by (auto simp: io_raises_def raises_only_def dest: spec [of _ s])
    then show ?thesis
      using assms(2) audit_stopped_raises Pair by (cases r) (auto simp: io_or_stop_def io_raises_def)
  qed
qed

lemma merge_surfaces_raises: "merge_surfaces other po fs surfaces = (fs', Some e) \<Longrightarrow> audit_error e"
proof (induction surfaces arbitrary: fs)
  case (Cons surface rest)
  then show ?case using event_calls_raises [of "fst surface"]
    by (auto simp: raises_only_def split: sum.splits)
qed simp

lemma shown_surfaces_raises: "io_raises (\<lambda>e. e = Outside_model) (shown_surfaces other po marker fs state surfaces)"
  unfolding shown_surfaces_def
  by (cases "merge_surfaces other po fs surfaces"; cases "snd (merge_surfaces other po fs surfaces)")
    (auto intro: io_raises_return audit_stopped_raises merge_surfaces_raises)

lemma audit_surfaces_raises: "io_raises (\<lambda>e. e = Outside_model) (audit_surfaces other po dir)"
  unfolding audit_surfaces_alt
  by (intro io_or_stop_raises marker_dict_raises shown_trajectory_raises event_log_raises diagnostic_raises
      shown_surfaces_raises)

lemma reads_or_stop:
  assumes "io_keeps only_reads m" and "\<And>x. io_keeps only_reads (k x)"
  shows "io_keeps only_reads (io_or_stop fs m k)"
proof (rule io_keepsI)
  fix s r t
  assume run: "io_or_stop fs m k s = (r, t)"
  obtain q u where m: "m s = (q, u)" by (cases "m s")
  have "only_reads s u" using io_keepsD [OF assms(1) m] .
  moreover have "only_reads u t"
  proof (cases q)
    case (Inl e)
    then have "u = t" using run m by (auto simp: io_or_stop_def audit_stopped_def split: if_splits)
    then show ?thesis using reading.refl by simp
  next
    case (Inr x)
    then have "k x u = (r, t)" using run m by (simp add: io_or_stop_def)
    then show ?thesis using assms(2) io_keepsD by blast
  qed
  ultimately show "only_reads s t" by (rule reading.trans)
qed

lemma reads_shown_surfaces: "io_keeps only_reads (shown_surfaces other po marker fs state surfaces)"
proof (rule io_keepsI)
  fix s r t
  assume "shown_surfaces other po marker fs state surfaces s = (r, t)"
  then have "t = s" by (auto simp: shown_surfaces_def audit_stopped_def split: prod.splits option.splits if_splits)
  then show "only_reads s t" using reading.refl by simp
qed

lemma reads_audit_surfaces: "io_keeps only_reads (audit_surfaces other po dir)"
  unfolding audit_surfaces_alt
  by (intro reads_or_stop reads_marker_dict reads_shown_trajectory reads_event_log_surface reads_diagnostic_surface
      reads_shown_surfaces)


end
