(* ===== verification/Spec2Isabelle.thy ===== *)
theory Spec2Isabelle
  imports Bridge_Loop Publication Atif_Correct Git_Audit_Correct Runtime_Entry Protected_Target_Reports
begin

text \<open>
  Surf Harness runs an agent against a benchmark task. A host runtime (Rust) talks to the model and
  asks for tools; the Python adapter serves these requests inside the sandbox, under a wall-clock
  budget it shares with the benchmark framework (Harbor), and publishes the evidence of the run;
  the Harbor package decides whether a run may start, whether its evidence is admissible, and what
  it shows. This development models the parts of the Python packages
  \<open>src/src/nano_grok_build/adapter\<close> and \<open>harbor\<close> (paths below are relative to \<open>nano_grok_build\<close>)
  on which the trust in a result rests, and proves what they promise.

  How the parts interact. The integration mints a \<open>deadline\<close> and binds it into a receipt. The bridge
  starts the runtime and answers its requests one by one: it parses a request, compares a live one
  with the receipt, lets the tool handler run until the cutoff, checks what the handler returned
  (with the terminal actor's receipt), and sends one response. Afterwards the event log is
  projected into a trajectory, and the control plane publishes it, the marker last. Before the run
  the Git history of the workspace is isolated unless the instruction calls for it; after the run
  the audit reads the published trajectory for uses of history, and another one the trajectory, the
  event log and the diagnostic for attempts on the benchmark's own material. Right before the
  irreversible launch the harness records that it starts, or that it could not.

  Theories, from the bottom up.

  \<^item> \<open>Prelude\<close>: exceptions as values (\<open>py_error\<close>), results (\<open>py_error + 'a\<close>), their sequencing
    (\<open>rbind\<close>, \<open>ensure\<close>, \<open>rfold\<close>), the shared facts, and the locale \<open>event_loop\<close> for loops that stop.
  \<^item> \<open>Py_Value\<close>: Python values, equality, dictionaries, UTF-8, \<open>PurePosixPath\<close>.
  \<^item> \<open>Json\<close>, \<open>Json_Correct\<close>: \<open>json.loads\<close> with its hooks and \<open>json.dumps\<close>. The scanner takes fuel;
    \<open>json_fuel\<close> gives twice the length of the input plus two, and \<open>json_loads_fuel\<close> shows that it is
    never used up. Locale \<open>json_reader\<close>: every reader of the program reads back what was written.
    Locale \<open>record_codec\<close>: a record with a strict decoder survives encoding. \<open>Json_Ascii\<close> is the same
    for documents written with \<open>\u\<close> escapes.
  \<^item> \<open>Sha256\<close>: the digest, executable, and the shape of its hexadecimal form.
  \<^item> \<open>Regex\<close>: the patterns of \<open>re\<close> as trees, the backtracking matcher \<open>ends\<close> with its order of
    alternatives, and \<open>ends_matches\<close>: it finds exactly the language \<open>matches\<close>. An unbounded repeat
    recurs on the length of the rest of the text.
  \<^item> \<open>File_System\<close>: directories, files, hard links and symbolic links, with system calls that may
    fail. Which calls fail is part of the state, so a statement about every state covers every
    interruption. Locale \<open>io_relation\<close>: a reflexive and transitive relation that every call keeps
    is kept by every program.
  \<^item> \<open>Deadline\<close> (\<open>adapter/deadline.py\<close>, \<open>harbor/deadline.py\<close>): reserves, deadlines, the six cutoffs,
    the receipt and its canonical bytes. The cutoffs are consecutive windows as long as their
    reserves; the bytes of a receipt read back as it; accepted bytes denote a receipt that
    binding produces.
  \<^item> \<open>Bridge_Request\<close>, \<open>Actor_Receipt\<close>, \<open>Bridge_Response\<close>, \<open>Bridge_Loop\<close> (\<open>adapter/stdio_bridge.py\<close>):
    requests and their settlement stages; the receipts of the terminal actor and the table that
    says which are admissible; response frames and their size envelope; the exchange, one
    iteration at a time, and its history. A run that ends well has answered every call; nothing
    follows a fatal response; responses fit their line limit and read back as what was sent.
  \<^item> \<open>Atif\<close>, \<open>Atif_Correct\<close> (\<open>adapter/atif.py\<close>): the projections of the event log of a successful and
    of a failed run, the validator, and the token counts. A successful projection is complete, a
    failed run's projection says exactly what the log says and passes the validator.
  \<^item> \<open>Control_Plane\<close>, \<open>Publication\<close> (\<open>adapter/control_plane.py\<close>, \<open>adapter/artifact_limits.py\<close>):
    creation, publication and cleanup. A marker that appears stands over complete evidence,
    whichever calls fail; publishing touches nothing else; it succeeds when no call fails.
  \<^item> \<open>Git_Capability\<close>, \<open>Git_Receipt\<close>, \<open>Git_Audit\<close>, \<open>Git_Audit_Correct\<close> (\<open>harbor/git_history_capability.py\<close>,
    \<open>_receipt.py\<close>, \<open>_isolation.py\<close>, \<open>_audit.py\<close>): the grant of history access from the instruction, the
    receipt of the isolation and its admission, and the audit of the evidence. A grant rests on
    words of the instruction; without one, an admitted run has no reachable history; a verdict that
    does not block means that no call returned output from history.
  \<^item> \<open>Runtime_Entry\<close> (\<open>harbor/runtime_entry.py\<close>, and \<open>canonical_json\<close> and \<open>rust_run_spec_sha256\<close> of
    \<open>adapter/artifactizer.py\<close>): the record of a launch, created exclusively. Once written it is
    final, and what the reader accepts is bound to the run and its specification.
  \<^item> \<open>Protected_Target\<close>, \<open>Protected_Target_Correct\<close>, \<open>Protected_Target_Reports\<close>
    (\<open>harbor/protected_target.py\<close>): the policy, the matching of tool calls, the audit of a trial and
    the admission of its findings. No spelling hides a protected path from a file tool; findings
    block exactly when something was reached, and when none blocks nothing was; every audit ends
    with a document. The invariant that carries this, \<open>finding_fine\<close>, is what the admission demands.

  Parameters. The clocks, the lines the runtime writes, what a tool handler does, what the programs
  in the container answer, which system calls fail, where a symbolic link leads, which
  characters beyond ASCII are alphanumeric or decimal digits, and their lower case, are arguments of the definitions;
  nothing is assumed of them beyond the hypotheses each property states.

  Not modelled. \<open>adapter/terminal_actor.py\<close>, \<open>adapter/workspace_snapshot.py\<close>, \<open>adapter/artifactizer.py\<close>,
  \<open>adapter/harbor.py\<close>, \<open>harbor/tb21.py\<close>, \<open>harbor/prelaunch.py\<close>, \<open>harbor/live_smoke.py\<close>,
  \<open>harbor/compat_v020.py\<close>, \<open>harbor/dispatch.py\<close>, \<open>harbor/provider.py\<close>, the scripts and the Rust host. Within the modelled files: the asyncio
  plumbing of the bridge (process creation, shielding, cancellation), represented by its outcomes;
  \<open>validate_with_pinned_harbor\<close>, which calls a package outside the repository; the shell programs
  of the isolation; the choice between the policy file of the source tree and that of the package.
  Of the language and its library: the recursion limit on deeply nested JSON,
  JSON in UTF-16 or UTF-32, the rounding and \<open>repr\<close> of floats, \<open>int()\<close> of strings. Of the system:
  other processes acting during an operation, symbolic links in proper prefixes of paths, short
  reads and partial writes, the durability \<open>fsync\<close> adds, and the permission bits of files.
\<close>

end
